theory Spec2Isabelle
  imports Main "HOL-Library.Word" "HOL-Library.AList"
begin

section \<open>The mgo session layer (session.go), as a shallow embedding\<close>

text \<open>
  The driver code of the repository is the file \<^verbatim>\<open>src/github_status/main.go\<close> from its
  \<^verbatim>\<open>package mgo\<close> part on. Structs are records, Go's \<^verbatim>\<open>error\<close> and \<^verbatim>\<open>interface{}\<close> values
  are datatypes, pointer fields that may be nil are options, and every call into the
  network (the socket, the cluster, the BSON codec) is an explicit input of the model.
\<close>

subsection \<open>Errors\<close>

text \<open>
  Go compares \<^verbatim>\<open>err == ErrNotFound\<close> by identity of the sentinel created by
  \<^verbatim>\<open>errors.New("not found")\<close>; every other error value is a different object.
\<close>

text \<open>
  \<^verbatim>\<open>type LastError struct\<close>, lines 1687-1694 (without \<^verbatim>\<open>UpsertedId\<close>, a value of any
  type), and \<^verbatim>\<open>type QueryError struct\<close>, lines 1709-1713.
\<close>

record LastError =
  le_Err :: string
  le_Code :: int
  le_N :: int
  le_Waited :: int
  le_FSyncFiles :: int
  le_WTimeout :: bool
  le_UpdatedExisting :: bool

record QueryError =
  qe_Code :: int
  qe_Message :: string
  qe_Assertion :: bool

text \<open>
  An \<^verbatim>\<open>error\<close> value: the sentinel, an error made by \<^verbatim>\<open>errors.New\<close> or coming from the
  network, an error made by \<^verbatim>\<open>fmt.Errorf\<close> with one argument (the format and the argument),
  a \<^verbatim>\<open>*QueryError\<close> or a \<^verbatim>\<open>*LastError\<close>.
\<close>

datatype error =
    ErrNotFound
  | ErrMsg string
  | ErrFmt string string
  | ErrQuery QueryError
  | ErrLast LastError

subsection \<open>Write acknowledgement: Safe, getLastError, ensureSafe\<close>

text \<open>The \<^verbatim>\<open>W interface{}\<close> field of getLastError holds nil, an int or a string.\<close>

datatype wval = WNil | WInt int | WStr string

text \<open>
  \<^verbatim>\<open>type Safe struct\<close>, lines 1314-1320, and \<^verbatim>\<open>type getLastError struct\<close>, lines 221-227.
  \<^verbatim>\<open>W\<close> and \<^verbatim>\<open>WTimeout\<close> are Go ints that are only compared, never computed with.
\<close>

record Safe =
  W :: int
  WMode :: string
  WTimeout :: int
  FSync :: bool
  J :: bool

record getLastError =
  CmdName :: int
  cmdW :: wval
  cmdWTimeout :: int
  cmdFSync :: bool
  cmdJ :: bool

text \<open>
  The fields of \<^verbatim>\<open>queryOp\<close> that the session layer sets on the acknowledgement
  command. The limit is an int32.
\<close>

record safeQueryOp =
  sq_query :: getLastError
  sq_collection :: string
  sq_limit :: "32 word"

text \<open>The consistency modes, lines 171-177.\<close>

datatype mode = Eventual | Monotonic | Strong

text \<open>
  A pooled socket: its identity and whether its server is the master
  (\<^verbatim>\<open>socket.Acquire().Master\<close>).
\<close>

record mongoSocket =
  sock_id :: nat
  sock_master :: bool

text \<open>
  \<^verbatim>\<open>type query struct { op queryOp; prefetch float64; limit int32 }\<close>: of the operation
  only the wire limit \<^verbatim>\<open>op.limit\<close> is modelled; the prefetch ratio is a float and stays out.
\<close>

record query =
  q_limit :: "32 word"
  q_op_limit :: "32 word"

text \<open>
  \<^verbatim>\<open>type Session struct\<close>, lines 182-196: the reserved sockets, the flag \<^verbatim>\<open>slaveOk\<close>, the
  mode, the default query configuration, the acknowledgement operation and the
  credentials. The lock, the pointer to the cluster and the timeouts passed on to it,
  the default database and \<^verbatim>\<open>dialAuth\<close> play no part in the functions below.
\<close>

record authInfo =
  auth_db :: string
  auth_user :: string
  auth_pass :: string

record Session =
  slaveSocket :: "mongoSocket option"
  masterSocket :: "mongoSocket option"
  slaveOk :: bool
  consistency :: mode
  queryConfig :: query
  safeOp :: "safeQueryOp option"
  auth :: "authInfo list"

text \<open>A Go panic is an outcome of its own, never a returned error.\<close>

datatype 'a outcome = Panic string | Ret 'a

text \<open>Reference counts of the pooled sockets, by socket id.\<close>

type_synonym refcounts = "nat \<Rightarrow> int"

definition sock_Acquire :: "mongoSocket \<Rightarrow> refcounts \<Rightarrow> refcounts" where
  "sock_Acquire sock rc = rc (sock_id sock := rc (sock_id sock) + 1)"

definition sock_Release :: "mongoSocket \<Rightarrow> refcounts \<Rightarrow> refcounts" where
  "sock_Release sock rc = rc (sock_id sock := rc (sock_id sock) - 1)"

text \<open>\<^verbatim>\<open>func (s *Session) ensureSafe(safe *Safe)\<close>, lines 1441-1481.\<close>

definition safe_w :: "Safe \<Rightarrow> wval" where
  "safe_w safe =
     (if WMode safe \<noteq> [] then WStr (WMode safe)
      else if W safe > 0 then WInt (W safe)
      else WNil)"

definition merge_W :: "getLastError \<Rightarrow> Safe \<Rightarrow> wval" where
  "merge_W cmd safe =
     (if cmdW cmd = WNil then safe_w safe
      else if WMode safe \<noteq> [] then WStr (WMode safe)
      else (case cmdW cmd of
              WInt i \<Rightarrow> if W safe > i then WInt (W safe) else cmdW cmd
            | _ \<Rightarrow> cmdW cmd))"

definition merge_WTimeout :: "getLastError \<Rightarrow> Safe \<Rightarrow> int" where
  "merge_WTimeout cmd safe =
     (if WTimeout safe > 0 \<and> WTimeout safe < cmdWTimeout cmd then WTimeout safe
      else cmdWTimeout cmd)"

definition merge_cmd :: "getLastError \<Rightarrow> Safe \<Rightarrow> getLastError" where
  "merge_cmd cmd safe =
     (let cmd1 = cmd\<lparr>cmdW := merge_W cmd safe\<rparr>;
          cmd2 = cmd1\<lparr>cmdWTimeout := merge_WTimeout cmd1 safe\<rparr>
      in if FSync safe then cmd2\<lparr>cmdFSync := True, cmdJ := False\<rparr>
         else if J safe \<and> \<not> cmdFSync cmd2 then cmd2\<lparr>cmdJ := True\<rparr>
         else cmd2)"

definition ensureSafe :: "Session \<Rightarrow> Safe option \<Rightarrow> Session" where
  "ensureSafe s arg =
     (case arg of
        None \<Rightarrow> s
      | Some safe \<Rightarrow>
          (let cmd = (case safeOp s of
                        None \<Rightarrow> \<lparr>CmdName = 1, cmdW = safe_w safe, cmdWTimeout = WTimeout safe,
                                  cmdFSync = FSync safe, cmdJ = J safe\<rparr>
                      | Some old \<Rightarrow> merge_cmd (sq_query old) safe)
           in s\<lparr>safeOp := Some \<lparr>sq_query = cmd, sq_collection = ''admin.$cmd'',
                                 sq_limit = - 1\<rparr>\<rparr>))"

text \<open>\<^verbatim>\<open>EnsureSafe\<close> takes the session lock and calls \<^verbatim>\<open>ensureSafe\<close>; \<^verbatim>\<open>SetSafe\<close> clears the
  spec first.\<close>

definition EnsureSafe :: "Session \<Rightarrow> Safe option \<Rightarrow> Session" where
  "EnsureSafe s arg = ensureSafe s arg"

definition SetSafe :: "Session \<Rightarrow> Safe option \<Rightarrow> Session" where
  "SetSafe s arg = ensureSafe (s\<lparr>safeOp := None\<rparr>) arg"

text \<open>\<^verbatim>\<open>func (s *Session) Safe() (safe *Safe)\<close>, lines 1323-1337.\<close>

definition Safe_of :: "Session \<Rightarrow> Safe option" where
  "Safe_of s =
     (case safeOp s of
        None \<Rightarrow> None
      | Some q \<Rightarrow>
          (let cmd = sq_query q;
               safe = \<lparr>W = 0, WMode = [], WTimeout = cmdWTimeout cmd,
                       FSync = cmdFSync cmd, J = cmdJ cmd\<rparr>
           in Some (case cmdW cmd of
                      WStr w \<Rightarrow> safe\<lparr>WMode := w\<rparr>
                    | WInt w \<Rightarrow> safe\<lparr>W := w\<rparr>
                    | WNil \<Rightarrow> safe)))"

text \<open>A sequence of EnsureSafe calls on one session, in order.\<close>

definition EnsureSafe_seq :: "Session \<Rightarrow> Safe option list \<Rightarrow> Session" where
  "EnsureSafe_seq s args = foldl EnsureSafe s args"

text \<open>The acknowledgement command currently configured, if any.\<close>

definition cur_cmd :: "Session \<Rightarrow> getLastError option" where
  "cur_cmd s = map_option sq_query (safeOp s)"

text \<open>
  The order in which two acknowledgement commands are compared: \<open>c'\<close> asks for at least
  what \<open>c\<close> asks for. A numeric threshold stays numeric and does not decrease, or gives
  way to a named mode; a named mode stays a named mode; a disk sync stays; a disk sync
  without group commit stays without it; a positive timeout stays positive and does not
  grow.
\<close>

definition stricter :: "getLastError \<Rightarrow> getLastError \<Rightarrow> bool" where
  "stricter c c' \<longleftrightarrow>
     (\<forall>i. cmdW c = WInt i \<longrightarrow> (\<exists>j. cmdW c' = WInt j \<and> i \<le> j) \<or> (\<exists>m. cmdW c' = WStr m)) \<and>
     (\<forall>m. cmdW c = WStr m \<longrightarrow> (\<exists>m'. cmdW c' = WStr m')) \<and>
     (cmdFSync c \<longrightarrow> cmdFSync c') \<and>
     (cmdFSync c \<and> \<not> cmdJ c \<longrightarrow> \<not> cmdJ c') \<and>
     (0 < cmdWTimeout c \<longrightarrow> 0 < cmdWTimeout c' \<and> cmdWTimeout c' \<le> cmdWTimeout c)"

subsection \<open>Consistency mode and socket binding\<close>

text \<open>\<^verbatim>\<open>func (s *Session) unsetSocket()\<close>, lines 3285-3294.\<close>

definition unsetSocket :: "Session \<Rightarrow> refcounts \<Rightarrow> Session \<times> refcounts" where
  "unsetSocket s rc =
     (let rc1 = (case masterSocket s of Some m \<Rightarrow> sock_Release m rc | None \<Rightarrow> rc);
          rc2 = (case slaveSocket s of Some sl \<Rightarrow> sock_Release sl rc1 | None \<Rightarrow> rc1)
      in (s\<lparr>masterSocket := None, slaveSocket := None\<rparr>, rc2))"

text \<open>\<^verbatim>\<open>func (s *Session) SetMode(consistency mode, refresh bool)\<close>, lines 1217-1230.\<close>

definition SetMode :: "Session \<Rightarrow> refcounts \<Rightarrow> mode \<Rightarrow> bool \<Rightarrow> Session \<times> refcounts" where
  "SetMode s rc m refresh =
     (let s1 = s\<lparr>consistency := m\<rparr>
      in if refresh then unsetSocket (s1\<lparr>slaveOk := (consistency s1 \<noteq> Strong)\<rparr>) rc
         else if consistency s1 = Strong then (s1\<lparr>slaveOk := False\<rparr>, rc)
         else if masterSocket s1 = None then (s1\<lparr>slaveOk := True\<rparr>, rc)
         else (s1, rc))"

text \<open>\<^verbatim>\<open>func (s *Session) Refresh()\<close>, lines 1170-1175.\<close>

definition Refresh :: "Session \<Rightarrow> refcounts \<Rightarrow> Session \<times> refcounts" where
  "Refresh s rc = unsetSocket (s\<lparr>slaveOk := (consistency s \<noteq> Strong)\<rparr>) rc"

text \<open>
  \<^verbatim>\<open>newSession\<close>, lines 465-473: no socket reserved, the mode set with refresh, and
  \<^verbatim>\<open>SetSafe(&Safe{})\<close>. The zero value of the query configuration has both limits 0.
\<close>

definition newSession :: "mode \<Rightarrow> refcounts \<Rightarrow> Session \<times> refcounts" where
  "newSession m rc =
     (let s0 = \<lparr>slaveSocket = None, masterSocket = None, slaveOk = False,
                 consistency = Eventual, queryConfig = \<lparr>q_limit = 0, q_op_limit = 0\<rparr>,
                 safeOp = None, auth = []\<rparr>;
          (s1, rc1) = SetMode s0 rc m True
      in (SetSafe s1 (Some \<lparr>W = 0, WMode = [], WTimeout = 0, FSync = False, J = False\<rparr>), rc1))"

text \<open>\<^verbatim>\<open>func (s *Session) socketLogin(socket *mongoSocket) error\<close>, lines 626-633;
  \<^verbatim>\<open>socket.Login\<close> talks to the server and is an input.\<close>

fun socketLogin ::
  "(mongoSocket \<Rightarrow> authInfo \<Rightarrow> error option) \<Rightarrow> authInfo list \<Rightarrow> mongoSocket \<Rightarrow> error option"
where
  "socketLogin login [] sock = None"
| "socketLogin login (a # as) sock =
     (case login sock a of Some e \<Rightarrow> Some e | None \<Rightarrow> socketLogin login as sock)"

text \<open>\<^verbatim>\<open>func (s *Session) setSocket(socket *mongoSocket)\<close>, lines 3269-3282.\<close>

definition setSocket :: "Session \<Rightarrow> refcounts \<Rightarrow> mongoSocket \<Rightarrow> (Session \<times> refcounts) outcome" where
  "setSocket s rc sock =
     (let rc1 = sock_Acquire sock rc
      in if sock_master sock then
           (if masterSocket s \<noteq> None
            then Panic ''setSocket(master) with existing master socket reserved''
            else Ret (s\<lparr>masterSocket := Some sock\<rparr>, rc1))
         else
           (if slaveSocket s \<noteq> None
            then Panic ''setSocket(slave) with existing slave socket reserved''
            else Ret (s\<lparr>slaveSocket := Some sock\<rparr>, rc1)))"

text \<open>
  The reserved socket that \<^verbatim>\<open>acquireSocket\<close> may hand out: the master socket always, the
  slave socket when the session and the caller both accept a slave.
\<close>

definition reservedSocket :: "Session \<Rightarrow> bool \<Rightarrow> mongoSocket option" where
  "reservedSocket s so =
     (case masterSocket s of
        Some m \<Rightarrow> Some m
      | None \<Rightarrow>
          (case slaveSocket s of
             Some sl \<Rightarrow> if slaveOk s \<and> so then Some sl else None
           | None \<Rightarrow> None))"

text \<open>
  \<^verbatim>\<open>func (s *Session) acquireSocket(slaveOk bool) (*mongoSocket, error)\<close>, lines 3207-3266.
  The check under the read lock and its repetition under the write lock are one check
  in a sequential run. \<^verbatim>\<open>cluster().AcquireSocket\<close> belongs to the cluster: it is the input
  \<open>cl\<close>, asked with the flag \<^verbatim>\<open>slaveOk && s.slaveOk\<close>, and the socket it returns is
  already acquired once for the caller.
\<close>

definition acquireSocket ::
  "(bool \<Rightarrow> error + mongoSocket) \<Rightarrow> (mongoSocket \<Rightarrow> authInfo \<Rightarrow> error option) \<Rightarrow>
   Session \<Rightarrow> refcounts \<Rightarrow> bool \<Rightarrow> ((error + mongoSocket) \<times> Session \<times> refcounts) outcome"
where
  "acquireSocket cl login s rc so =
     (case reservedSocket s so of
        Some sock \<Rightarrow> Ret (Inr sock, s, sock_Acquire sock rc)
      | None \<Rightarrow>
          (case cl (so \<and> slaveOk s) of
             Inl e \<Rightarrow> Ret (Inl e, s, rc)
           | Inr sock \<Rightarrow>
               (let rc1 = sock_Acquire sock rc
                in case socketLogin login (auth s) sock of
                     Some e \<Rightarrow> Ret (Inl e, s, sock_Release sock rc1)
                   | None \<Rightarrow>
                       (case (if consistency s \<noteq> Eventual \<or> slaveSocket s \<noteq> None
                              then setSocket s rc1 sock else Ret (s, rc1)) of
                          Panic msg \<Rightarrow> Panic msg
                        | Ret (s1, rc2) \<Rightarrow>
                            Ret (Inr sock,
                                 if \<not> so \<and> consistency s1 = Monotonic
                                 then s1\<lparr>slaveOk := False\<rparr> else s1,
                                 rc2)))))"

subsection \<open>Query limits and batch sizes\<close>

text \<open>
  Go's \<^verbatim>\<open>int\<close> is the 64-bit machine integer of the platforms the driver runs on; the
  conversion \<^verbatim>\<open>int32(n)\<close> keeps the low 32 bits.
\<close>

definition int32 :: "64 word \<Rightarrow> 32 word" where
  "int32 n = ucast n"

text \<open>\<^verbatim>\<open>func (q *Query) Limit(n int) *Query\<close>, lines 2000-2018.
  \<^verbatim>\<open>math.MinInt32\<close> is \<open>- 2147483648\<close> and \<^verbatim>\<open>math.MaxInt32\<close> is \<open>2147483647\<close>.\<close>

definition Limit :: "query \<Rightarrow> 64 word \<Rightarrow> query" where
  "Limit q n =
     (if n = 1 then q\<lparr>q_limit := 1, q_op_limit := - 1\<rparr>
      else if n = - 2147483648 then q\<lparr>q_limit := 2147483647, q_op_limit := - 2147483648 + 1\<rparr>
      else if n <s 0 then q\<lparr>q_limit := int32 (- n), q_op_limit := int32 n\<rparr>
      else q\<lparr>q_limit := int32 n, q_op_limit := int32 n\<rparr>)"

text \<open>\<^verbatim>\<open>func (q *Query) Batch(n int) *Query\<close>, lines 1958-1967.\<close>

definition Batch :: "query \<Rightarrow> 64 word \<Rightarrow> query" where
  "Batch q n = (let n1 = (if n = 1 then 2 else n) in q\<lparr>q_op_limit := int32 n1\<rparr>)"

text \<open>\<^verbatim>\<open>func (s *Session) SetBatch(n int)\<close>, lines 1284-1292.\<close>

definition SetBatch :: "Session \<Rightarrow> 64 word \<Rightarrow> Session" where
  "SetBatch s n =
     (let n1 = (if n = 1 then 2 else n)
      in s\<lparr>queryConfig := (queryConfig s)\<lparr>q_op_limit := int32 n1\<rparr>\<rparr>)"

subsection \<open>Server errors inside reply documents\<close>

text \<open>
  A reply document is a \<^verbatim>\<open>[]byte\<close>; a \<open>string\<close> is a list of bytes. The decoding target
  of \<^verbatim>\<open>bson.Unmarshal\<close> in \<^verbatim>\<open>checkQueryError\<close>:
\<close>

record queryError =
  dq_Err :: string
  dq_ErrMsg :: string
  dq_Assertion :: string
  dq_Code :: int
  dq_AssertionCode :: int
  dq_LastError :: "LastError option"

text \<open>
  The scan shared by \<^verbatim>\<open>hasErrMsg\<close> (lines 3389-3397) and \<^verbatim>\<open>checkQueryError\<close>:
  \<^verbatim>\<open>for i := 0; i+8 < l; i++\<close> looks for the eight bytes \<^verbatim>\<open>\x02errmsg\x00\<close> at \<open>i\<close>, so
  more than eight bytes must remain.
\<close>

fun hasErrMsg :: "string \<Rightarrow> bool" where
  "hasErrMsg [] = False"
| "hasErrMsg (c # cs) =
     (if 8 < length (c # cs) \<and>
         take 8 (c # cs) = [CHR 0x02, CHR ''e'', CHR ''r'', CHR ''r'', CHR ''m'', CHR ''s'',
                            CHR ''g'', CHR 0x00]
      then True else hasErrMsg cs)"

text \<open>The part of \<^verbatim>\<open>checkQueryError\<close> after the label \<^verbatim>\<open>Error\<close>, on the decoded document.\<close>

definition queryError_result :: "queryError \<Rightarrow> error option" where
  "queryError_result result =
     (case dq_LastError result of
        Some le \<Rightarrow> Some (ErrLast le)
      | None \<Rightarrow>
          if dq_Err result = [] \<and> dq_ErrMsg result = [] then None
          else if dq_AssertionCode result \<noteq> 0 \<and> dq_Assertion result \<noteq> [] then
            Some (ErrQuery \<lparr>qe_Code = dq_AssertionCode result,
                            qe_Message = dq_Assertion result, qe_Assertion = True\<rparr>)
          else if dq_Err result \<noteq> [] then
            Some (ErrQuery \<lparr>qe_Code = dq_Code result, qe_Message = dq_Err result,
                            qe_Assertion = False\<rparr>)
          else
            Some (ErrQuery \<lparr>qe_Code = dq_Code result, qe_Message = dq_ErrMsg result,
                            qe_Assertion = False\<rparr>))"

text \<open>
  \<^verbatim>\<open>func checkQueryError(fullname string, d []byte) error\<close>, lines 2179-2214;
  \<open>unm\<close> is \<^verbatim>\<open>bson.Unmarshal\<close> into a \<^verbatim>\<open>queryError\<close>.
\<close>

definition checkQueryError :: "(string \<Rightarrow> queryError) \<Rightarrow> string \<Rightarrow> string \<Rightarrow> error option" where
  "checkQueryError unm fullname d =
     (if length d < 16 then None
      else if take 6 (drop 4 d) = [CHR 0x02, CHR ''$'', CHR ''e'', CHR ''r'', CHR ''r'', CHR 0x00]
      then queryError_result (unm d)
      else if length fullname < 5 \<or> drop (length fullname - 5) fullname \<noteq> ''.$cmd'' then None
      else if hasErrMsg d then queryError_result (unm d)
      else None)"

subsection \<open>Writes and their acknowledgement\<close>

text \<open>
  What \<^verbatim>\<open>socket.Query\<close> is given: the write operation itself (an insert, update or
  delete operation, of a type \<open>'op\<close>), and the acknowledgement query with the private
  reply callback of \<^verbatim>\<open>writeQuery\<close> attached.
\<close>

datatype 'op wireOp = WriteOp 'op | AckQuery safeQueryOp

text \<open>The decoding of the acknowledgement reply, lines 3368-3384; \<open>unl\<close> is
  \<^verbatim>\<open>bson.Unmarshal\<close> into a \<^verbatim>\<open>LastError\<close>.\<close>

definition ackResult ::
  "(string \<Rightarrow> queryError) \<Rightarrow> (string \<Rightarrow> LastError) \<Rightarrow> string \<Rightarrow> error option \<Rightarrow> string \<Rightarrow>
   LastError option \<times> error option"
where
  "ackResult unm unl collection replyErr replyData =
     (case replyErr of
        Some e \<Rightarrow> (None, Some e)
      | None \<Rightarrow>
          (case (if hasErrMsg replyData then checkQueryError unm collection replyData
                 else None) of
             Some e \<Rightarrow> (None, Some e)
           | None \<Rightarrow>
               (let result = unl replyData
                in if le_Err result \<noteq> [] then (Some result, Some (ErrLast result))
                   else (Some result, None))))"

text \<open>
  \<^verbatim>\<open>func (c *Collection) writeQuery(op interface{}) (lerr *LastError, err error)\<close>,
  lines 3336-3387, for a collection of the database \<open>dbname\<close>. The inputs: the cluster
  \<open>cl\<close> and the login \<open>login\<close> of \<^verbatim>\<open>acquireSocket\<close>; \<open>sq\<close>, the result of
  \<^verbatim>\<open>socket.Query\<close> on a socket for a list of operations; \<open>reply\<close>, the error and the
  bytes the server's reply brings to the private callback, or \<open>None\<close> when no reply ever
  arrives. The result holds the returned pair, or \<open>None\<close> when the call never returns
  (it waits in the second \<^verbatim>\<open>mutex.Lock()\<close>, and the deferred \<^verbatim>\<open>socket.Release()\<close> does
  not run); the session; the reference counts; and the calls made to \<^verbatim>\<open>socket.Query\<close>.
\<close>

definition writeQuery ::
  "(bool \<Rightarrow> error + mongoSocket) \<Rightarrow> (mongoSocket \<Rightarrow> authInfo \<Rightarrow> error option) \<Rightarrow>
   (mongoSocket \<Rightarrow> 'op wireOp list \<Rightarrow> error option) \<Rightarrow> (error option \<times> string) option \<Rightarrow>
   (string \<Rightarrow> queryError) \<Rightarrow> (string \<Rightarrow> LastError) \<Rightarrow>
   Session \<Rightarrow> refcounts \<Rightarrow> string \<Rightarrow> 'op \<Rightarrow>
   ((LastError option \<times> error option) option \<times> Session \<times> refcounts \<times>
    (mongoSocket \<times> 'op wireOp list) list) outcome"
where
  "writeQuery cl login sq reply unm unl s rc dbname op =
     (case acquireSocket cl login s rc (dbname = ''local'') of
        Panic msg \<Rightarrow> Panic msg
      | Ret (Inl e, s1, rc1) \<Rightarrow> Ret (Some (None, Some e), s1, rc1, [])
      | Ret (Inr sock, s1, rc1) \<Rightarrow>
          (let rc2 = sock_Release sock rc1
           in case safeOp s1 of
                None \<Rightarrow>
                  Ret (Some (None, sq sock [WriteOp op]), s1, rc2, [(sock, [WriteOp op])])
              | Some sop \<Rightarrow>
                  (let query = sop\<lparr>sq_collection := dbname @ ''.$cmd''\<rparr>;
                       sent = [(sock, [WriteOp op, AckQuery query])]
                   in case sq sock [WriteOp op, AckQuery query] of
                        Some e \<Rightarrow> Ret (Some (None, Some e), s1, rc2, sent)
                      | None \<Rightarrow>
                          (case reply of
                             None \<Rightarrow> Ret (None, s1, rc1, sent)
                           | Some (replyErr, replyData) \<Rightarrow>
                               Ret (Some (ackResult unm unl (sq_collection query)
                                            replyErr replyData),
                                    s1, rc2, sent)))))"

text \<open>What a finished or waiting \<^verbatim>\<open>writeQuery\<close> returned, and what it sent.\<close>

definition wq_ret ::
  "('r \<times> Session \<times> refcounts \<times> (mongoSocket \<times> 'op wireOp list) list) outcome \<Rightarrow> 'r option"
where
  "wq_ret r = (case r of Ret (ret, _, _, _) \<Rightarrow> Some ret | Panic _ \<Rightarrow> None)"

definition wq_sent ::
  "('r \<times> Session \<times> refcounts \<times> (mongoSocket \<times> 'op wireOp list) list) outcome \<Rightarrow>
   (mongoSocket \<times> 'op wireOp list) list"
where
  "wq_sent r = (case r of Ret (_, _, _, sent) \<Rightarrow> sent | Panic _ \<Rightarrow> [])"

subsection \<open>The cursor iterator\<close>

text \<open>
  \<^verbatim>\<open>type Iter struct\<close>, lines 229-243. \<open>locked\<close> says that the mutex \<^verbatim>\<open>iter.m\<close> is held;
  \<open>docData\<close> is the FIFO queue of received documents (\<^verbatim>\<open>Push\<close> appends, \<^verbatim>\<open>Pop\<close> takes the
  first); \<open>op_collection\<close>, \<open>op_limit\<close> and \<open>op_cursorId\<close> are the fields of the
  \<^verbatim>\<open>getMoreOp\<close> in \<^verbatim>\<open>iter.op\<close>; \<open>timeout\<close> is a \<^verbatim>\<open>time.Duration\<close>. The session, the
  server and the prefetch ratio (a float) are inputs of the functions that use them.
\<close>

record Iter =
  locked :: bool
  docData :: "string list"
  err :: "error option"
  op_collection :: string
  op_limit :: "32 word"
  op_cursorId :: "64 word"
  limit :: "32 word"
  docsToReceive :: int
  docsBeforeMore :: int
  timeout :: int
  timedout :: bool

text \<open>The requests sent for an iterator through \<^verbatim>\<open>socket.Query\<close>: the query itself
  (collection and wire limit of the \<^verbatim>\<open>queryOp\<close>), a \<^verbatim>\<open>killCursorsOp\<close> with its cursor
  ids, or the \<^verbatim>\<open>getMoreOp\<close> (collection, limit, cursor id).\<close>

datatype request =
    QueryReq string "32 word"
  | KillCursors "64 word list"
  | GetMore string "32 word" "64 word"

text \<open>
  One use of the network by the iterator: the result of \<^verbatim>\<open>iter.acquireSocket()\<close> (lines
  2734-2759, which asks the session and the cursor's server) and the result of the
  \<^verbatim>\<open>socket.Query\<close> that follows.
\<close>

record net =
  net_acquire :: "error + mongoSocket"
  net_query :: "error option"

text \<open>\<^verbatim>\<open>func (iter *Iter) killCursor() error\<close>, lines 2524-2539.\<close>

definition killCursor :: "net \<Rightarrow> Iter \<Rightarrow> error option \<times> Iter \<times> (mongoSocket \<times> request) list" where
  "killCursor n it =
     (if op_cursorId it \<noteq> 0 then
        (let (e, sent) =
               (case net_acquire n of
                  Inl e \<Rightarrow> (Some e, [])
                | Inr sock \<Rightarrow> (net_query n, [(sock, KillCursors [op_cursorId it])]));
             it1 = (if e \<noteq> None \<and> (err it = None \<or> err it = Some ErrNotFound)
                    then it\<lparr>err := e\<rparr> else it)
         in (e, it1\<lparr>op_cursorId := 0\<rparr>, sent))
      else (None, it, []))"

text \<open>
  \<^verbatim>\<open>func (iter *Iter) Close() error\<close>, lines 2513-2522, and \<^verbatim>\<open>Err\<close>, lines 2488-2496, and
  \<^verbatim>\<open>Timeout\<close>, lines 2544-2549. Each takes \<^verbatim>\<open>iter.m\<close> first: on an iterator whose mutex
  was left locked the call never returns, which is the result \<open>None\<close>.
\<close>

definition Close :: "net \<Rightarrow> Iter \<Rightarrow> (error option \<times> Iter \<times> (mongoSocket \<times> request) list) option" where
  "Close n it =
     (if locked it then None
      else (let (_, it1, sent) = killCursor n it;
                e = err it1
            in Some (if e = Some ErrNotFound then None else e, it1, sent)))"

definition Err :: "Iter \<Rightarrow> error option option" where
  "Err it =
     (if locked it then None
      else Some (if err it = Some ErrNotFound then None else err it))"

definition Timeout :: "Iter \<Rightarrow> bool option" where
  "Timeout it = (if locked it then None else Some (timedout it))"

text \<open>
  \<^verbatim>\<open>func (iter *Iter) getMore()\<close>, lines 2761-2780. The limit arithmetic is on int32;
  \<^verbatim>\<open>int32(x)\<close> of a Go int keeps its low 32 bits.
\<close>

definition getMore :: "net \<Rightarrow> Iter \<Rightarrow> Iter \<times> (mongoSocket \<times> request) list" where
  "getMore n it =
     (case net_acquire n of
        Inl e \<Rightarrow> (it\<lparr>err := Some e\<rparr>, [])
      | Inr sock \<Rightarrow>
          (let it1 = (if 0 <s limit it then
                        (let l = limit it - word_of_int (docsToReceive it)
                                          - word_of_int (int (length (docData it)))
                         in if l <s op_limit it then it\<lparr>op_limit := l\<rparr> else it)
                      else it);
               it2 = (case net_query n of Some e \<Rightarrow> it1\<lparr>err := Some e\<rparr> | None \<Rightarrow> it1)
           in (it2\<lparr>docsToReceive := docsToReceive it2 + 1\<rparr>,
               [(sock, GetMore (op_collection it1) (op_limit it1) (op_cursorId it1))])))"

text \<open>
  One call of the reply callback, lines 3296-3330: the error, the cursor id and the
  number of documents of the reply (\<^verbatim>\<open>op.cursorId\<close>, \<^verbatim>\<open>op.replyDocs\<close>; the socket passes
  a nil \<^verbatim>\<open>op\<close> only together with an error), the index of the document in the reply
  (-1 for a reply without documents) and the document.
\<close>

record reply =
  r_err :: "error option"
  r_cursorId :: "64 word"
  r_replyDocs :: "32 word"
  r_docNum :: int
  r_docData :: string

text \<open>\<open>pf rdocs\<close> is \<^verbatim>\<open>int(iter.prefetch*float64(rdocs))\<close>, a float computation.\<close>

definition replyFunc :: "(int \<Rightarrow> int) \<Rightarrow> Iter \<Rightarrow> reply \<Rightarrow> Iter" where
  "replyFunc pf it r =
     (let it1 = it\<lparr>docsToReceive := docsToReceive it - 1\<rparr>
      in case r_err r of
           Some e \<Rightarrow> it1\<lparr>err := Some e\<rparr>
         | None \<Rightarrow>
             if r_docNum r = - 1 then
               (if r_cursorId r \<noteq> 0 then it1\<lparr>op_cursorId := r_cursorId r\<rparr>
                else it1\<lparr>err := Some ErrNotFound\<rparr>)
             else
               (let rdocs = sint (r_replyDocs r);
                    it2 = (if r_docNum r = 0 then
                             (let it3 = it1\<lparr>docsToReceive := docsToReceive it1 + (rdocs - 1)\<rparr>;
                                  docsToProcess = int (length (docData it3)) + rdocs;
                                  it4 = (if limit it3 = 0 \<or>
                                            (word_of_int docsToProcess :: 32 word) <s limit it3
                                         then it3\<lparr>docsBeforeMore := docsToProcess - pf rdocs\<rparr>
                                         else it3\<lparr>docsBeforeMore := - 1\<rparr>)
                              in it4\<lparr>op_cursorId := r_cursorId r\<rparr>)
                           else it1)
                in it2\<lparr>docData := docData it2 @ [r_docData r]\<rparr>))"

text \<open>
  One turn of the waiting loop of \<^verbatim>\<open>Next\<close> (lines 2576-2591) meets the outside world in
  this order: the clock read when the deadline is first set, the clock read for the
  comparison with the deadline, the network for \<^verbatim>\<open>getMore\<close>, and the reply callbacks
  that run while \<^verbatim>\<open>gotReply.Wait()\<close> has released the mutex.
\<close>

record round =
  now_set :: int
  now_check :: int
  more_net :: net
  replies :: "reply list"

datatype waited =
    TimedOut Iter "(mongoSocket \<times> request) list"
  | Ready Iter "(mongoSocket \<times> request) list"

text \<open>
  The waiting loop. \<open>dl\<close> is the local \<^verbatim>\<open>timeout\<close> of \<^verbatim>\<open>Next\<close>, the absolute deadline,
  \<open>None\<close> while it is the zero time. \<^verbatim>\<open>gotReply.Wait()\<close> (line 2590) returns only after
  a broadcast, and only the reply callback broadcasts (line 3327). So when the loop has
  to wait and the outside world has no further round, or the round brings no reply, or
  no reply is outstanding (\<^verbatim>\<open>docsToReceive\<close>, which counts them, is not positive: so
  after a \<^verbatim>\<open>getMore\<close> that could not acquire a socket, lines 2762-2766), the loop waits
  forever: the result \<open>None\<close>.
\<close>

fun Next_wait ::
  "(int \<Rightarrow> int) \<Rightarrow> Iter \<Rightarrow> int option \<Rightarrow> (mongoSocket \<times> request) list \<Rightarrow> round list \<Rightarrow>
   waited option"
where
  "Next_wait pf it dl sent [] =
     (if err it = None \<and> docData it = [] \<and> (0 < docsToReceive it \<or> op_cursorId it \<noteq> 0)
      then None else Some (Ready it sent))"
| "Next_wait pf it dl sent (r # rs) =
     (if err it = None \<and> docData it = [] \<and> (0 < docsToReceive it \<or> op_cursorId it \<noteq> 0)
      then
        (if docsToReceive it = 0 then
           (if 0 \<le> timeout it then
              (let d = (case dl of None \<Rightarrow> now_set r + timeout it | Some d0 \<Rightarrow> d0)
               in if d < now_check r then Some (TimedOut (it\<lparr>timedout := True\<rparr>) sent)
                  else (let (it1, s1) = getMore (more_net r) it
                        in if replies r = [] \<or> docsToReceive it1 \<le> 0 then None
                           else Next_wait pf (foldl (replyFunc pf) it1 (replies r)) (Some d)
                                  (sent @ s1) rs))
            else (let (it1, s1) = getMore (more_net r) it
                  in if replies r = [] \<or> docsToReceive it1 \<le> 0 then None
                     else Next_wait pf (foldl (replyFunc pf) it1 (replies r)) dl (sent @ s1) rs))
         else if replies r = [] \<or> docsToReceive it \<le> 0 then None
              else Next_wait pf (foldl (replyFunc pf) it (replies r)) dl sent rs)
      else Some (Ready it sent))"

text \<open>
  The rest of \<^verbatim>\<open>Next\<close>, lines 2593-2643, on the state the loop leaves. \<open>um\<close> is
  \<^verbatim>\<open>bson.Unmarshal\<close> of the document into the caller's result, \<open>unm\<close> the decoder of
  \<^verbatim>\<open>checkQueryError\<close>, \<open>kn\<close> and \<open>mn\<close> the network met by \<^verbatim>\<open>killCursor\<close> and by
  \<^verbatim>\<open>getMore\<close>. The result: what \<^verbatim>\<open>Next\<close> returns, the document it took from the queue,
  the iterator, and the requests sent. The \<^verbatim>\<open>return false\<close> after a failed
  \<^verbatim>\<open>killCursor\<close> leaves \<^verbatim>\<open>iter.m\<close> locked.
\<close>

definition Next_deliver ::
  "(string \<Rightarrow> error option) \<Rightarrow> (string \<Rightarrow> queryError) \<Rightarrow> net \<Rightarrow> string \<Rightarrow> Iter \<Rightarrow>
   (mongoSocket \<times> request) list \<Rightarrow>
   (bool \<times> string option \<times> Iter \<times> (mongoSocket \<times> request) list) outcome"
where
  "Next_deliver um unm mn d it sent =
     (let (it1, s1) =
            (if op_cursorId it \<noteq> 0 \<and> err it = None then
               (let (it2, s2) = (if docsBeforeMore it = 0 then getMore mn it else (it, []))
                in (it2\<lparr>docsBeforeMore := docsBeforeMore it2 - 1\<rparr>, s2))
             else (it, []));
          it3 = it1\<lparr>locked := False\<rparr>
      in case um d of
           Some e \<Rightarrow> Ret (False, Some d, it3\<lparr>err := Some e\<rparr>, sent @ s1)
         | None \<Rightarrow>
             (case checkQueryError unm (op_collection it3) d of
                Some e \<Rightarrow>
                  Ret (False, Some d, if err it3 = None then it3\<lparr>err := Some e\<rparr> else it3,
                       sent @ s1)
              | None \<Rightarrow> Ret (True, Some d, it3, sent @ s1)))"

definition Next_yield ::
  "(string \<Rightarrow> error option) \<Rightarrow> (string \<Rightarrow> queryError) \<Rightarrow> net \<Rightarrow> net \<Rightarrow> Iter \<Rightarrow>
   (mongoSocket \<times> request) list \<Rightarrow>
   (bool \<times> string option \<times> Iter \<times> (mongoSocket \<times> request) list) outcome"
where
  "Next_yield um unm kn mn it sent =
     (case docData it of
        d # rest \<Rightarrow>
          (let it1 = it\<lparr>docData := rest\<rparr>
           in if 0 <s limit it1 then
                (let it2 = it1\<lparr>limit := limit it1 - 1\<rparr>
                 in if limit it2 = 0 then
                      (if 0 < length (docData it2)
                       then Panic ''data remains after limit exhausted''
                       else (let (ke, it3, ks) = killCursor kn (it2\<lparr>err := Some ErrNotFound\<rparr>)
                             in if ke \<noteq> None then Ret (False, Some d, it3, sent @ ks)
                                else Next_deliver um unm mn d it3 (sent @ ks)))
                    else Next_deliver um unm mn d it2 sent)
              else Next_deliver um unm mn d it1 sent)
      | [] \<Rightarrow>
          if err it \<noteq> None then Ret (False, None, it\<lparr>locked := False\<rparr>, sent)
          else if op_cursorId it = 0
          then Ret (False, None, it\<lparr>err := Some ErrNotFound, locked := False\<rparr>, sent)
          else Panic ''unreachable'')"

text \<open>
  \<^verbatim>\<open>func (iter *Iter) Next(result interface{}) bool\<close>, lines 2572-2644. \<open>None\<close>: the call
  never returns (the mutex is held, or the loop waits forever).
\<close>

definition Next ::
  "(int \<Rightarrow> int) \<Rightarrow> (string \<Rightarrow> error option) \<Rightarrow> (string \<Rightarrow> queryError) \<Rightarrow>
   round list \<Rightarrow> net \<Rightarrow> net \<Rightarrow> Iter \<Rightarrow>
   (bool \<times> string option \<times> Iter \<times> (mongoSocket \<times> request) list) outcome option"
where
  "Next pf um unm rounds kn mn it =
     (if locked it then None
      else (case Next_wait pf (it\<lparr>locked := True, timedout := False\<rparr>) None [] rounds of
              None \<Rightarrow> None
            | Some (TimedOut it1 sent) \<Rightarrow> Some (Ret (False, None, it1\<lparr>locked := False\<rparr>, sent))
            | Some (Ready it1 sent) \<Rightarrow> Some (Next_yield um unm kn mn it1 sent)))"

text \<open>
  \<^verbatim>\<open>func (q *Query) Iter() *Iter\<close>, lines 2366-2397, for a query on the collection
  \<open>coll\<close>. The input \<open>n\<close> is the result of \<^verbatim>\<open>session.acquireSocket(true)\<close> and of the
  \<^verbatim>\<open>socket.Query\<close> that sends the query. The iterator takes the client limit and the
  wire limit from the query as they are, and expects one reply.
\<close>

definition Query_Iter :: "query \<Rightarrow> string \<Rightarrow> net \<Rightarrow> Iter \<times> (mongoSocket \<times> request) list" where
  "Query_Iter q coll n =
     (let it = \<lparr>locked = False, docData = [], err = None, op_collection = coll,
                 op_limit = q_op_limit q, op_cursorId = 0, limit = q_limit q,
                 docsToReceive = 1, docsBeforeMore = 0, timeout = - 1, timedout = False\<rparr>
      in case net_acquire n of
           Inl e \<Rightarrow> (it\<lparr>err := Some e\<rparr>, [])
         | Inr sock \<Rightarrow> (it\<lparr>err := net_query n\<rparr>, [(sock, QueryReq coll (q_op_limit q))]))"

text \<open>
  Successive calls of \<^verbatim>\<open>Next\<close> on one iterator, each with the outside world it meets
  (the rounds of its waiting loop, the network of its \<^verbatim>\<open>killCursor\<close> and of its
  \<^verbatim>\<open>getMore\<close>): what each call returned. Replies reach the iterator in the rounds,
  that is while a call of \<^verbatim>\<open>Next\<close> waits for them. The calls end with a panic or with
  a call that never returns.
\<close>

fun Next_run ::
  "(int \<Rightarrow> int) \<Rightarrow> (string \<Rightarrow> error option) \<Rightarrow> (string \<Rightarrow> queryError) \<Rightarrow> Iter \<Rightarrow>
   (round list \<times> net \<times> net) list \<Rightarrow> bool outcome option list"
where
  "Next_run pf um unm it [] = []"
| "Next_run pf um unm it ((rounds, kn, mn) # envs) =
     (case Next pf um unm rounds kn mn it of
        None \<Rightarrow> [None]
      | Some (Panic msg) \<Rightarrow> [Some (Panic msg)]
      | Some (Ret (b, _, it1, _)) \<Rightarrow> Some (Ret b) # Next_run pf um unm it1 envs)"

text \<open>
  Turns of the waiting loop of \<^verbatim>\<open>Next\<close> in which the loop goes on waiting while the
  deadline is \<open>d\<close>: in each turn the loop condition holds, a reply is outstanding
  when the loop waits and one arrives, and in a turn that compares the clock with the
  deadline the deadline has not passed. The result is the iterator after these turns,
  \<open>None\<close> when a turn is not of this kind.
\<close>

fun Next_waiting :: "(int \<Rightarrow> int) \<Rightarrow> Iter \<Rightarrow> int \<Rightarrow> round list \<Rightarrow> Iter option" where
  "Next_waiting pf it d [] = Some it"
| "Next_waiting pf it d (r # rs) =
     (if err it = None \<and> docData it = [] \<and> (0 < docsToReceive it \<or> op_cursorId it \<noteq> 0) \<and>
         replies r \<noteq> []
      then (if docsToReceive it = 0
            then (if d < now_check r \<or> docsToReceive (fst (getMore (more_net r) it)) \<le> 0
                  then None
                  else Next_waiting pf
                         (foldl (replyFunc pf) (fst (getMore (more_net r) it)) (replies r)) d rs)
            else if docsToReceive it \<le> 0 then None
                 else Next_waiting pf (foldl (replyFunc pf) it (replies r)) d rs)
      else None)"

subsection \<open>Strings\<close>

text \<open>
  The functions of Go's \<^verbatim>\<open>strings\<close> package that the driver calls, on byte strings and
  for the one-byte separators it uses. \<^verbatim>\<open>strings.Index\<close> gives the first position of
  the byte or -1 (here \<open>None\<close>); \<^verbatim>\<open>strings.SplitN(s, sep, 2)\<close> cuts at the first
  separator; \<^verbatim>\<open>strings.Split\<close> cuts at every separator and keeps empty pieces;
  \<^verbatim>\<open>strings.FieldsFunc\<close> cuts at runs of separators and drops empty pieces.
\<close>

definition strings_Index :: "string \<Rightarrow> char \<Rightarrow> nat option" where
  "strings_Index s c =
     (if c \<in> set s then Some (length (takeWhile (\<lambda>x. x \<noteq> c) s)) else None)"

definition strings_SplitN2 :: "string \<Rightarrow> char \<Rightarrow> string list" where
  "strings_SplitN2 s sep =
     (case strings_Index s sep of
        None \<Rightarrow> [s]
      | Some i \<Rightarrow> [take i s, drop (i + 1) s])"

fun split_from :: "char \<Rightarrow> string \<Rightarrow> string \<Rightarrow> string list" where
  "split_from sep cur [] = [cur]"
| "split_from sep cur (c # cs) =
     (if c = sep then cur # split_from sep [] cs else split_from sep (cur @ [c]) cs)"

definition strings_Split :: "string \<Rightarrow> char \<Rightarrow> string list" where
  "strings_Split s sep = split_from sep [] s"

fun fields_from :: "(char \<Rightarrow> bool) \<Rightarrow> string \<Rightarrow> string \<Rightarrow> string list" where
  "fields_from f cur [] = (if cur = [] then [] else [cur])"
| "fields_from f cur (c # cs) =
     (if f c then (if cur = [] then fields_from f [] cs else cur # fields_from f [] cs)
      else fields_from f (cur @ [c]) cs)"

definition strings_FieldsFunc :: "string \<Rightarrow> (char \<Rightarrow> bool) \<Rightarrow> string list" where
  "strings_FieldsFunc s f = fields_from f [] s"

subsection \<open>Connection strings\<close>

text \<open>\<^verbatim>\<open>func isOptSep(c rune) bool\<close>, lines 421-423.\<close>

definition isOptSep :: "char \<Rightarrow> bool" where
  "isOptSep c \<longleftrightarrow> c = CHR '';'' \<or> c = CHR ''&''"

text \<open>
  \<^verbatim>\<open>type urlInfo struct\<close>, lines 425-431. The map \<^verbatim>\<open>options\<close> is an association list
  with one entry for each key; an assignment \<^verbatim>\<open>options[k] = v\<close> replaces the entry of
  \<open>k\<close> or adds one.
\<close>

record urlInfo =
  addrs :: "string list"
  user :: string
  pass :: string
  db :: string
  options :: "(string \<times> string) list"

text \<open>The loop over the option pairs in \<^verbatim>\<open>parseURL\<close>, lines 439-445.\<close>

fun parseOptions ::
  "string list \<Rightarrow> (string \<times> string) list \<Rightarrow> error + (string \<times> string) list"
where
  "parseOptions [] opts = Inr opts"
| "parseOptions (pair # pairs) opts =
     (case strings_SplitN2 pair CHR ''='' of
        [k, v] \<Rightarrow>
          if k = [] \<or> v = []
          then Inl (ErrMsg (''Connection option must be key=value: '' @ pair))
          else parseOptions pairs (AList.update k v opts)
      | _ \<Rightarrow> Inl (ErrMsg (''Connection option must be key=value: '' @ pair)))"

text \<open>\<^verbatim>\<open>func parseURL(url string) (*urlInfo, error)\<close>, lines 433-463.\<close>

definition parseURL :: "string \<Rightarrow> error + urlInfo" where
  "parseURL url0 =
     (let url1 = (if take 10 url0 = ''mongodb://'' then drop 10 url0 else url0);
          parsed = (case strings_Index url1 CHR ''?'' of
                      None \<Rightarrow> Inr ([], url1)
                    | Some c \<Rightarrow>
                        (case parseOptions (strings_FieldsFunc (drop (c + 1) url1) isOptSep) [] of
                           Inl e \<Rightarrow> Inl e
                         | Inr opts \<Rightarrow> Inr (opts, take c url1)))
      in case parsed of
           Inl e \<Rightarrow> Inl e
         | Inr (opts, url2) \<Rightarrow>
             (let cred = (case strings_Index url2 CHR ''@'' of
                            None \<Rightarrow> Inr ([], [], url2)
                          | Some c \<Rightarrow>
                              (case strings_SplitN2 (take c url2) CHR '':'' of
                                 [u, p] \<Rightarrow>
                                   if u = []
                                   then Inl (ErrMsg ''Credentials must be provided as user:pass@host'')
                                   else Inr (u, p, drop (c + 1) url2)
                               | _ \<Rightarrow> Inl (ErrMsg ''Credentials must be provided as user:pass@host'')))
              in case cred of
                   Inl e \<Rightarrow> Inl e
                 | Inr (u, p, url3) \<Rightarrow>
                     (let (d, url4) = (case strings_Index url3 CHR ''/'' of
                                         None \<Rightarrow> ([], url3)
                                       | Some c \<Rightarrow> (drop (c + 1) url3, take c url3))
                      in Inr \<lparr>addrs = strings_Split url4 CHR '','', user = u, pass = p, db = d,
                               options = opts\<rparr>)))"

text \<open>\<^verbatim>\<open>type DialInfo struct\<close>, lines 350-380, without the dial function.\<close>

record DialInfo =
  Addrs :: "string list"
  Direct :: bool
  Timeout_d :: int
  Username :: string
  Password :: string
  Database :: string

text \<open>
  The loop over \<^verbatim>\<open>uinfo.options\<close> in \<^verbatim>\<open>DialWithTimeout\<close>, lines 321-336, over the
  entries in the order the runtime visits them. A \<^verbatim>\<open>break\<close> leaves the \<^verbatim>\<open>switch\<close>, not
  the loop.
\<close>

fun dialOptions :: "(string \<times> string) list \<Rightarrow> bool \<Rightarrow> error + bool" where
  "dialOptions [] direct = Inr direct"
| "dialOptions ((k, v) # rest) direct =
     (if k = ''connect'' then
        (if v = ''direct'' then dialOptions rest True
         else if v = ''replicaSet'' then dialOptions rest direct
         else Inl (ErrMsg (''Unsupported connection URL option: '' @ k @ ''='' @ v)))
      else Inl (ErrMsg (''Unsupported connection URL option: '' @ k @ ''='' @ v)))"

text \<open>
  \<^verbatim>\<open>func DialWithTimeout(url string, timeout time.Duration) (*Session, error)\<close>, lines
  316-346. Go visits the entries of a map in an order of its own: \<open>visit\<close> is that
  order, a rearrangement of the entries. \<open>dwi\<close> is \<^verbatim>\<open>DialWithInfo\<close>, which builds the
  cluster from \<^verbatim>\<open>info.Direct\<close> and pings a server.
\<close>

definition DialWithTimeout ::
  "((string \<times> string) list \<Rightarrow> (string \<times> string) list) \<Rightarrow> (DialInfo \<Rightarrow> error + 's) \<Rightarrow>
   string \<Rightarrow> int \<Rightarrow> error + 's"
where
  "DialWithTimeout visit dwi url tmo =
     (case parseURL url of
        Inl e \<Rightarrow> Inl e
      | Inr uinfo \<Rightarrow>
          (case dialOptions (visit (options uinfo)) False of
             Inl e \<Rightarrow> Inl e
           | Inr direct \<Rightarrow>
               dwi \<lparr>Addrs = addrs uinfo, Direct = direct, Timeout_d = tmo,
                    Username = user uinfo, Password = pass uinfo, Database = db uinfo\<rparr>))"

subsection \<open>Indexes and the index cache\<close>

text \<open>
  \<^verbatim>\<open>type Collection struct\<close>, lines 203-207, with the name of its database in place of the
  database value; \<^verbatim>\<open>func (db *Database) C(name string) *Collection\<close>, lines 526-528.
\<close>

record Collection =
  c_Database :: string
  c_Name :: string
  c_FullName :: string

definition C :: "string \<Rightarrow> string \<Rightarrow> Collection" where
  "C dbname name = \<lparr>c_Database = dbname, c_Name = name, c_FullName = dbname @ ''.'' @ name\<rparr>"

text \<open>The \<^verbatim>\<open>order interface{}\<close> of an index key element: nil, an int or a string.\<close>

datatype order = ONil | OInt int | OStr string

text \<open>\<^verbatim>\<open>type Index struct\<close>, lines 804-816, and \<^verbatim>\<open>type indexSpec struct\<close>, lines 793-802.\<close>

record Index =
  idx_Key :: "string list"
  idx_Unique :: bool
  idx_DropDups :: bool
  idx_Background :: bool
  idx_Sparse :: bool
  idx_ExpireAfter :: int
  idx_Name :: string
  idx_Bits :: int
  idx_Min :: int
  idx_Max :: int

record indexSpec =
  is_Name :: string
  is_NS :: string
  is_Key :: "(string \<times> order) list"
  is_Unique :: bool
  is_DropDups :: bool
  is_Background :: bool
  is_Sparse :: bool
  is_Bits :: int
  is_Min :: int
  is_Max :: int
  is_ExpireAfter :: int

text \<open>
  One turn of the loop of \<^verbatim>\<open>parseIndexKey\<close>, lines 820-865, on the variables \<open>name\<close>,
  \<open>realKey\<close> and \<open>order\<close> that live across the turns. The error is the
  \<^verbatim>\<open>fmt.Errorf\<close> of the format below with the raw field.
\<close>

definition invalid_index_key :: "string \<Rightarrow> error" where
  "invalid_index_key raw =
     ErrFmt (''Invalid index key: want '' @ [CHR 0x22] @ ''[$<kind>:][-]<field name>'' @
             [CHR 0x22] @ '', got %q'') raw"

definition parseIndexField ::
  "string \<times> (string \<times> order) list \<times> order \<Rightarrow> string \<Rightarrow>
   error + string \<times> (string \<times> order) list \<times> order"
where
  "parseIndexField st raw =
     (let (name0, realKey, order0) = st;
          name1 = (if name0 \<noteq> [] then name0 @ ''_'' else name0)
      in if raw = [] then Inl (invalid_index_key raw)
         else
           (let (kind, field1, name2) =
                  (if hd raw = CHR ''$'' then
                     (case strings_Index raw CHR '':'' of
                        Some c \<Rightarrow>
                          if 1 < c \<and> int c < int (length raw) - 1
                          then (take (c - 1) (drop 1 raw), drop (c + 1) raw,
                                name1 @ drop (c + 1) raw @ ''_'' @ take (c - 1) (drop 1 raw))
                          else ([], raw, name1)
                      | None \<Rightarrow> ([], raw, name1))
                   else ([], raw, name1));
                (field2, order2, name3) =
                  (if hd field1 = CHR ''$'' then ([], order0, name2)
                   else if hd field1 = CHR ''@''
                   then (tl field1, OStr ''2d'', name2 @ tl field1 @ ''_2d'')
                   else if hd field1 = CHR ''-''
                   then (tl field1, OInt (- 1), name2 @ tl field1 @ ''_-1'')
                   else
                     (let field3 = (if hd field1 = CHR ''+'' then tl field1 else field1)
                      in if kind = [] then (field3, OInt 1, name2 @ field3 @ ''_1'')
                         else (field3, OStr kind, name2)))
            in if field2 = [] \<or> (kind \<noteq> [] \<and> order2 \<noteq> OStr kind)
               then Inl (invalid_index_key raw)
               else Inr (name3, realKey @ [(field2, order2)], order2)))"

fun parseIndexFields ::
  "string \<times> (string \<times> order) list \<times> order \<Rightarrow> string list \<Rightarrow>
   error + string \<times> (string \<times> order) list \<times> order"
where
  "parseIndexFields st [] = Inr st"
| "parseIndexFields st (raw # key) =
     (case parseIndexField st raw of
        Inl e \<Rightarrow> Inl e
      | Inr st1 \<Rightarrow> parseIndexFields st1 key)"

text \<open>\<^verbatim>\<open>func parseIndexKey(key []string) (name string, realKey bson.D, err error)\<close>,
  lines 818-870.\<close>

definition parseIndexKey :: "string list \<Rightarrow> error + string \<times> (string \<times> order) list" where
  "parseIndexKey key =
     (case parseIndexFields ([], [], ONil) key of
        Inl e \<Rightarrow> Inl e
      | Inr (name, realKey, _) \<Rightarrow>
          if name = [] then Inl (ErrMsg ''Invalid index key: no fields provided'')
          else Inr (name, realKey))"

text \<open>
  Modelled from the spec: the index cache of the cluster (\<^verbatim>\<open>HasCachedIndex\<close>,
  \<^verbatim>\<open>CacheIndex\<close> of \<^verbatim>\<open>mongoCluster\<close>, whose file is not among the sources): a set of
  cache keys; \<^verbatim>\<open>CacheIndex(key, true)\<close> puts the key in, \<^verbatim>\<open>CacheIndex(key, false)\<close> takes
  it out, \<^verbatim>\<open>HasCachedIndex(key)\<close> asks whether it is in.
\<close>

definition HasCachedIndex :: "string set \<Rightarrow> string \<Rightarrow> bool" where
  "HasCachedIndex cache cacheKey \<longleftrightarrow> cacheKey \<in> cache"

definition CacheIndex :: "string set \<Rightarrow> string \<Rightarrow> bool \<Rightarrow> string set" where
  "CacheIndex cache cacheKey exists =
     (if exists then insert cacheKey cache else cache - {cacheKey})"

text \<open>The key of an index in the cache: \<^verbatim>\<open>c.FullName + "\x00" + name\<close>.\<close>

definition cacheKey :: "Collection \<Rightarrow> string \<Rightarrow> string" where
  "cacheKey c name = c_FullName c @ [CHR 0x00] @ name"

text \<open>
  \<^verbatim>\<open>func (c *Collection) EnsureIndex(index Index) error\<close>, lines 955-993. \<open>ins\<close> is the
  result of \<^verbatim>\<open>Insert(&spec)\<close> into \<^verbatim>\<open>system.indexes\<close> on the cloned session, the one
  request to the server. The result: the error, the cache, and the specs sent.
  \<^verbatim>\<open>int(index.ExpireAfter / time.Second)\<close> is a division that truncates towards zero.
\<close>

definition EnsureIndex ::
  "(indexSpec \<Rightarrow> error option) \<Rightarrow> Collection \<Rightarrow> string set \<Rightarrow> Index \<Rightarrow>
   error option \<times> string set \<times> indexSpec list"
where
  "EnsureIndex ins c cache index =
     (case parseIndexKey (idx_Key index) of
        Inl e \<Rightarrow> (Some e, cache, [])
      | Inr (name, realKey) \<Rightarrow>
          if HasCachedIndex cache (cacheKey c name) then (None, cache, [])
          else
            (let spec = \<lparr>is_Name = name, is_NS = c_FullName c, is_Key = realKey,
                          is_Unique = idx_Unique index, is_DropDups = idx_DropDups index,
                          is_Background = idx_Background index, is_Sparse = idx_Sparse index,
                          is_Bits = idx_Bits index, is_Min = idx_Min index,
                          is_Max = idx_Max index,
                          is_ExpireAfter =
                            (if 0 \<le> idx_ExpireAfter index
                             then idx_ExpireAfter index div 1000000000
                             else - ((- idx_ExpireAfter index) div 1000000000))\<rparr>;
                 e = ins spec
             in (e, if e = None then CacheIndex cache (cacheKey c name) True else cache,
                 [spec])))"

text \<open>
  \<^verbatim>\<open>func (c *Collection) DropIndex(key ...string) error\<close>, lines 1006-1033. \<open>run\<close> is the
  result of \<^verbatim>\<open>db.Run\<close> of the \<^verbatim>\<open>dropIndexes\<close> command for a collection name and an index
  name: an error, or the fields \<^verbatim>\<open>ErrMsg\<close> and \<^verbatim>\<open>Ok\<close> of the reply. The result: the error,
  the cache, and the commands run (collection name, index name).
\<close>

definition DropIndex ::
  "(string \<Rightarrow> string \<Rightarrow> error + string \<times> bool) \<Rightarrow> Collection \<Rightarrow> string set \<Rightarrow> string list \<Rightarrow>
   error option \<times> string set \<times> (string \<times> string) list"
where
  "DropIndex run c cache key =
     (case parseIndexKey key of
        Inl e \<Rightarrow> (Some e, cache, [])
      | Inr (name, _) \<Rightarrow>
          (let cache1 = CacheIndex cache (cacheKey c name) False
           in (case run (c_Name c) name of
                 Inl e \<Rightarrow> Some e
               | Inr (msg, ok) \<Rightarrow> if \<not> ok then Some (ErrMsg msg) else None,
               cache1, [(c_Name c, name)])))"

section \<open>Properties\<close>

subsection \<open>Acknowledgement merge\<close>

lemma cur_cmd_EnsureSafe_None: "cur_cmd (EnsureSafe s None) = cur_cmd s"
  by (simp add: EnsureSafe_def ensureSafe_def)

lemma cur_cmd_EnsureSafe_merge:
  "cur_cmd s = Some c \<Longrightarrow> cur_cmd (EnsureSafe s (Some safe)) = Some (merge_cmd c safe)"
  by (auto simp: cur_cmd_def EnsureSafe_def ensureSafe_def)

lemma cur_cmd_EnsureSafe_fresh:
  "cur_cmd s = None \<Longrightarrow> cur_cmd (EnsureSafe s (Some safe)) =
     Some \<lparr>CmdName = 1, cmdW = safe_w safe, cmdWTimeout = WTimeout safe,
            cmdFSync = FSync safe, cmdJ = J safe\<rparr>"
  by (auto simp: cur_cmd_def EnsureSafe_def ensureSafe_def)

lemma merge_cmd_W: "cmdW (merge_cmd c safe) = merge_W c safe"
  by (simp add: merge_cmd_def Let_def)

lemma merge_cmd_WTimeout: "cmdWTimeout (merge_cmd c safe) = merge_WTimeout c safe"
  by (simp add: merge_cmd_def Let_def merge_WTimeout_def)

lemma merge_cmd_FSync: "cmdFSync (merge_cmd c safe) = (FSync safe \<or> cmdFSync c)"
  by (auto simp add: merge_cmd_def Let_def)

lemma merge_cmd_J:
  "cmdJ (merge_cmd c safe) =
     (if FSync safe then False else if J safe \<and> \<not> cmdFSync c then True else cmdJ c)"
  by (simp add: merge_cmd_def Let_def)

lemmas merge_cmd_fields = merge_cmd_W merge_cmd_WTimeout merge_cmd_FSync merge_cmd_J

lemma stricter_refl: "stricter c c"
  by (auto simp: stricter_def)

lemma stricter_trans:
  assumes ab: "stricter a b" and bc: "stricter b c"
  shows "stricter a c"
  unfolding stricter_def
proof (intro conjI allI impI)
  fix i assume "cmdW a = WInt i"
  with ab consider j where "cmdW b = WInt j" "i \<le> j" | m where "cmdW b = WStr m"
    unfolding stricter_def by blast
  then show "(\<exists>j. cmdW c = WInt j \<and> i \<le> j) \<or> (\<exists>m. cmdW c = WStr m)"
  proof cases
    case 1
    with bc have "(\<exists>k. cmdW c = WInt k \<and> j \<le> k) \<or> (\<exists>m. cmdW c = WStr m)"
      unfolding stricter_def by blast
    with 1 show ?thesis by force
  next
    case 2
    with bc show ?thesis unfolding stricter_def by blast
  qed
next
  fix m assume "cmdW a = WStr m"
  with ab obtain m' where "cmdW b = WStr m'" unfolding stricter_def by blast
  with bc show "\<exists>m'. cmdW c = WStr m'" unfolding stricter_def by blast
next
  assume "cmdFSync a" with ab bc show "cmdFSync c" unfolding stricter_def by blast
next
  assume "cmdFSync a \<and> \<not> cmdJ a" with ab bc show "\<not> cmdJ c" unfolding stricter_def by blast
next
  assume "0 < cmdWTimeout a"
  with ab have "0 < cmdWTimeout b" "cmdWTimeout b \<le> cmdWTimeout a"
    unfolding stricter_def by blast+
  moreover from this bc have "0 < cmdWTimeout c" "cmdWTimeout c \<le> cmdWTimeout b"
    unfolding stricter_def by blast+
  ultimately show "0 < cmdWTimeout c" "cmdWTimeout c \<le> cmdWTimeout a" by simp_all
qed

lemma stricter_merge: "stricter c (merge_cmd c safe)"
  by (auto simp: stricter_def merge_cmd_fields merge_W_def merge_WTimeout_def safe_w_def
      split: wval.splits)

lemma stricter_step:
  "cur_cmd s = Some c \<Longrightarrow> \<exists>c1. cur_cmd (EnsureSafe s a) = Some c1 \<and> stricter c c1"
  by (cases a)
     (simp_all add: cur_cmd_EnsureSafe_None cur_cmd_EnsureSafe_merge stricter_refl stricter_merge)

lemma stricter_seq:
  "cur_cmd s = Some c \<Longrightarrow> \<exists>c'. cur_cmd (EnsureSafe_seq s args) = Some c' \<and> stricter c c'"
proof (induction args arbitrary: s c)
  case Nil
  then show ?case by (simp add: EnsureSafe_seq_def stricter_refl)
next
  case (Cons a args)
  from stricter_step [OF Cons.prems] obtain c1
    where c1: "cur_cmd (EnsureSafe s a) = Some c1" "stricter c c1" by blast
  from Cons.IH [OF c1(1)] obtain c'
    where "cur_cmd (EnsureSafe_seq (EnsureSafe s a) args) = Some c'" "stricter c1 c'" by blast
  with c1(2) show ?case
    by (auto simp: EnsureSafe_seq_def intro: stricter_trans)
qed

text \<open>
  C1 (as amended). On a session that already has an acknowledgement spec \<open>c\<close>, after
  every sequence \<open>args\<close> of EnsureSafe calls the spec \<open>c'\<close> is at least as strict as
  \<open>c\<close>: a numeric threshold W has not decreased (or a named mode has replaced it), a
  named mode is still a named mode, FSync once set is still set, an FSync without J is
  still without J, and a positive timeout is still positive and has not increased. In one
  call merged into \<open>c\<close>, giving \<open>c1\<close>: a named mode in the argument always wins, a larger
  numeric threshold wins over a numeric one, FSync in the argument sets FSync and forces
  J to false, and a smaller positive timeout wins. On a session without a spec the call
  stores its argument as it is given.
\<close>

theorem EnsureSafe_seq_conservative:
  assumes "cur_cmd s = Some c"
  shows "\<exists>c1 c'. cur_cmd (EnsureSafe s (Some safe)) = Some c1 \<and>
           cur_cmd (EnsureSafe_seq s args) = Some c' \<and>
           (\<forall>i. cmdW c = WInt i \<longrightarrow>
              (\<exists>j. cmdW c' = WInt j \<and> i \<le> j) \<or> (\<exists>m. cmdW c' = WStr m)) \<and>
           (\<forall>m. cmdW c = WStr m \<longrightarrow> (\<exists>m'. cmdW c' = WStr m')) \<and>
           (cmdFSync c \<longrightarrow> cmdFSync c') \<and>
           (cmdFSync c \<and> \<not> cmdJ c \<longrightarrow> \<not> cmdJ c') \<and>
           (0 < cmdWTimeout c \<longrightarrow> 0 < cmdWTimeout c' \<and> cmdWTimeout c' \<le> cmdWTimeout c) \<and>
           (WMode safe \<noteq> [] \<longrightarrow> cmdW c1 = WStr (WMode safe)) \<and>
           (\<forall>i. cmdW c = WInt i \<and> WMode safe = [] \<and> i < W safe \<longrightarrow> cmdW c1 = WInt (W safe)) \<and>
           (FSync safe \<longrightarrow> cmdFSync c1 \<and> \<not> cmdJ c1) \<and>
           (0 < WTimeout safe \<and> WTimeout safe < cmdWTimeout c \<longrightarrow>
              cmdWTimeout c1 = WTimeout safe) \<and>
           (\<forall>s0. cur_cmd s0 = None \<longrightarrow>
              cur_cmd (EnsureSafe s0 (Some safe)) =
                Some \<lparr>CmdName = 1, cmdW = safe_w safe, cmdWTimeout = WTimeout safe,
                       cmdFSync = FSync safe, cmdJ = J safe\<rparr>)"
proof -
  from stricter_seq [OF assms] obtain c'
    where c': "cur_cmd (EnsureSafe_seq s args) = Some c'" "stricter c c'" by blast
  have c1: "cur_cmd (EnsureSafe s (Some safe)) = Some (merge_cmd c safe)"
    using assms by (rule cur_cmd_EnsureSafe_merge)
  have w: "WMode safe \<noteq> [] \<longrightarrow> cmdW (merge_cmd c safe) = WStr (WMode safe)"
    by (simp add: merge_cmd_fields merge_W_def safe_w_def)
  have n: "\<forall>i. cmdW c = WInt i \<and> WMode safe = [] \<and> i < W safe \<longrightarrow>
             cmdW (merge_cmd c safe) = WInt (W safe)"
    by (simp add: merge_cmd_fields merge_W_def)
  have f: "FSync safe \<longrightarrow> cmdFSync (merge_cmd c safe) \<and> \<not> cmdJ (merge_cmd c safe)"
    by (simp add: merge_cmd_fields)
  have t: "0 < WTimeout safe \<and> WTimeout safe < cmdWTimeout c \<longrightarrow>
             cmdWTimeout (merge_cmd c safe) = WTimeout safe"
    by (simp add: merge_cmd_fields merge_WTimeout_def)
  have fresh: "\<forall>s0. cur_cmd s0 = None \<longrightarrow>
              cur_cmd (EnsureSafe s0 (Some safe)) =
                Some \<lparr>CmdName = 1, cmdW = safe_w safe, cmdWTimeout = WTimeout safe,
                       cmdFSync = FSync safe, cmdJ = J safe\<rparr>"
    by (simp add: cur_cmd_EnsureSafe_fresh)
  from c'(2) w n f t fresh show ?thesis
    unfolding stricter_def using c1 c'(1) by blast
qed

text \<open>
  The theorem on a session set to W = 2 with a timeout of 500 and J: one merged call
  with W = 3, a timeout of 100 and FSync, and a sequence of three calls.
\<close>

theorem EnsureSafe_seq_conservative_witness:
  "\<exists>c1 c'. cur_cmd (EnsureSafe
               (SetSafe (fst (newSession Strong (\<lambda>_. 0)))
                  (Some \<lparr>W = 2, WMode = [], WTimeout = 500, FSync = False, J = True\<rparr>))
               (Some \<lparr>W = 3, WMode = [], WTimeout = 100, FSync = True, J = False\<rparr>)) = Some c1 \<and>
     cur_cmd (EnsureSafe_seq
               (SetSafe (fst (newSession Strong (\<lambda>_. 0)))
                  (Some \<lparr>W = 2, WMode = [], WTimeout = 500, FSync = False, J = True\<rparr>))
               [Some \<lparr>W = 1, WMode = [], WTimeout = 1000, FSync = False, J = True\<rparr>,
                None,
                Some \<lparr>W = 0, WMode = ''majority'', WTimeout = 0, FSync = True, J = True\<rparr>])
       = Some c' \<and>
     cmdW c1 = WInt 3 \<and> cmdWTimeout c1 = 100 \<and> cmdFSync c1 \<and> \<not> cmdJ c1 \<and>
     ((\<exists>j. cmdW c' = WInt j \<and> 2 \<le> j) \<or> (\<exists>m. cmdW c' = WStr m)) \<and>
     0 < cmdWTimeout c' \<and> cmdWTimeout c' \<le> 500"
proof -
  have h: "cur_cmd (SetSafe (fst (newSession Strong (\<lambda>_. 0)))
                  (Some \<lparr>W = 2, WMode = [], WTimeout = 500, FSync = False, J = True\<rparr>)) =
      Some \<lparr>CmdName = 1, cmdW = WInt 2, cmdWTimeout = 500, cmdFSync = False, cmdJ = True\<rparr>"
    by (simp add: cur_cmd_def SetSafe_def ensureSafe_def newSession_def SetMode_def
      unsetSocket_def safe_w_def Let_def)
  from EnsureSafe_seq_conservative [OF h,
      of "\<lparr>W = 3, WMode = [], WTimeout = 100, FSync = True, J = False\<rparr>"
      "[Some \<lparr>W = 1, WMode = [], WTimeout = 1000, FSync = False, J = True\<rparr>,
                None,
                Some \<lparr>W = 0, WMode = ''majority'', WTimeout = 0, FSync = True, J = True\<rparr>]"]
  show ?thesis by auto
qed

text \<open>
  The claim as stated fails on a session with no spec (after \<^verbatim>\<open>SetSafe(nil)\<close>): the first
  EnsureSafe call stores its argument as given, so FSync is set and J stays true.
\<close>

theorem EnsureSafe_FSync_J_counterexample:
  "Safe_of (EnsureSafe (SetSafe (fst (newSession Strong (\<lambda>_. 0))) None)
      (Some \<lparr>W = 0, WMode = [], WTimeout = 0, FSync = True, J = True\<rparr>))
   = Some \<lparr>W = 0, WMode = [], WTimeout = 0, FSync = True, J = True\<rparr>"
  by (simp add: Safe_of_def EnsureSafe_def SetSafe_def ensureSafe_def newSession_def SetMode_def
      unsetSocket_def safe_w_def Let_def)

subsection \<open>Mode changes and socket binding\<close>

lemma unsetSocket_fields:
  "masterSocket (fst (unsetSocket s rc)) = None"
  "slaveSocket (fst (unsetSocket s rc)) = None"
  "slaveOk (fst (unsetSocket s rc)) = slaveOk s"
  "consistency (fst (unsetSocket s rc)) = consistency s"
  "auth (fst (unsetSocket s rc)) = auth s"
  by (simp_all add: unsetSocket_def Let_def)

lemma unsetSocket_refs:
  "snd (unsetSocket s rc) i =
     rc i - (case masterSocket s of Some m \<Rightarrow> if sock_id m = i then 1 else 0 | None \<Rightarrow> 0)
          - (case slaveSocket s of Some sl \<Rightarrow> if sock_id sl = i then 1 else 0 | None \<Rightarrow> 0)"
  by (simp add: unsetSocket_def Let_def sock_Release_def split: option.splits)

lemma acquireSocket_unreserved:
  assumes "masterSocket s = None" "slaveSocket s = None" "slaveOk s = False"
    "consistency s = Strong"
  shows "acquireSocket cl login s rc so =
     (case cl False of
        Inl e \<Rightarrow> Ret (Inl e, s, rc)
      | Inr sock \<Rightarrow>
          (case socketLogin login (auth s) sock of
             Some e \<Rightarrow> Ret (Inl e, s, sock_Release sock (sock_Acquire sock rc))
           | None \<Rightarrow>
               Ret (Inr sock,
                    if sock_master sock then s\<lparr>masterSocket := Some sock\<rparr>
                    else s\<lparr>slaveSocket := Some sock\<rparr>,
                    sock_Acquire sock (sock_Acquire sock rc))))"
  using assms
  by (simp add: acquireSocket_def reservedSocket_def setSocket_def Let_def
      split: sum.splits option.splits)

text \<open>
  C4. After \<^verbatim>\<open>SetMode(Strong, true)\<close> no master and no slave socket is reserved, each
  socket that was reserved has been released (its reference count is lower), \<open>slaveOk\<close>
  is false and the mode is Strong. The next \<^verbatim>\<open>acquireSocket\<close>, whatever its argument, does
  not panic and asks the cluster for a socket with the secondary flag false; when the
  cluster answers such a request with master sockets only, a socket it returns is a
  master socket, and it is reserved as the session's master socket.
\<close>

theorem SetMode_Strong_refresh:
  assumes sm: "SetMode s rc Strong True = (s', rc')"
    and cluster: "\<And>sock. cl False = Inr sock \<Longrightarrow> sock_master sock"
  shows "masterSocket s' = None \<and> slaveSocket s' = None \<and>
         slaveOk s' = False \<and> consistency s' = Strong \<and>
         (\<forall>m. masterSocket s = Some m \<longrightarrow> rc' (sock_id m) < rc (sock_id m)) \<and>
         (\<forall>sl. slaveSocket s = Some sl \<longrightarrow> rc' (sock_id sl) < rc (sock_id sl)) \<and>
         (\<exists>res s'' rc''. acquireSocket cl login s' rc' so = Ret (res, s'', rc'') \<and>
            (\<forall>sock. res = Inr sock \<longrightarrow>
               sock_master sock \<and> cl False = Inr sock \<and> masterSocket s'' = Some sock \<and>
               slaveSocket s'' = None))"
proof -
  let ?s1 = "s\<lparr>consistency := Strong, slaveOk := False\<rparr>"
  from sm have eq: "s' = fst (unsetSocket ?s1 rc)" "rc' = snd (unsetSocket ?s1 rc)"
    by (simp_all add: SetMode_def Let_def)
  have f: "masterSocket s' = None" "slaveSocket s' = None" "slaveOk s' = False"
    "consistency s' = Strong"
    unfolding eq by (simp_all add: unsetSocket_fields)
  have r1: "\<forall>m. masterSocket s = Some m \<longrightarrow> rc' (sock_id m) < rc (sock_id m)"
    unfolding eq by (simp add: unsetSocket_refs split: option.splits)
  have r2: "\<forall>sl. slaveSocket s = Some sl \<longrightarrow> rc' (sock_id sl) < rc (sock_id sl)"
    unfolding eq by (simp add: unsetSocket_refs split: option.splits)
  have a: "\<exists>res s'' rc''. acquireSocket cl login s' rc' so = Ret (res, s'', rc'') \<and>
            (\<forall>sock. res = Inr sock \<longrightarrow>
               sock_master sock \<and> cl False = Inr sock \<and> masterSocket s'' = Some sock \<and>
               slaveSocket s'' = None)"
  proof (cases "cl False")
    case (Inl e)
    then show ?thesis by (simp add: acquireSocket_unreserved [OF f])
  next
    case (Inr sock)
    from cluster [OF Inr] have m: "sock_master sock" .
    show ?thesis
    proof (cases "socketLogin login (auth s') sock")
      case None
      with Inr m f show ?thesis by (simp add: acquireSocket_unreserved [OF f])
    next
      case (Some e)
      with Inr show ?thesis by (simp add: acquireSocket_unreserved [OF f])
    qed
  qed
  from f r1 r2 a show ?thesis by blast
qed

text \<open>
  The theorem on an Eventual session that holds the slave socket 7, with a cluster
  that would hand out socket 7 to a secondary request and the master socket 3 otherwise.
\<close>

theorem SetMode_Strong_refresh_witness:
  "consistency \<lparr>slaveSocket = Some \<lparr>sock_id = 7, sock_master = False\<rparr>, masterSocket = None,
      slaveOk = True, consistency = Eventual, queryConfig = \<lparr>q_limit = 0, q_op_limit = 0\<rparr>,
      safeOp = None, auth = []\<rparr> = Eventual \<and>
   slaveSocket (fst (SetMode \<lparr>slaveSocket = Some \<lparr>sock_id = 7, sock_master = False\<rparr>,
      masterSocket = None, slaveOk = True, consistency = Eventual,
      queryConfig = \<lparr>q_limit = 0, q_op_limit = 0\<rparr>, safeOp = None, auth = []\<rparr>
      (\<lambda>_. 1) Strong True)) = None \<and>
   slaveOk (fst (SetMode \<lparr>slaveSocket = Some \<lparr>sock_id = 7, sock_master = False\<rparr>,
      masterSocket = None, slaveOk = True, consistency = Eventual,
      queryConfig = \<lparr>q_limit = 0, q_op_limit = 0\<rparr>, safeOp = None, auth = []\<rparr>
      (\<lambda>_. 1) Strong True)) = False \<and>
   snd (SetMode \<lparr>slaveSocket = Some \<lparr>sock_id = 7, sock_master = False\<rparr>,
      masterSocket = None, slaveOk = True, consistency = Eventual,
      queryConfig = \<lparr>q_limit = 0, q_op_limit = 0\<rparr>, safeOp = None, auth = []\<rparr>
      (\<lambda>_. 1) Strong True) 7 < 1 \<and>
   (\<exists>s'' rc''. acquireSocket
      (\<lambda>b. if b then Inr \<lparr>sock_id = 7, sock_master = False\<rparr>
            else Inr \<lparr>sock_id = 3, sock_master = True\<rparr>)
      (\<lambda>_ _. None)
      (fst (SetMode \<lparr>slaveSocket = Some \<lparr>sock_id = 7, sock_master = False\<rparr>,
         masterSocket = None, slaveOk = True, consistency = Eventual,
         queryConfig = \<lparr>q_limit = 0, q_op_limit = 0\<rparr>, safeOp = None, auth = []\<rparr>
         (\<lambda>_. 1) Strong True))
      (snd (SetMode \<lparr>slaveSocket = Some \<lparr>sock_id = 7, sock_master = False\<rparr>,
         masterSocket = None, slaveOk = True, consistency = Eventual,
         queryConfig = \<lparr>q_limit = 0, q_op_limit = 0\<rparr>, safeOp = None, auth = []\<rparr>
         (\<lambda>_. 1) Strong True))
      True = Ret (Inr \<lparr>sock_id = 3, sock_master = True\<rparr>, s'', rc'') \<and>
      masterSocket s'' = Some \<lparr>sock_id = 3, sock_master = True\<rparr>)"
proof -
  let ?s = "\<lparr>slaveSocket = Some \<lparr>sock_id = 7, sock_master = False\<rparr>, masterSocket = None,
      slaveOk = True, consistency = Eventual, queryConfig = \<lparr>q_limit = 0, q_op_limit = 0\<rparr>,
      safeOp = None, auth = []\<rparr>"
  let ?cl = "\<lambda>b. if b then Inr \<lparr>sock_id = 7, sock_master = False\<rparr>
            else (Inr \<lparr>sock_id = 3, sock_master = True\<rparr> :: error + mongoSocket)"
  let ?X = "SetMode ?s (\<lambda>_. 1) Strong True"
  have sm: "?X = (fst ?X, snd ?X)" by simp
  have cl: "\<And>sock. ?cl False = Inr sock \<Longrightarrow> sock_master sock" by auto
  have cl3: "?cl False = Inr \<lparr>sock_id = 3, sock_master = True\<rparr>" by simp
  note T = SetMode_Strong_refresh [where s = ?s and rc = "\<lambda>_. 1" and s' = "fst ?X"
      and rc' = "snd ?X" and cl = ?cl and login = "\<lambda>_ _. None" and so = True]
  from T [OF sm cl]
  obtain res s'' rc'' where
    f: "slaveSocket (fst ?X) = None" "slaveOk (fst ?X) = False"
       "snd ?X 7 < 1"
    and a: "acquireSocket ?cl (\<lambda>_ _. None) (fst ?X) (snd ?X) True = Ret (res, s'', rc'')"
    and r: "\<forall>sock. res = Inr sock \<longrightarrow>
               sock_master sock \<and> ?cl False = Inr sock \<and> masterSocket s'' = Some sock \<and>
               slaveSocket s'' = None"
    by auto
  have "acquireSocket ?cl (\<lambda>_ _. None) (fst ?X) (snd ?X) True =
      Ret (Inr \<lparr>sock_id = 3, sock_master = True\<rparr>,
           (fst ?X)\<lparr>masterSocket := Some \<lparr>sock_id = 3, sock_master = True\<rparr>\<rparr>,
           sock_Acquire \<lparr>sock_id = 3, sock_master = True\<rparr>
             (sock_Acquire \<lparr>sock_id = 3, sock_master = True\<rparr> (snd ?X)))"
    by (simp add: SetMode_def unsetSocket_def acquireSocket_def reservedSocket_def
        setSocket_def Let_def)
  with a have res: "res = Inr \<lparr>sock_id = 3, sock_master = True\<rparr>" by simp
  with r have "masterSocket s'' = Some \<lparr>sock_id = 3, sock_master = True\<rparr>" by simp
  with f a res show ?thesis by simp
qed

subsection \<open>Acknowledged writes\<close>

lemma setSocket_safeOp:
  "setSocket s rc sock = Ret (s1, rc1) \<Longrightarrow> safeOp s1 = safeOp s"
  by (auto simp: setSocket_def Let_def split: if_splits)

lemma acquireSocket_safeOp:
  assumes "acquireSocket cl login s rc so = Ret (res, s1, rc1)"
  shows "safeOp s1 = safeOp s"
proof (cases "reservedSocket s so")
  case (Some sock)
  with assms show ?thesis by (simp add: acquireSocket_def)
next
  case None
  show ?thesis
  proof (cases "cl (so \<and> slaveOk s)")
    case (Inl e)
    with None assms show ?thesis by (simp add: acquireSocket_def)
  next
    case (Inr sock)
    show ?thesis
    proof (cases "socketLogin login (auth s) sock")
      case (Some e)
      with None Inr assms show ?thesis by (simp add: acquireSocket_def Let_def)
    next
      case no: None
      show ?thesis
      proof (cases "consistency s \<noteq> Eventual \<or> slaveSocket s \<noteq> None")
        case True
        with None Inr no assms show ?thesis
          by (cases "setSocket s (sock_Acquire sock rc) sock")
             (auto simp: acquireSocket_def Let_def dest: setSocket_safeOp split: if_splits)
      next
        case False
        with None Inr no assms show ?thesis
          by (auto simp: acquireSocket_def Let_def split: if_splits)
      qed
    qed
  qed
qed

text \<open>
  C3 (as amended). Let \<^verbatim>\<open>writeQuery\<close> obtain the socket \<open>sock\<close>. When the session has
  an acknowledgement spec \<open>sop\<close>, exactly one call to \<^verbatim>\<open>socket.Query\<close> is made, on
  \<open>sock\<close>, with the write followed by the acknowledgement command of \<open>sop\<close> addressed
  to the \<^verbatim>\<open>$cmd\<close> collection of the database being written; the call never returns
  exactly when that request was accepted and no reply arrives; when \<^verbatim>\<open>socket.Query\<close>
  fails its error is returned, and when the reply arrives the result is decoded from it.
  When the session has no spec, only the write is sent, and the call returns the result
  of \<^verbatim>\<open>socket.Query\<close> whatever the reply input is.
\<close>

theorem writeQuery_acknowledged:
  assumes acq: "acquireSocket cl login s rc (dbname = ''local'') = Ret (Inr sock, s1, rc1)"
  shows "(\<forall>sop. safeOp s = Some sop \<longrightarrow>
            (\<exists>ret rc'.
               writeQuery cl login sq reply unm unl s rc dbname op =
                 Ret (ret, s1, rc',
                      [(sock, [WriteOp op, AckQuery (sop\<lparr>sq_collection := dbname @ ''.$cmd''\<rparr>)])]) \<and>
               (ret = None \<longleftrightarrow>
                  sq sock [WriteOp op, AckQuery (sop\<lparr>sq_collection := dbname @ ''.$cmd''\<rparr>)] = None \<and>
                  reply = None) \<and>
               (\<forall>e. sq sock [WriteOp op, AckQuery (sop\<lparr>sq_collection := dbname @ ''.$cmd''\<rparr>)]
                      = Some e \<longrightarrow> ret = Some (None, Some e)) \<and>
               (\<forall>replyErr replyData.
                  sq sock [WriteOp op, AckQuery (sop\<lparr>sq_collection := dbname @ ''.$cmd''\<rparr>)]
                    = None \<and> reply = Some (replyErr, replyData) \<longrightarrow>
                  ret = Some (ackResult unm unl (dbname @ ''.$cmd'') replyErr replyData)))) \<and>
         (safeOp s = None \<longrightarrow>
            writeQuery cl login sq reply unm unl s rc dbname op =
              Ret (Some (None, sq sock [WriteOp op]), s1, sock_Release sock rc1,
                   [(sock, [WriteOp op])]))"
  using acq acquireSocket_safeOp [OF acq]
  by (auto simp: writeQuery_def Let_def split: option.splits)

text \<open>
  The theorem on a Strong session that holds the master socket 3, for a write to the
  database \<^verbatim>\<open>local\<close>: with the default spec and a reply, and with no spec and a failing
  socket.
\<close>

theorem writeQuery_acknowledged_witness:
  "wq_sent (writeQuery (\<lambda>_. Inl (ErrMsg ''no server'')) (\<lambda>_ _. None) (\<lambda>_ _. None)
      (Some (None, [])) (\<lambda>_. \<lparr>dq_Err = [], dq_ErrMsg = [], dq_Assertion = [], dq_Code = 0,
         dq_AssertionCode = 0, dq_LastError = None\<rparr>)
      (\<lambda>_. \<lparr>le_Err = [], le_Code = 0, le_N = 1, le_Waited = 0, le_FSyncFiles = 0,
         le_WTimeout = False, le_UpdatedExisting = False\<rparr>)
      ((fst (newSession Strong (\<lambda>_. 0)))\<lparr>masterSocket := Some \<lparr>sock_id = 3, sock_master = True\<rparr>\<rparr>)
      (\<lambda>_. 1) ''local'' (0::nat))
   = [(\<lparr>sock_id = 3, sock_master = True\<rparr>,
       [WriteOp 0, AckQuery \<lparr>sq_query = \<lparr>CmdName = 1, cmdW = WNil, cmdWTimeout = 0,
          cmdFSync = False, cmdJ = False\<rparr>, sq_collection = ''local.$cmd'', sq_limit = - 1\<rparr>])] \<and>
   wq_ret (writeQuery (\<lambda>_. Inl (ErrMsg ''no server'')) (\<lambda>_ _. None) (\<lambda>_ _. None)
      (Some (None, [])) (\<lambda>_. \<lparr>dq_Err = [], dq_ErrMsg = [], dq_Assertion = [], dq_Code = 0,
         dq_AssertionCode = 0, dq_LastError = None\<rparr>)
      (\<lambda>_. \<lparr>le_Err = [], le_Code = 0, le_N = 1, le_Waited = 0, le_FSyncFiles = 0,
         le_WTimeout = False, le_UpdatedExisting = False\<rparr>)
      ((fst (newSession Strong (\<lambda>_. 0)))\<lparr>masterSocket := Some \<lparr>sock_id = 3, sock_master = True\<rparr>\<rparr>)
      (\<lambda>_. 1) ''local'' (0::nat))
   = Some (Some (Some \<lparr>le_Err = [], le_Code = 0, le_N = 1, le_Waited = 0, le_FSyncFiles = 0,
         le_WTimeout = False, le_UpdatedExisting = False\<rparr>, None)) \<and>
   wq_ret (writeQuery (\<lambda>_. Inl (ErrMsg ''no server'')) (\<lambda>_ _. None)
      (\<lambda>_ _. Some (ErrMsg ''broken pipe''))
      None (\<lambda>_. \<lparr>dq_Err = [], dq_ErrMsg = [], dq_Assertion = [], dq_Code = 0,
         dq_AssertionCode = 0, dq_LastError = None\<rparr>)
      (\<lambda>_. \<lparr>le_Err = [], le_Code = 0, le_N = 1, le_Waited = 0, le_FSyncFiles = 0,
         le_WTimeout = False, le_UpdatedExisting = False\<rparr>)
      ((fst (newSession Strong (\<lambda>_. 0)))\<lparr>masterSocket := Some \<lparr>sock_id = 3, sock_master = True\<rparr>,
         safeOp := None\<rparr>)
      (\<lambda>_. 1) ''local'' (0::nat))
   = Some (Some (None, Some (ErrMsg ''broken pipe'')))"
proof -
  let ?cl = "\<lambda>_ :: bool. Inl (ErrMsg ''no server'') :: error + mongoSocket"
  let ?lg = "\<lambda>(_ :: mongoSocket) (_ :: authInfo). None :: error option"
  let ?s = "(fst (newSession Strong (\<lambda>_. 0)))\<lparr>masterSocket := Some \<lparr>sock_id = 3, sock_master = True\<rparr>\<rparr>"
  let ?sock = "\<lparr>sock_id = 3, sock_master = True\<rparr>"
  let ?rc = "\<lambda>_ :: nat. 1 :: int"
  have a1: "acquireSocket ?cl ?lg ?s ?rc (''local'' = ''local'') =
      Ret (Inr ?sock, ?s, sock_Acquire ?sock ?rc)"
    by (simp add: acquireSocket_def reservedSocket_def)
  have a2: "acquireSocket ?cl ?lg (?s\<lparr>safeOp := None\<rparr>) ?rc (''local'' = ''local'') =
      Ret (Inr ?sock, ?s\<lparr>safeOp := None\<rparr>, sock_Acquire ?sock ?rc)"
    by (simp add: acquireSocket_def reservedSocket_def)
  have so: "safeOp ?s = Some \<lparr>sq_query = \<lparr>CmdName = 1, cmdW = WNil, cmdWTimeout = 0,
          cmdFSync = False, cmdJ = False\<rparr>, sq_collection = ''admin.$cmd'', sq_limit = - 1\<rparr>"
    by (simp add: newSession_def SetMode_def unsetSocket_def SetSafe_def ensureSafe_def
        safe_w_def Let_def)
  note T1 = writeQuery_acknowledged [OF a1, where sq = "\<lambda>_ _. None" and reply = "Some (None, [])"
      and op = "0::nat"
      and unm = "\<lambda>_. \<lparr>dq_Err = [], dq_ErrMsg = [], dq_Assertion = [], dq_Code = 0,
         dq_AssertionCode = 0, dq_LastError = None\<rparr>"
      and unl = "\<lambda>_. \<lparr>le_Err = [], le_Code = 0, le_N = 1, le_Waited = 0, le_FSyncFiles = 0,
         le_WTimeout = False, le_UpdatedExisting = False\<rparr>"]
  note T2 = writeQuery_acknowledged [OF a2, where sq = "\<lambda>_ _. Some (ErrMsg ''broken pipe'')"
      and reply = None and op = "0::nat"
      and unm = "\<lambda>_. \<lparr>dq_Err = [], dq_ErrMsg = [], dq_Assertion = [], dq_Code = 0,
         dq_AssertionCode = 0, dq_LastError = None\<rparr>"
      and unl = "\<lambda>_. \<lparr>le_Err = [], le_Code = 0, le_N = 1, le_Waited = 0, le_FSyncFiles = 0,
         le_WTimeout = False, le_UpdatedExisting = False\<rparr>"]
  from T1 so have
    "\<exists>ret rc'. writeQuery ?cl ?lg (\<lambda>_ _. None) (Some (None, []))
        (\<lambda>_. \<lparr>dq_Err = [], dq_ErrMsg = [], dq_Assertion = [], dq_Code = 0,
           dq_AssertionCode = 0, dq_LastError = None\<rparr>)
        (\<lambda>_. \<lparr>le_Err = [], le_Code = 0, le_N = 1, le_Waited = 0, le_FSyncFiles = 0,
           le_WTimeout = False, le_UpdatedExisting = False\<rparr>) ?s ?rc ''local'' (0::nat) =
        Ret (ret, ?s, rc', [(?sock, [WriteOp 0, AckQuery \<lparr>sq_query = \<lparr>CmdName = 1, cmdW = WNil,
          cmdWTimeout = 0, cmdFSync = False, cmdJ = False\<rparr>, sq_collection = ''local.$cmd'',
          sq_limit = - 1\<rparr>])]) \<and>
        ret = Some (ackResult (\<lambda>_. \<lparr>dq_Err = [], dq_ErrMsg = [], dq_Assertion = [], dq_Code = 0,
           dq_AssertionCode = 0, dq_LastError = None\<rparr>)
        (\<lambda>_. \<lparr>le_Err = [], le_Code = 0, le_N = 1, le_Waited = 0, le_FSyncFiles = 0,
           le_WTimeout = False, le_UpdatedExisting = False\<rparr>) ''local.$cmd'' None [])"
    by auto
  moreover from T2 have
    "writeQuery ?cl ?lg (\<lambda>_ _. Some (ErrMsg ''broken pipe'')) None
        (\<lambda>_. \<lparr>dq_Err = [], dq_ErrMsg = [], dq_Assertion = [], dq_Code = 0,
           dq_AssertionCode = 0, dq_LastError = None\<rparr>)
        (\<lambda>_. \<lparr>le_Err = [], le_Code = 0, le_N = 1, le_Waited = 0, le_FSyncFiles = 0,
           le_WTimeout = False, le_UpdatedExisting = False\<rparr>) (?s\<lparr>safeOp := None\<rparr>) ?rc ''local'' (0::nat) =
     Ret (Some (None, Some (ErrMsg ''broken pipe'')), ?s\<lparr>safeOp := None\<rparr>,
          sock_Release ?sock (sock_Acquire ?sock ?rc), [(?sock, [WriteOp 0])])"
    by simp
  ultimately show ?thesis
    by (auto simp: wq_ret_def wq_sent_def ackResult_def)
qed

text \<open>
  The claim as stated fails for a write to any database other than \<^verbatim>\<open>admin\<close> and
  \<^verbatim>\<open>local\<close>: for the database \<^verbatim>\<open>test\<close> the acknowledgement command goes to
  \<^verbatim>\<open>test.$cmd\<close>, not to the \<^verbatim>\<open>admin\<close> database.
\<close>

theorem writeQuery_ack_database_counterexample:
  "wq_sent (writeQuery (\<lambda>_. Inl (ErrMsg ''no server'')) (\<lambda>_ _. None) (\<lambda>_ _. None)
      (Some (None, [])) (\<lambda>_. \<lparr>dq_Err = [], dq_ErrMsg = [], dq_Assertion = [], dq_Code = 0,
         dq_AssertionCode = 0, dq_LastError = None\<rparr>)
      (\<lambda>_. \<lparr>le_Err = [], le_Code = 0, le_N = 1, le_Waited = 0, le_FSyncFiles = 0,
         le_WTimeout = False, le_UpdatedExisting = False\<rparr>)
      ((fst (newSession Strong (\<lambda>_. 0)))\<lparr>masterSocket := Some \<lparr>sock_id = 3, sock_master = True\<rparr>\<rparr>)
      (\<lambda>_. 1) ''test'' (0::nat))
   = [(\<lparr>sock_id = 3, sock_master = True\<rparr>,
       [WriteOp 0, AckQuery \<lparr>sq_query = \<lparr>CmdName = 1, cmdW = WNil, cmdWTimeout = 0,
          cmdFSync = False, cmdJ = False\<rparr>, sq_collection = ''test.$cmd'', sq_limit = - 1\<rparr>])]"
  by (simp add: wq_sent_def writeQuery_def acquireSocket_def reservedSocket_def
      newSession_def SetMode_def unsetSocket_def SetSafe_def ensureSafe_def safe_w_def Let_def)

subsection \<open>Closing an iterator\<close>

lemma killCursor_dead:
  "op_cursorId it = 0 \<Longrightarrow> killCursor n it = (None, it, [])"
  by (simp add: killCursor_def)

lemma killCursor_cursorId:
  "killCursor n it = (e, it1, sent) \<Longrightarrow> op_cursorId it1 = 0"
  by (auto simp: killCursor_def Let_def split: if_splits sum.splits prod.splits)

lemma killCursor_locked:
  "killCursor n it = (e, it1, sent) \<Longrightarrow> locked it1 = locked it"
  by (auto simp: killCursor_def Let_def split: if_splits sum.splits prod.splits)

lemma killCursor_sent:
  "killCursor n it = (e, it1, sent) \<Longrightarrow>
   sent = (if op_cursorId it = 0 then []
           else case net_acquire n of
                  Inl _ \<Rightarrow> []
                | Inr sock \<Rightarrow> [(sock, KillCursors [op_cursorId it])])"
  by (auto simp: killCursor_def Let_def split: if_splits sum.splits prod.splits)

text \<open>
  C5. On an iterator whose mutex is free, \<^verbatim>\<open>Close\<close> returns, and a second \<^verbatim>\<open>Close\<close>
  returns the same error and leaves the iterator as the first did. The first call sends
  at most one kill-cursors request (none when the cursor id is zero or no socket is
  obtained) and zeroes the cursor id; the second sends nothing. Neither \<^verbatim>\<open>Close\<close> nor
  \<^verbatim>\<open>Err\<close> ever returns \<^verbatim>\<open>ErrNotFound\<close>: they return nil for it.
\<close>

theorem Close_idempotent:
  assumes "\<not> locked it"
  shows "\<exists>e it1 sent1.
           Close n1 it = Some (e, it1, sent1) \<and>
           Close n2 it1 = Some (e, it1, []) \<and>
           op_cursorId it1 = 0 \<and>
           sent1 = (if op_cursorId it = 0 then []
                    else case net_acquire n1 of
                           Inl _ \<Rightarrow> []
                         | Inr sock \<Rightarrow> [(sock, KillCursors [op_cursorId it])]) \<and>
           length sent1 \<le> 1 \<and>
           e \<noteq> Some ErrNotFound \<and>
           (err it1 = Some ErrNotFound \<longrightarrow> e = None) \<and>
           Err it \<noteq> Some (Some ErrNotFound) \<and>
           (err it = Some ErrNotFound \<longrightarrow> Err it = Some None)"
proof -
  obtain ke it1 sent1 where k: "killCursor n1 it = (ke, it1, sent1)"
    by (cases "killCursor n1 it") auto
  let ?e = "if err it1 = Some ErrNotFound then None else err it1"
  from k assms have c1: "Close n1 it = Some (?e, it1, sent1)"
    by (simp add: Close_def)
  have dead: "op_cursorId it1 = 0" using k by (rule killCursor_cursorId)
  have l1: "\<not> locked it1" using killCursor_locked [OF k] assms by simp
  from dead l1 have c2: "Close n2 it1 = Some (?e, it1, [])"
    by (simp add: Close_def killCursor_dead)
  note s = killCursor_sent [OF k]
  have len: "length sent1 \<le> 1" unfolding s by (simp split: sum.splits)
  have "?e \<noteq> Some ErrNotFound" by simp
  moreover have "err it1 = Some ErrNotFound \<longrightarrow> ?e = None" by simp
  moreover have "Err it \<noteq> Some (Some ErrNotFound)" using assms by (simp add: Err_def)
  moreover have "err it = Some ErrNotFound \<longrightarrow> Err it = Some None"
    using assms by (simp add: Err_def)
  ultimately show ?thesis using c1 c2 dead s len by blast
qed

text \<open>The theorem on an exhausted iterator whose cursor 42 is still open.\<close>

theorem Close_idempotent_witness:
  "\<exists>it1. Close \<lparr>net_acquire = Inr \<lparr>sock_id = 3, sock_master = True\<rparr>, net_query = None\<rparr>
       \<lparr>locked = False, docData = [''doc''], err = Some ErrNotFound, op_collection = ''db.c'',
        op_limit = 0, op_cursorId = 42, limit = 0, docsToReceive = 0, docsBeforeMore = 0,
        timeout = - 1, timedout = False\<rparr>
     = Some (None, it1, [(\<lparr>sock_id = 3, sock_master = True\<rparr>, KillCursors [42])]) \<and>
     Close \<lparr>net_acquire = Inr \<lparr>sock_id = 3, sock_master = True\<rparr>, net_query = None\<rparr> it1
     = Some (None, it1, []) \<and>
     op_cursorId it1 = 0"
proof -
  let ?it = "\<lparr>locked = False, docData = [''doc''], err = Some ErrNotFound, op_collection = ''db.c'',
        op_limit = 0, op_cursorId = 42, limit = 0, docsToReceive = 0, docsBeforeMore = 0,
        timeout = - 1, timedout = False\<rparr>"
  let ?n = "\<lparr>net_acquire = Inr \<lparr>sock_id = 3, sock_master = True\<rparr>, net_query = None\<rparr>"
  have h: "\<not> locked ?it" by simp
  from Close_idempotent [OF h, of ?n ?n]
  obtain e it1 sent1 where
    c: "Close ?n ?it = Some (e, it1, sent1)" "Close ?n it1 = Some (e, it1, [])"
       "op_cursorId it1 = 0"
       "sent1 = [(\<lparr>sock_id = 3, sock_master = True\<rparr>, KillCursors [42])]"
       "err it1 = Some ErrNotFound \<longrightarrow> e = None"
    by auto
  have "err it1 = Some ErrNotFound"
    using c(1) by (auto simp: Close_def killCursor_def Let_def)
  with c show ?thesis by auto
qed

subsection \<open>The client-side limit in Next\<close>

lemma Next_wait_data:
  "docData it \<noteq> [] \<Longrightarrow> Next_wait pf it dl sent rounds = Some (Ready it sent)"
  by (cases rounds) simp_all

lemma getMore_keeps:
  assumes "getMore n it = (it1, s)"
  shows "limit it1 = limit it" "op_cursorId it1 = op_cursorId it" "docData it1 = docData it"
    "locked it1 = locked it" "timedout it1 = timedout it" "timeout it1 = timeout it"
    "op_collection it1 = op_collection it"
  using assms by (auto simp: getMore_def Let_def split: sum.splits if_splits option.splits)

lemma getMore_sent:
  assumes "getMore n it = (it1, s)"
  shows "s = (case net_acquire n of Inl _ \<Rightarrow> []
              | Inr sock \<Rightarrow> [(sock, GetMore (op_collection it)
                     (if 0 <s limit it \<and>
                         limit it - word_of_int (docsToReceive it)
                           - word_of_int (int (length (docData it))) <s op_limit it
                      then limit it - word_of_int (docsToReceive it)
                           - word_of_int (int (length (docData it)))
                      else op_limit it)
                     (op_cursorId it))])"
  using assms by (auto simp: getMore_def Let_def split: sum.splits if_splits option.splits)

lemma getMore_no_kill:
  assumes "getMore n it = (it1, s)"
  shows "(sock, KillCursors ids) \<notin> set s"
  using getMore_sent [OF assms] by (auto split: sum.splits)

lemma Next_deliver_dead:
  assumes "op_cursorId it = 0"
  shows "\<exists>it'. Next_deliver um unm mn d it sent =
     Ret (um d = None \<and> checkQueryError unm (op_collection it) d = None, Some d, it', sent) \<and>
     err it' = (case um d of
                  Some e \<Rightarrow> Some e
                | None \<Rightarrow>
                    (case checkQueryError unm (op_collection it) d of
                       Some e \<Rightarrow> if err it = None then Some e else err it
                     | None \<Rightarrow> err it)) \<and>
     \<not> locked it' \<and> limit it' = limit it \<and> op_cursorId it' = 0 \<and> docData it' = docData it"
  using assms by (auto simp add: Next_deliver_def split: option.splits)

lemma Next_deliver_Ret:
  "\<exists>b it' s. Next_deliver um unm mn d it sent = Ret (b, Some d, it', sent @ s) \<and>
     limit it' = limit it \<and> op_cursorId it' = op_cursorId it \<and> docData it' = docData it \<and>
     \<not> locked it' \<and> timedout it' = timedout it \<and>
     (\<forall>sock ids. (sock, KillCursors ids) \<notin> set s) \<and>
     (b \<longleftrightarrow> um d = None \<and> checkQueryError unm (op_collection it) d = None)"
proof -
  obtain it2 s2 where g: "getMore mn it = (it2, s2)" by (cases "getMore mn it") auto
  note k = getMore_keeps [OF g] getMore_no_kill [OF g]
  show ?thesis
  proof (cases "op_cursorId it \<noteq> 0 \<and> err it = None \<and> docsBeforeMore it = 0")
    case True
    with g k show ?thesis
      by (cases "um d"; cases "checkQueryError unm (op_collection it) d")
         (auto simp add: Next_deliver_def Let_def)
  next
    case False
    then show ?thesis
      by (cases "um d"; cases "checkQueryError unm (op_collection it) d")
         (auto simp add: Next_deliver_def Let_def)
  qed
qed

text \<open>
  The client limit in \<^verbatim>\<open>Next\<close>, lines 2594-2606. Let \<^verbatim>\<open>Next\<close> be called on an iterator
  with a free mutex, a document \<open>d\<close> at the head of its queue and a positive client
  limit. If the limit is not 1, \<^verbatim>\<open>Next\<close> hands out \<open>d\<close>, the limit is one less, and
  neither the cursor id changes nor a kill request is sent. If the limit is 1 and the
  queue holds nothing else, the limit becomes 0, the cursor id becomes 0, a kill request
  for the cursor is sent on the acquired socket when the cursor was alive, and the error
  is \<^verbatim>\<open>ErrNotFound\<close> (when the document decodes and the kill did not fail; a failed kill
  makes \<^verbatim>\<open>Next\<close> return false with the kill's error). If the limit is 1 and more
  documents are queued, \<^verbatim>\<open>Next\<close> panics.
\<close>

lemma Next_limit:
  assumes free: "\<not> locked it" and q: "docData it = d # rest" and lim: "0 <s limit it"
  shows "(limit it = 1 \<and> rest \<noteq> [] \<longrightarrow>
            Next pf um unm rounds kn mn it =
              Some (Panic ''data remains after limit exhausted'')) \<and>
         (limit it = 1 \<and> rest = [] \<longrightarrow>
            (\<exists>b it'.
               Next pf um unm rounds kn mn it =
                 Some (Ret (b, Some d, it',
                   if op_cursorId it = 0 then []
                   else case net_acquire kn of
                          Inl _ \<Rightarrow> []
                        | Inr sock \<Rightarrow> [(sock, KillCursors [op_cursorId it])])) \<and>
               limit it' = 0 \<and> op_cursorId it' = 0 \<and> docData it' = [] \<and>
               ((op_cursorId it = 0 \<or> (\<exists>sock. net_acquire kn = Inr sock \<and> net_query kn = None)) \<and>
                um d = None \<longrightarrow> err it' = Some ErrNotFound) \<and>
               (\<forall>e. op_cursorId it \<noteq> 0 \<and>
                    (net_acquire kn = Inl e \<or>
                     (\<exists>sock. net_acquire kn = Inr sock \<and> net_query kn = Some e)) \<longrightarrow>
                    \<not> b \<and> err it' = Some e))) \<and>
         (limit it \<noteq> 1 \<longrightarrow>
            (\<exists>b it' sent.
               Next pf um unm rounds kn mn it = Some (Ret (b, Some d, it', sent)) \<and>
               limit it' = limit it - 1 \<and> docData it' = rest \<and>
               op_cursorId it' = op_cursorId it \<and>
               (\<forall>sock ids. (sock, KillCursors ids) \<notin> set sent)))"
proof -
  let ?it0 = "it\<lparr>locked := True, timedout := False\<rparr>"
  have n: "Next pf um unm rounds kn mn it = Some (Next_yield um unm kn mn ?it0 [])"
    using free q by (simp add: Next_def Next_wait_data)
  have p: "limit it = 1 \<and> rest \<noteq> [] \<longrightarrow>
      Next_yield um unm kn mn ?it0 [] = Panic ''data remains after limit exhausted''"
    using q lim by (simp add: Next_yield_def Let_def word_sless_alt)
  have z: "limit it = 1 \<and> rest = [] \<longrightarrow>
            (\<exists>b it'.
               Next_yield um unm kn mn ?it0 [] =
                 Ret (b, Some d, it',
                   if op_cursorId it = 0 then []
                   else case net_acquire kn of
                          Inl _ \<Rightarrow> []
                        | Inr sock \<Rightarrow> [(sock, KillCursors [op_cursorId it])]) \<and>
               limit it' = 0 \<and> op_cursorId it' = 0 \<and> docData it' = [] \<and>
               ((op_cursorId it = 0 \<or> (\<exists>sock. net_acquire kn = Inr sock \<and> net_query kn = None)) \<and>
                um d = None \<longrightarrow> err it' = Some ErrNotFound) \<and>
               (\<forall>e. op_cursorId it \<noteq> 0 \<and>
                    (net_acquire kn = Inl e \<or>
                     (\<exists>sock. net_acquire kn = Inr sock \<and> net_query kn = Some e)) \<longrightarrow>
                    \<not> b \<and> err it' = Some e))"
  proof (intro impI, elim conjE)
    assume l1: "limit it = 1" and r: "rest = []"
    show "\<exists>b it'.
               Next_yield um unm kn mn ?it0 [] =
                 Ret (b, Some d, it',
                   if op_cursorId it = 0 then []
                   else case net_acquire kn of
                          Inl _ \<Rightarrow> []
                        | Inr sock \<Rightarrow> [(sock, KillCursors [op_cursorId it])]) \<and>
               limit it' = 0 \<and> op_cursorId it' = 0 \<and> docData it' = [] \<and>
               ((op_cursorId it = 0 \<or> (\<exists>sock. net_acquire kn = Inr sock \<and> net_query kn = None)) \<and>
                um d = None \<longrightarrow> err it' = Some ErrNotFound) \<and>
               (\<forall>e. op_cursorId it \<noteq> 0 \<and>
                    (net_acquire kn = Inl e \<or>
                     (\<exists>sock. net_acquire kn = Inr sock \<and> net_query kn = Some e)) \<longrightarrow>
                    \<not> b \<and> err it' = Some e)"
    proof (cases "op_cursorId it = 0")
      case True
      let ?it3 = "?it0\<lparr>docData := [], limit := 0, err := Some ErrNotFound\<rparr>"
      from True q lim l1 r
      have "Next_yield um unm kn mn ?it0 [] = Next_deliver um unm mn d ?it3 []"
        by (simp add: Next_yield_def Let_def killCursor_def word_sless_alt)
      moreover have "op_cursorId ?it3 = 0" using True by simp
      from Next_deliver_dead [OF this, of um unm mn d "[]"]
      obtain it' where "Next_deliver um unm mn d ?it3 [] =
          Ret (um d = None \<and> checkQueryError unm (op_collection ?it3) d = None, Some d, it', [])"
        "err it' = (case um d of Some e \<Rightarrow> Some e | None \<Rightarrow> Some ErrNotFound)"
        "\<not> locked it'" "limit it' = 0" "op_cursorId it' = 0" "docData it' = []"
        by (auto split: option.splits)
      ultimately show ?thesis using True by auto
    next
      case False
      show ?thesis
      proof (cases "net_acquire kn")
        case (Inl e)
        with False q lim l1 r show ?thesis
          by (auto simp add: Next_yield_def Let_def killCursor_def word_sless_alt)
      next
        case (Inr sock)
        show ?thesis
        proof (cases "net_query kn")
          case None
          let ?it3 = "?it0\<lparr>docData := [], limit := 0, err := Some ErrNotFound,
            op_cursorId := 0\<rparr>"
          from None Inr False q lim l1 r
          have "Next_yield um unm kn mn ?it0 [] =
              Next_deliver um unm mn d ?it3 [(sock, KillCursors [op_cursorId it])]"
            by (simp add: Next_yield_def Let_def killCursor_def word_sless_alt)
          moreover have "op_cursorId ?it3 = 0" by simp
          from Next_deliver_dead [OF this, of um unm mn d "[(sock, KillCursors [op_cursorId it])]"]
          obtain it' where "Next_deliver um unm mn d ?it3 [(sock, KillCursors [op_cursorId it])] =
              Ret (um d = None \<and> checkQueryError unm (op_collection ?it3) d = None, Some d, it',
                   [(sock, KillCursors [op_cursorId it])])"
            "err it' = (case um d of Some e \<Rightarrow> Some e | None \<Rightarrow> Some ErrNotFound)"
            "\<not> locked it'" "limit it' = 0" "op_cursorId it' = 0" "docData it' = []"
            by (auto split: option.splits)
          ultimately show ?thesis using False Inr None by auto
        next
          case (Some e)
          with Inr False q lim l1 r show ?thesis
            by (auto simp add: Next_yield_def Let_def killCursor_def word_sless_alt)
        qed
      qed
    qed
  qed
  have m: "limit it \<noteq> 1 \<longrightarrow>
            (\<exists>b it' sent.
               Next_yield um unm kn mn ?it0 [] = Ret (b, Some d, it', sent) \<and>
               limit it' = limit it - 1 \<and> docData it' = rest \<and>
               op_cursorId it' = op_cursorId it \<and>
               (\<forall>sock ids. (sock, KillCursors ids) \<notin> set sent))"
  proof
    assume l1: "limit it \<noteq> 1"
    let ?it2 = "?it0\<lparr>docData := rest, limit := limit it - 1\<rparr>"
    from l1 have nz: "limit it - 1 \<noteq> 0" by simp
    with q lim have y: "Next_yield um unm kn mn ?it0 [] = Next_deliver um unm mn d ?it2 []"
      by (simp add: Next_yield_def Let_def)
    from Next_deliver_Ret [of um unm mn d ?it2 "[]"] y
    show "\<exists>b it' sent.
               Next_yield um unm kn mn ?it0 [] = Ret (b, Some d, it', sent) \<and>
               limit it' = limit it - 1 \<and> docData it' = rest \<and>
               op_cursorId it' = op_cursorId it \<and>
               (\<forall>sock ids. (sock, KillCursors ids) \<notin> set sent)"
      by auto
  qed
  from p z m show ?thesis unfolding n by simp
qed

text \<open>
  C6. The panic for documents that remain in the queue when the limit is exhausted is
  reached through the public interface with a server that does what it is asked:
  \<^verbatim>\<open>Limit(5)\<close> sets the client limit and the wire limit to 5, \<^verbatim>\<open>Batch(10)\<close> after it
  overwrites the wire limit alone, and \<^verbatim>\<open>Iter()\<close> copies both and asks the server for
  batches of 10. The first reply brings the 10 documents asked for and leaves the
  cursor 77 open. Four calls of \<^verbatim>\<open>Next\<close> return true; the fifth takes the limit to 0
  with five documents still queued and panics, where the comment of \<^verbatim>\<open>Limit\<close> (lines
  1997-1999) promises five documents and then \<^verbatim>\<open>ErrNotFound\<close>.
\<close>

theorem Next_Limit_Batch_panics:
  "sint (q_limit (Batch (Limit \<lparr>q_limit = 0, q_op_limit = 0\<rparr> 5) 10)) = 5 \<and>
   sint (q_op_limit (Batch (Limit \<lparr>q_limit = 0, q_op_limit = 0\<rparr> 5) 10)) = 10 \<and>
   snd (Query_Iter (Batch (Limit \<lparr>q_limit = 0, q_op_limit = 0\<rparr> 5) 10) ''db.c''
        \<lparr>net_acquire = Inr \<lparr>sock_id = 3, sock_master = True\<rparr>, net_query = None\<rparr>)
     = [(\<lparr>sock_id = 3, sock_master = True\<rparr>, QueryReq ''db.c'' 10)] \<and>
   Next_run (\<lambda>_. 0) (\<lambda>_. None)
     (\<lambda>_. \<lparr>dq_Err = [], dq_ErrMsg = [], dq_Assertion = [], dq_Code = 0,
            dq_AssertionCode = 0, dq_LastError = None\<rparr>)
     (fst (Query_Iter (Batch (Limit \<lparr>q_limit = 0, q_op_limit = 0\<rparr> 5) 10) ''db.c''
        \<lparr>net_acquire = Inr \<lparr>sock_id = 3, sock_master = True\<rparr>, net_query = None\<rparr>))
     [([\<lparr>now_set = 0, now_check = 0,
         more_net = \<lparr>net_acquire = Inr \<lparr>sock_id = 3, sock_master = True\<rparr>, net_query = None\<rparr>,
         replies = map (\<lambda>i. \<lparr>r_err = None, r_cursorId = 77, r_replyDocs = 10,
                               r_docNum = int i, r_docData = ''doc''\<rparr>) [0..<10]\<rparr>],
       \<lparr>net_acquire = Inr \<lparr>sock_id = 3, sock_master = True\<rparr>, net_query = None\<rparr>,
       \<lparr>net_acquire = Inr \<lparr>sock_id = 3, sock_master = True\<rparr>, net_query = None\<rparr>),
      ([], \<lparr>net_acquire = Inr \<lparr>sock_id = 3, sock_master = True\<rparr>, net_query = None\<rparr>,
       \<lparr>net_acquire = Inr \<lparr>sock_id = 3, sock_master = True\<rparr>, net_query = None\<rparr>),
      ([], \<lparr>net_acquire = Inr \<lparr>sock_id = 3, sock_master = True\<rparr>, net_query = None\<rparr>,
       \<lparr>net_acquire = Inr \<lparr>sock_id = 3, sock_master = True\<rparr>, net_query = None\<rparr>),
      ([], \<lparr>net_acquire = Inr \<lparr>sock_id = 3, sock_master = True\<rparr>, net_query = None\<rparr>,
       \<lparr>net_acquire = Inr \<lparr>sock_id = 3, sock_master = True\<rparr>, net_query = None\<rparr>),
      ([], \<lparr>net_acquire = Inr \<lparr>sock_id = 3, sock_master = True\<rparr>, net_query = None\<rparr>,
       \<lparr>net_acquire = Inr \<lparr>sock_id = 3, sock_master = True\<rparr>, net_query = None\<rparr>)]
   = [Some (Ret True), Some (Ret True), Some (Ret True), Some (Ret True),
      Some (Panic ''data remains after limit exhausted'')]"
  by (simp add: Query_Iter_def Batch_def Limit_def int32_def Next_def Next_yield_def
      Next_deliver_def replyFunc_def checkQueryError_def word_sless_alt Let_def upt_rec
      getMore_def killCursor_def)

subsection \<open>Limits and batch sizes\<close>

lemma int32_scast: "int32 n = scast n"
  unfolding int32_def by (rule bit_word_eqI) (auto simp: bit_simps)

lemma sint_int32:
  "- 2147483648 \<le> sint n \<Longrightarrow> sint n \<le> 2147483647 \<Longrightarrow> sint (int32 n) = sint n"
  unfolding int32_scast by (simp add: signed_scast_eq signed_take_bit_int_eq_self)

lemma sint_minus_64:
  fixes n :: "64 word"
  shows "- 2147483648 < sint n \<Longrightarrow> sint (- n) = - sint n"
  using sint_lt [of n] by (simp add: sint_word_minus signed_take_bit_int_eq_self_iff)

lemma sint_int32_minus:
  "- 2147483648 < sint n \<Longrightarrow> sint n \<le> 2147483647 \<Longrightarrow> sint (int32 (- n)) = - sint n"
  by (simp add: sint_int32 sint_minus_64)

lemma n_eq_1: "((n::64 word) = 1) = (sint n = 1)"
  using word_eq_iff_signed [where 'a = int, of n 1] by simp

lemma n_eq_min: "((n::64 word) = - 2147483648) = (sint n = - 2147483648)"
  using word_eq_iff_signed [where 'a = int, of n "- 2147483648"] by simp

lemma replyFunc_limit: "limit (replyFunc pf it r) = limit it"
  by (simp add: replyFunc_def Let_def split: option.splits)

lemma replies_limit: "limit (foldl (replyFunc pf) it rs) = limit it"
  by (induction rs arbitrary: it) (simp_all add: replyFunc_limit)

lemma killCursor_limit:
  "killCursor n it = (e, it1, sent) \<Longrightarrow>
   limit it1 = limit it \<and> docData it1 = docData it \<and> (err it \<noteq> None \<longrightarrow> err it1 \<noteq> None)"
  by (auto simp: killCursor_def Let_def split: if_splits sum.splits prod.splits)

lemma Next_wait_limit:
  "Next_wait pf it dl sent rounds = Some w \<Longrightarrow>
   limit (case w of TimedOut i _ \<Rightarrow> i | Ready i _ \<Rightarrow> i) = limit it"
proof (induction rounds arbitrary: it dl sent)
  case Nil
  then show ?case by (auto split: if_splits)
next
  case (Cons r rs)
  obtain it1 s1 where g: "getMore (more_net r) it = (it1, s1)"
    by (cases "getMore (more_net r) it") auto
  note lk = getMore_keeps(1) [OF g] replies_limit
  from Cons.prems g show ?case
    by (auto simp: Let_def lk split: if_splits option.splits dest!: Cons.IH)
qed

lemma Next_wait_err:
  "err it \<noteq> None \<Longrightarrow> Next_wait pf it dl sent rounds = Some (Ready it sent)"
  by (cases rounds; cases "err it") simp_all

lemma Next_deliver_err:
  "Next_deliver um unm mn d it sent = Ret (b, doc, it', sent') \<Longrightarrow>
   limit it' = limit it \<and> docData it' = docData it \<and> (err it \<noteq> None \<longrightarrow> err it' \<noteq> None)"
proof -
  obtain it2 s2 where g: "getMore mn it = (it2, s2)" by (cases "getMore mn it") auto
  assume "Next_deliver um unm mn d it sent = Ret (b, doc, it', sent')"
  with g getMore_keeps(1,3,7) [OF g] show ?thesis
    by (cases "um d"; cases "checkQueryError unm (op_collection it) d")
       (auto simp: Next_deliver_def Let_def split: if_splits)
qed

lemma Next_yield_live:
  assumes y: "Next_yield um unm kn mn it sent = Ret (b, doc, it', sent')"
    and lim: "0 <s limit it"
  shows "(limit it' = limit it \<and> \<not> b) \<or>
         (limit it' = limit it - 1 \<and> (limit it' = 0 \<longrightarrow> err it' \<noteq> None \<and> docData it' = []))"
proof (cases "docData it")
  case Nil
  with y show ?thesis by (auto simp: Next_yield_def split: if_splits)
next
  case (Cons d rest)
  let ?it1 = "it\<lparr>docData := rest\<rparr>"
  let ?it2 = "?it1\<lparr>limit := limit ?it1 - 1\<rparr>"
  obtain ke it3 ks where k: "killCursor kn (?it2\<lparr>err := Some ErrNotFound\<rparr>) = (ke, it3, ks)"
    by (cases "killCursor kn (?it2\<lparr>err := Some ErrNotFound\<rparr>)") auto
  from killCursor_limit [OF k]
  have k3: "limit it3 = limit it - 1" "docData it3 = rest" "err it3 \<noteq> None" by simp_all
  show ?thesis
  proof (cases "limit it - 1 = 0")
    case False
    with lim Cons y have "Next_deliver um unm mn d ?it2 sent = Ret (b, doc, it', sent')"
      by (simp add: Next_yield_def Let_def)
    from Next_deliver_err [OF this] False show ?thesis by simp
  next
    case z: True
    with lim Cons y have r: "rest = []"
      by (auto simp add: Next_yield_def Let_def split: if_splits)
    show ?thesis
    proof (cases "ke = None")
      case True
      with z lim Cons y k r
      have "Next_deliver um unm mn d it3 (sent @ ks) = Ret (b, doc, it', sent')"
        by (simp add: Next_yield_def Let_def split: if_splits)
      from Next_deliver_err [OF this] k3 r show ?thesis by simp
    next
      case False
      with z lim Cons y k r have "it' = it3"
        by (auto simp add: Next_yield_def Let_def split: if_splits)
      with k3 r show ?thesis by simp
    qed
  qed
qed

lemma Next_live:
  assumes n: "Next pf um unm rounds kn mn it = Some (Ret (b, doc, it', sent))"
    and lim: "0 <s limit it"
  shows "(limit it' = limit it \<and> \<not> b) \<or>
         (limit it' = limit it - 1 \<and> (limit it' = 0 \<longrightarrow> err it' \<noteq> None \<and> docData it' = []))"
proof -
  let ?it0 = "it\<lparr>locked := True, timedout := False\<rparr>"
  from n have free: "\<not> locked it" by (auto simp: Next_def split: if_splits)
  show ?thesis
  proof (cases "Next_wait pf ?it0 None [] rounds")
    case None
    with n free show ?thesis by (simp add: Next_def)
  next
    case (Some w)
    from Next_wait_limit [OF Some]
    have l: "limit (case w of TimedOut i _ \<Rightarrow> i | Ready i _ \<Rightarrow> i) = limit it" by simp
    show ?thesis
    proof (cases w)
      case (TimedOut it1 s1)
      with Some n free l show ?thesis by (auto simp: Next_def)
    next
      case (Ready it1 s1)
      with Some n free have y: "Next_yield um unm kn mn it1 s1 = Ret (b, doc, it', sent)"
        by (simp add: Next_def)
      from Ready l have "limit it1 = limit it" by simp
      with Next_yield_live [OF y] lim show ?thesis by simp
    qed
  qed
qed

lemma Next_done:
  assumes n: "Next pf um unm rounds kn mn it = Some (Ret (b, doc, it', sent))"
    and d: "limit it = 0" "err it \<noteq> None" "docData it = []"
  shows "\<not> b \<and> limit it' = 0 \<and> err it' \<noteq> None \<and> docData it' = []"
proof -
  let ?it0 = "it\<lparr>locked := True, timedout := False\<rparr>"
  from n have free: "\<not> locked it" by (auto simp: Next_def split: if_splits)
  have "err ?it0 \<noteq> None" using d by simp
  from Next_wait_err [OF this, of pf None "[]" rounds] n free d show ?thesis
    by (auto simp: Next_def Next_yield_def simp del: Next_wait.simps)
qed

lemma sint_pred_32:
  fixes l :: "32 word"
  shows "0 <s l \<Longrightarrow> sint (l - 1) = sint l - 1"
  using sint_ge [of l] sint_lt [of l]
  by (simp add: word_sless_alt sint_word_diff signed_take_bit_int_eq_self_iff)

lemma Next_run_cap:
  "0 <s limit it \<or> (limit it = 0 \<and> err it \<noteq> None \<and> docData it = []) \<Longrightarrow>
   length (filter (\<lambda>x. x = Some (Ret True)) (Next_run pf um unm it envs)) \<le> nat (sint (limit it))"
proof (induction envs arbitrary: it)
  case Nil
  then show ?case by simp
next
  case (Cons env envs)
  obtain rounds kn mn where env: "env = (rounds, kn, mn)" by (cases env) auto
  show ?case
  proof (cases "Next pf um unm rounds kn mn it")
    case None
    with env show ?thesis by simp
  next
    case (Some out)
    show ?thesis
    proof (cases out)
      case (Panic msg)
      with Some env show ?thesis by simp
    next
      case (Ret res)
      obtain b doc it' sent where res: "res = (b, doc, it', sent)" by (cases res) auto
      with Some Ret have n: "Next pf um unm rounds kn mn it = Some (Ret (b, doc, it', sent))"
        by simp
      have run: "Next_run pf um unm it (env # envs) = Some (Ret b) # Next_run pf um unm it' envs"
        using n env by simp
      from Cons.prems show ?thesis
      proof
        assume lim: "0 <s limit it"
        then have pos: "0 < sint (limit it)" by (simp add: word_sless_alt)
        from Next_live [OF n lim] show ?thesis
        proof
          assume a: "limit it' = limit it \<and> \<not> b"
          with lim have "0 <s limit it'" by simp
          from Cons.IH [of it'] this a run show ?thesis by simp
        next
          assume a: "limit it' = limit it - 1 \<and>
            (limit it' = 0 \<longrightarrow> err it' \<noteq> None \<and> docData it' = [])"
          then have s: "sint (limit it') = sint (limit it) - 1"
            using sint_pred_32 [OF lim] by simp
          have "0 <s limit it' \<or> (limit it' = 0 \<and> err it' \<noteq> None \<and> docData it' = [])"
          proof (cases "limit it' = 0")
            case True
            with a show ?thesis by simp
          next
            case False
            then have "sint (limit it') \<noteq> 0" by (simp add: signed_eq_0_iff)
            with s pos show ?thesis by (simp add: word_sless_alt)
          qed
          from Cons.IH [OF this]
          have "length (filter (\<lambda>x. x = Some (Ret True)) (Next_run pf um unm it' envs))
                \<le> nat (sint (limit it) - 1)"
            using s by simp
          moreover have "Suc (nat (sint (limit it) - 1)) = nat (sint (limit it))"
            using pos by simp
          ultimately show ?thesis unfolding run by (cases b) simp_all
        qed
      next
        assume d: "limit it = 0 \<and> err it \<noteq> None \<and> docData it = []"
        then have "limit it = 0" "err it \<noteq> None" "docData it = []" by simp_all
        from Next_done [OF n this]
        have nd: "\<not> b" "limit it' = 0 \<and> err it' \<noteq> None \<and> docData it' = []" by simp_all
        from Cons.IH [of it'] nd d run show ?thesis by simp
      qed
    qed
  qed
qed

lemma Query_Iter_limit: "limit (fst (Query_Iter q coll n)) = q_limit q"
  by (simp add: Query_Iter_def Let_def split: sum.splits)

text \<open>
  C2 (as amended). For every \<open>n\<close> in the signed 32-bit range, \<^verbatim>\<open>Limit(n)\<close> sets: for
  \<open>n = 1\<close> the client limit 1 and the wire limit -1; for the most negative 32-bit value
  the client limit MaxInt32 and the wire limit MinInt32+1; for any other \<open>n < 0\<close> the
  client limit \<open>-n\<close> and the wire limit \<open>n\<close>; for \<open>n > 1\<close> both limits \<open>n\<close> (and for
  \<open>n = 0\<close> both 0). The client limit is a cap that the iterator enforces by itself,
  across any number of batches: on the iterator that \<^verbatim>\<open>Iter()\<close> makes of the query, for
  \<open>n \<noteq> 0\<close>, successive calls of \<^verbatim>\<open>Next\<close> return true at most as many times as the client
  limit says, whatever replies the server sends, in however many batches, and whatever
  the network does.
\<close>

theorem Limit_in_int32_range:
  assumes lo: "- 2147483648 \<le> sint n" and hi: "sint n \<le> 2147483647"
  shows "(sint n = 1 \<longrightarrow>
            sint (q_limit (Limit q n)) = 1 \<and> sint (q_op_limit (Limit q n)) = - 1) \<and>
         (sint n = - 2147483648 \<longrightarrow>
            sint (q_limit (Limit q n)) = 2147483647 \<and>
            sint (q_op_limit (Limit q n)) = - 2147483647) \<and>
         (sint n < 0 \<and> sint n \<noteq> - 2147483648 \<longrightarrow>
            sint (q_limit (Limit q n)) = - sint n \<and> sint (q_op_limit (Limit q n)) = sint n) \<and>
         (1 < sint n \<longrightarrow>
            sint (q_limit (Limit q n)) = sint n \<and> sint (q_op_limit (Limit q n)) = sint n) \<and>
         (sint n = 0 \<longrightarrow>
            sint (q_limit (Limit q n)) = 0 \<and> sint (q_op_limit (Limit q n)) = 0) \<and>
         (sint n \<noteq> 0 \<longrightarrow>
            length (filter (\<lambda>x. x = Some (Ret True))
              (Next_run pf um unm (fst (Query_Iter (Limit q n) coll qn)) envs))
            \<le> nat (sint (q_limit (Limit q n))))"
proof -
  have sets: "(sint n = 1 \<longrightarrow>
            sint (q_limit (Limit q n)) = 1 \<and> sint (q_op_limit (Limit q n)) = - 1) \<and>
         (sint n = - 2147483648 \<longrightarrow>
            sint (q_limit (Limit q n)) = 2147483647 \<and>
            sint (q_op_limit (Limit q n)) = - 2147483647) \<and>
         (sint n < 0 \<and> sint n \<noteq> - 2147483648 \<longrightarrow>
            sint (q_limit (Limit q n)) = - sint n \<and> sint (q_op_limit (Limit q n)) = sint n) \<and>
         (1 < sint n \<longrightarrow>
            sint (q_limit (Limit q n)) = sint n \<and> sint (q_op_limit (Limit q n)) = sint n) \<and>
         (sint n = 0 \<longrightarrow>
            sint (q_limit (Limit q n)) = 0 \<and> sint (q_op_limit (Limit q n)) = 0)"
  proof (intro conjI impI)
    assume "sint n = 1"
    then have "n = 1" by (simp add: n_eq_1)
    then show "sint (q_limit (Limit q n)) = 1" "sint (q_op_limit (Limit q n)) = - 1"
      by (simp_all add: Limit_def)
  next
    assume "sint n = - 2147483648"
    then have "n = - 2147483648" by (simp add: n_eq_min)
    then show "sint (q_limit (Limit q n)) = 2147483647"
      "sint (q_op_limit (Limit q n)) = - 2147483647"
      by (simp_all add: Limit_def)
  next
    assume a: "sint n < 0 \<and> sint n \<noteq> - 2147483648"
    then have ne: "n \<noteq> 1" "n \<noteq> - 2147483648" "n <s 0"
      by (auto simp: n_eq_1 n_eq_min word_sless_alt)
    from a lo have "- 2147483648 < sint n" by simp
    with ne hi lo show "sint (q_limit (Limit q n)) = - sint n"
      "sint (q_op_limit (Limit q n)) = sint n"
      by (simp_all add: Limit_def sint_int32 sint_int32_minus)
  next
    assume a: "1 < sint n"
    then have ne: "n \<noteq> 1" "n \<noteq> - 2147483648" "\<not> n <s 0"
      by (auto simp: n_eq_1 n_eq_min word_sless_alt)
    with hi lo show "sint (q_limit (Limit q n)) = sint n"
      "sint (q_op_limit (Limit q n)) = sint n"
      by (simp_all add: Limit_def sint_int32)
  next
    assume a: "sint n = 0"
    then have ne: "n \<noteq> 1" "n \<noteq> - 2147483648" "\<not> n <s 0"
      by (auto simp: n_eq_1 n_eq_min word_sless_alt)
    with hi lo a show "sint (q_limit (Limit q n)) = 0"
      "sint (q_op_limit (Limit q n)) = 0"
      by (simp_all add: Limit_def sint_int32)
  qed
  have cap: "sint n \<noteq> 0 \<longrightarrow>
            length (filter (\<lambda>x. x = Some (Ret True))
              (Next_run pf um unm (fst (Query_Iter (Limit q n) coll qn)) envs))
            \<le> nat (sint (q_limit (Limit q n)))"
  proof
    assume nz: "sint n \<noteq> 0"
    then consider "sint n = 1" | "sint n = - 2147483648"
      | "sint n < 0 \<and> sint n \<noteq> - 2147483648" | "1 < sint n"
      by linarith
    then have "0 < sint (q_limit (Limit q n))"
      using sets by cases simp_all
    then have "0 <s limit (fst (Query_Iter (Limit q n) coll qn))"
      by (simp add: Query_Iter_limit word_sless_alt)
    then have "0 <s limit (fst (Query_Iter (Limit q n) coll qn)) \<or>
         (limit (fst (Query_Iter (Limit q n) coll qn)) = 0 \<and>
          err (fst (Query_Iter (Limit q n) coll qn)) \<noteq> None \<and>
          docData (fst (Query_Iter (Limit q n) coll qn)) = [])"
      by (rule disjI1)
    from Next_run_cap [OF this, of pf um unm envs]
    show "length (filter (\<lambda>x. x = Some (Ret True))
              (Next_run pf um unm (fst (Query_Iter (Limit q n) coll qn)) envs))
            \<le> nat (sint (q_limit (Limit q n)))"
      by (simp add: Query_Iter_limit)
  qed
  from sets cap show ?thesis by blast
qed

text \<open>
  The theorem at \<open>n = -5\<close>, \<open>n = 5\<close>, \<open>n = 1\<close> and the most negative 32-bit value, and at
  \<open>n = 3\<close> on a run of four calls of \<^verbatim>\<open>Next\<close>: the reply to the query brings two
  documents and leaves the cursor 77 open, the third call asks for more and gets one
  document, which exhausts the limit, and the fourth call returns false.
\<close>

theorem Limit_in_int32_range_witness:
  "sint (q_limit (Limit \<lparr>q_limit = 0, q_op_limit = 0\<rparr> (- 5))) = 5 \<and>
   sint (q_op_limit (Limit \<lparr>q_limit = 0, q_op_limit = 0\<rparr> (- 5))) = - 5 \<and>
   sint (q_limit (Limit \<lparr>q_limit = 0, q_op_limit = 0\<rparr> 5)) = 5 \<and>
   sint (q_op_limit (Limit \<lparr>q_limit = 0, q_op_limit = 0\<rparr> 5)) = 5 \<and>
   sint (q_limit (Limit \<lparr>q_limit = 0, q_op_limit = 0\<rparr> 1)) = 1 \<and>
   sint (q_op_limit (Limit \<lparr>q_limit = 0, q_op_limit = 0\<rparr> 1)) = - 1 \<and>
   sint (q_limit (Limit \<lparr>q_limit = 0, q_op_limit = 0\<rparr> (- 2147483648))) = 2147483647 \<and>
   sint (q_op_limit (Limit \<lparr>q_limit = 0, q_op_limit = 0\<rparr> (- 2147483648))) = - 2147483647 \<and>
   Next_run (\<lambda>_. 0) (\<lambda>_. None)
     (\<lambda>_. \<lparr>dq_Err = [], dq_ErrMsg = [], dq_Assertion = [], dq_Code = 0,
            dq_AssertionCode = 0, dq_LastError = None\<rparr>)
     (fst (Query_Iter (Limit \<lparr>q_limit = 0, q_op_limit = 0\<rparr> 3) ''db.c''
        \<lparr>net_acquire = Inr \<lparr>sock_id = 3, sock_master = True\<rparr>, net_query = None\<rparr>))
     [([\<lparr>now_set = 0, now_check = 0,
         more_net = \<lparr>net_acquire = Inr \<lparr>sock_id = 3, sock_master = True\<rparr>, net_query = None\<rparr>,
         replies = [\<lparr>r_err = None, r_cursorId = 77, r_replyDocs = 2, r_docNum = 0,
                     r_docData = ''a''\<rparr>,
                    \<lparr>r_err = None, r_cursorId = 77, r_replyDocs = 2, r_docNum = 1,
                     r_docData = ''b''\<rparr>]\<rparr>],
       \<lparr>net_acquire = Inr \<lparr>sock_id = 3, sock_master = True\<rparr>, net_query = None\<rparr>,
       \<lparr>net_acquire = Inr \<lparr>sock_id = 3, sock_master = True\<rparr>, net_query = None\<rparr>),
      ([], \<lparr>net_acquire = Inr \<lparr>sock_id = 3, sock_master = True\<rparr>, net_query = None\<rparr>,
       \<lparr>net_acquire = Inr \<lparr>sock_id = 3, sock_master = True\<rparr>, net_query = None\<rparr>),
      ([\<lparr>now_set = 0, now_check = 0,
         more_net = \<lparr>net_acquire = Inr \<lparr>sock_id = 3, sock_master = True\<rparr>, net_query = None\<rparr>,
         replies = [\<lparr>r_err = None, r_cursorId = 77, r_replyDocs = 1, r_docNum = 0,
                     r_docData = ''c''\<rparr>]\<rparr>],
       \<lparr>net_acquire = Inr \<lparr>sock_id = 3, sock_master = True\<rparr>, net_query = None\<rparr>,
       \<lparr>net_acquire = Inr \<lparr>sock_id = 3, sock_master = True\<rparr>, net_query = None\<rparr>),
      ([], \<lparr>net_acquire = Inr \<lparr>sock_id = 3, sock_master = True\<rparr>, net_query = None\<rparr>,
       \<lparr>net_acquire = Inr \<lparr>sock_id = 3, sock_master = True\<rparr>, net_query = None\<rparr>)]
   = [Some (Ret True), Some (Ret True), Some (Ret True), Some (Ret False)]"
proof -
  let ?q = "\<lparr>q_limit = 0, q_op_limit = 0\<rparr>"
  let ?n = "\<lparr>net_acquire = Inr \<lparr>sock_id = 3, sock_master = True\<rparr>, net_query = None\<rparr>"
  let ?unm = "\<lambda>_ :: string. \<lparr>dq_Err = [], dq_ErrMsg = [], dq_Assertion = [], dq_Code = 0,
              dq_AssertionCode = 0, dq_LastError = None\<rparr>"
  let ?um = "\<lambda>_ :: string. None :: error option"
  let ?envs = "[([\<lparr>now_set = 0, now_check = 0, more_net = ?n,
         replies = [\<lparr>r_err = None, r_cursorId = 77, r_replyDocs = 2, r_docNum = 0,
                     r_docData = ''a''\<rparr>,
                    \<lparr>r_err = None, r_cursorId = 77, r_replyDocs = 2, r_docNum = 1,
                     r_docData = ''b''\<rparr>]\<rparr>], ?n, ?n),
      ([], ?n, ?n),
      ([\<lparr>now_set = 0, now_check = 0, more_net = ?n,
         replies = [\<lparr>r_err = None, r_cursorId = 77, r_replyDocs = 1, r_docNum = 0,
                     r_docData = ''c''\<rparr>]\<rparr>], ?n, ?n),
      ([], ?n, ?n)]"
  let ?run = "Next_run (\<lambda>_. 0) ?um ?unm (fst (Query_Iter (Limit ?q 3) ''db.c'' ?n)) ?envs"
  have sets: "sint (q_limit (Limit ?q (- 5))) = 5 \<and>
   sint (q_op_limit (Limit ?q (- 5))) = - 5 \<and>
   sint (q_limit (Limit ?q 5)) = 5 \<and>
   sint (q_op_limit (Limit ?q 5)) = 5 \<and>
   sint (q_limit (Limit ?q 1)) = 1 \<and>
   sint (q_op_limit (Limit ?q 1)) = - 1 \<and>
   sint (q_limit (Limit ?q (- 2147483648))) = 2147483647 \<and>
   sint (q_op_limit (Limit ?q (- 2147483648))) = - 2147483647"
    using Limit_in_int32_range [where n = "- 5" and q = ?q]
      Limit_in_int32_range [where n = 5 and q = ?q]
      Limit_in_int32_range [where n = 1 and q = ?q]
      Limit_in_int32_range [where n = "- 2147483648" and q = ?q]
    by simp
  have r3: "- 2147483648 \<le> sint (3 :: 64 word)" "sint (3 :: 64 word) \<le> 2147483647"
    "sint (3 :: 64 word) \<noteq> 0"
    by simp_all
  have l3: "nat (sint (q_limit (Limit ?q 3))) = 3"
    by (simp add: Limit_def int32_def word_sless_alt)
  from Limit_in_int32_range [OF r3(1,2), where q = ?q and pf = "\<lambda>_. 0" and um = ?um
        and unm = ?unm and coll = "''db.c''" and qn = ?n and envs = ?envs] r3(3)
  have "length (filter (\<lambda>x. x = Some (Ret True)) ?run) \<le> nat (sint (q_limit (Limit ?q 3)))"
    by blast
  then have cap: "length (filter (\<lambda>x. x = Some (Ret True)) ?run) \<le> 3"
    unfolding l3 .
  have run: "?run = [Some (Ret True), Some (Ret True), Some (Ret True), Some (Ret False)]"
    by (simp add: Query_Iter_def Limit_def int32_def Next_def Next_yield_def
        Next_deliver_def replyFunc_def checkQueryError_def word_sless_alt Let_def
        getMore_def killCursor_def)
  from sets cap run show ?thesis by simp
qed

text \<open>
  Outside the 32-bit range the conversion \<^verbatim>\<open>int32(n)\<close> wraps: \<^verbatim>\<open>Limit(4294967301)\<close> sets
  both limits to 5, and \<^verbatim>\<open>Limit(-2147483649)\<close> sets a negative client limit and a
  positive wire limit.
\<close>

theorem Limit_beyond_int32_counterexample:
  "sint (4294967301 :: 64 word) = 4294967301 \<and>
   sint (q_limit (Limit \<lparr>q_limit = 0, q_op_limit = 0\<rparr> 4294967301)) = 5 \<and>
   sint (q_op_limit (Limit \<lparr>q_limit = 0, q_op_limit = 0\<rparr> 4294967301)) = 5 \<and>
   sint (- 2147483649 :: 64 word) = - 2147483649 \<and>
   sint (q_limit (Limit \<lparr>q_limit = 0, q_op_limit = 0\<rparr> (- 2147483649))) = - 2147483647 \<and>
   sint (q_op_limit (Limit \<lparr>q_limit = 0, q_op_limit = 0\<rparr> (- 2147483649))) = 2147483647"
  by (simp add: Limit_def int32_def word_sless_alt)

text \<open>
  C10 (as amended). \<^verbatim>\<open>Query.Batch(1)\<close> and \<^verbatim>\<open>Session.SetBatch(1)\<close> store the wire batch
  size 2; every other argument in the signed 32-bit range is stored unchanged; the
  client limit is not touched.
\<close>

theorem Batch_in_int32_range:
  assumes lo: "- 2147483648 \<le> sint n" and hi: "sint n \<le> 2147483647"
  shows "sint (q_op_limit (Batch q n)) = (if sint n = 1 then 2 else sint n) \<and>
         q_limit (Batch q n) = q_limit q \<and>
         sint (q_op_limit (queryConfig (SetBatch s n))) = (if sint n = 1 then 2 else sint n) \<and>
         q_limit (queryConfig (SetBatch s n)) = q_limit (queryConfig s)"
  using lo hi by (simp add: Batch_def SetBatch_def sint_int32 n_eq_1)

text \<open>The theorem at \<open>n = 1\<close> and \<open>n = 200\<close>.\<close>

theorem Batch_in_int32_range_witness:
  "sint (q_op_limit (Batch \<lparr>q_limit = 0, q_op_limit = 0\<rparr> 1)) = 2 \<and>
   sint (q_op_limit (Batch \<lparr>q_limit = 0, q_op_limit = 0\<rparr> 200)) = 200 \<and>
   sint (q_op_limit (queryConfig (SetBatch (fst (newSession Strong (\<lambda>_. 0))) 1))) = 2"
  using Batch_in_int32_range [of 1 "\<lparr>q_limit = 0, q_op_limit = 0\<rparr>" "fst (newSession Strong (\<lambda>_. 0))"]
    Batch_in_int32_range [of 200 "\<lparr>q_limit = 0, q_op_limit = 0\<rparr>" "fst (newSession Strong (\<lambda>_. 0))"]
  by simp

text \<open>
  An argument other than 1 that is not stored unchanged: \<^verbatim>\<open>Batch(4294967297)\<close> stores
  the wire batch size 1.
\<close>

theorem Batch_beyond_int32_counterexample:
  "sint (4294967297 :: 64 word) = 4294967297 \<and>
   sint (q_op_limit (Batch \<lparr>q_limit = 0, q_op_limit = 0\<rparr> 4294967297)) = 1 \<and>
   sint (q_op_limit (queryConfig (SetBatch (fst (newSession Strong (\<lambda>_. 0))) 4294967297))) = 1"
  by (simp add: Batch_def SetBatch_def int32_def)

subsection \<open>Tailable cursors and the deadline\<close>

lemma replyFunc_keeps:
  "timedout (replyFunc pf it r) = timedout it"
  "locked (replyFunc pf it r) = locked it"
  "timeout (replyFunc pf it r) = timeout it"
  by (simp_all add: replyFunc_def Let_def split: option.splits)

lemma replies_keep:
  "timedout (foldl (replyFunc pf) it rs) = timedout it \<and>
   locked (foldl (replyFunc pf) it rs) = locked it \<and>
   timeout (foldl (replyFunc pf) it rs) = timeout it"
  by (induction rs arbitrary: it) (simp_all add: replyFunc_keeps)

lemma killCursor_timedout:
  "killCursor n it = (e, it1, sent) \<Longrightarrow> timedout it1 = timedout it"
  by (auto simp: killCursor_def Let_def split: if_splits sum.splits prod.splits)

lemma Next_deliver_timedout:
  "Next_deliver um unm mn d it sent = Ret (b, doc, it', sent') \<Longrightarrow>
   timedout it' = timedout it \<and> (\<exists>tl. sent' = sent @ tl)"
proof -
  obtain it2 s2 where g: "getMore mn it = (it2, s2)" by (cases "getMore mn it") auto
  assume "Next_deliver um unm mn d it sent = Ret (b, doc, it', sent')"
  with g getMore_keeps(5,7) [OF g] show ?thesis
    by (cases "um d"; cases "checkQueryError unm (op_collection it) d")
       (auto simp: Next_deliver_def Let_def split: if_splits)
qed

lemma Next_yield_timedout:
  assumes "Next_yield um unm kn mn it sent = Ret (b, doc, it', sent')"
  shows "timedout it' = timedout it \<and> (\<exists>tl. sent' = sent @ tl)"
proof (cases "docData it")
  case Nil
  with assms show ?thesis by (auto simp: Next_yield_def split: if_splits)
next
  case (Cons d rest)
  let ?it1 = "it\<lparr>docData := rest\<rparr>"
  let ?it2 = "?it1\<lparr>limit := limit ?it1 - 1\<rparr>"
  obtain ke it3 ks where k: "killCursor kn (?it2\<lparr>err := Some ErrNotFound\<rparr>) = (ke, it3, ks)"
    by (cases "killCursor kn (?it2\<lparr>err := Some ErrNotFound\<rparr>)") auto
  from killCursor_timedout [OF k] have t3: "timedout it3 = timedout it" by simp
  show ?thesis
  proof (cases "0 <s limit it")
    case False
    with Cons assms have "Next_deliver um unm mn d ?it1 sent = Ret (b, doc, it', sent')"
      by (simp add: Next_yield_def Let_def)
    from Next_deliver_timedout [OF this] show ?thesis by simp
  next
    case True
    show ?thesis
    proof (cases "limit it - 1 = 0")
      case False
      with True Cons assms have "Next_deliver um unm mn d ?it2 sent = Ret (b, doc, it', sent')"
        by (simp add: Next_yield_def Let_def)
      from Next_deliver_timedout [OF this] show ?thesis by simp
    next
      case z: True
      show ?thesis
      proof (cases "ke = None")
        case True
        with z \<open>0 <s limit it\<close> Cons assms k
        have "Next_deliver um unm mn d it3 (sent @ ks) = Ret (b, doc, it', sent')"
          by (simp add: Next_yield_def Let_def split: if_splits)
        from Next_deliver_timedout [OF this] t3 show ?thesis by auto
      next
        case False
        with z \<open>0 <s limit it\<close> Cons assms k t3 show ?thesis
          by (auto simp add: Next_yield_def Let_def split: if_splits)
      qed
    qed
  qed
qed

lemma Next_wait_TimedOut:
  "Next_wait pf it dl sent rounds = Some (TimedOut it' sent') \<Longrightarrow>
   timedout it' \<and> err it' = None \<and> op_cursorId it' \<noteq> 0 \<and> docData it' = [] \<and>
   docsToReceive it' = 0 \<and> locked it' = locked it"
proof (induction rounds arbitrary: it dl sent)
  case Nil
  then show ?case by (simp split: if_splits)
next
  case (Cons r rs)
  obtain it1 s1 where g: "getMore (more_net r) it = (it1, s1)"
    by (cases "getMore (more_net r) it") auto
  note lk = getMore_keeps(4) [OF g] replies_keep
  from Cons.prems g show ?case
    by (auto simp: Let_def lk split: if_splits option.splits dest!: Cons.IH)
qed

lemma Next_wait_Ready:
  "Next_wait pf it dl sent rounds = Some (Ready it' sent') \<Longrightarrow>
   timedout it' = timedout it \<and> locked it' = locked it"
proof (induction rounds arbitrary: it dl sent)
  case Nil
  then show ?case by (simp split: if_splits)
next
  case (Cons r rs)
  obtain it1 s1 where g: "getMore (more_net r) it = (it1, s1)"
    by (cases "getMore (more_net r) it") auto
  note lk = getMore_keeps(4,5) [OF g] replies_keep
  from Cons.prems g show ?case
    by (auto simp: Let_def lk split: if_splits option.splits dest!: Cons.IH)
qed

lemma Next_wait_prefix:
  "Next_wait pf it dl sent rounds = Some w \<Longrightarrow>
   \<exists>tl. (case w of TimedOut _ s \<Rightarrow> s | Ready _ s \<Rightarrow> s) = sent @ tl"
proof (induction rounds arbitrary: it dl sent)
  case Nil
  then show ?case by (auto split: if_splits)
next
  case (Cons r rs)
  obtain it1 s1 where g: "getMore (more_net r) it = (it1, s1)"
    by (cases "getMore (more_net r) it") auto
  from Cons.prems g show ?case
    by (auto simp: Let_def split: if_splits option.splits dest!: Cons.IH)
qed

lemma Next_waiting_wait:
  "Next_waiting pf it d qs = Some it1 \<Longrightarrow> 0 \<le> timeout it \<Longrightarrow>
   \<exists>s. Next_wait pf it (Some d) sent (qs @ rest) = Next_wait pf it1 (Some d) (sent @ s) rest \<and>
       timeout it1 = timeout it \<and> locked it1 = locked it \<and> timedout it1 = timedout it"
proof (induction qs arbitrary: it sent)
  case Nil
  then show ?case by (intro exI [of _ "[]"]) simp
next
  case (Cons r qs)
  obtain ita s1 where g: "getMore (more_net r) it = (ita, s1)"
    by (cases "getMore (more_net r) it") auto
  note k = getMore_keeps(4,5,6) [OF g] replies_keep
  from Cons.prems(1) have c: "err it = None" "docData it = []"
    "0 < docsToReceive it \<or> op_cursorId it \<noteq> 0" "replies r \<noteq> []"
    by (simp_all split: if_splits)
  show ?case
  proof (cases "docsToReceive it = 0")
    case True
    let ?itb = "foldl (replyFunc pf) ita (replies r)"
    from Cons.prems(1) c True g have nd: "\<not> d < now_check r"
      and nr: "\<not> docsToReceive ita \<le> 0"
      and w: "Next_waiting pf ?itb d qs = Some it1"
      by (simp_all split: if_splits)
    have tb: "0 \<le> timeout ?itb" using Cons.prems(2) k by simp
    from Cons.IH [OF w tb, of "sent @ s1"] obtain s
      where "Next_wait pf ?itb (Some d) (sent @ s1) (qs @ rest) =
               Next_wait pf it1 (Some d) ((sent @ s1) @ s) rest"
        "timeout it1 = timeout ?itb" "locked it1 = locked ?itb" "timedout it1 = timedout ?itb"
      by blast
    with c True g nd nr Cons.prems(2) k show ?thesis
      by (intro exI [of _ "s1 @ s"]) simp
  next
    case False
    let ?itb = "foldl (replyFunc pf) it (replies r)"
    from Cons.prems(1) c False have nr: "\<not> docsToReceive it \<le> 0"
      and w: "Next_waiting pf ?itb d qs = Some it1"
      by (simp_all split: if_splits)
    have tb: "0 \<le> timeout ?itb" using Cons.prems(2) replies_keep by simp
    from Cons.IH [OF w tb, of sent] obtain s
      where "Next_wait pf ?itb (Some d) sent (qs @ rest) =
               Next_wait pf it1 (Some d) (sent @ s) rest"
        "timeout it1 = timeout ?itb" "locked it1 = locked ?itb" "timedout it1 = timedout ?itb"
      by blast
    with c False nr replies_keep show ?thesis
      by (intro exI [of _ s]) simp
  qed
qed

lemma Next_wait_expired:
  assumes "err it = None" "op_cursorId it \<noteq> 0" "docData it = []" "docsToReceive it = 0"
    "0 \<le> timeout it" "d < now_check r"
  shows "Next_wait pf it (Some d) sent (r # rs) = Some (TimedOut (it\<lparr>timedout := True\<rparr>) sent)"
  using assms by simp

lemma Next_wait_first_turn:
  assumes "err it = None" "op_cursorId it \<noteq> 0" "docData it = []" "docsToReceive it = 0"
    "0 \<le> timeout it"
  shows "Next_wait pf it None sent (r # rs) =
         Next_wait pf it (Some (now_set r + timeout it)) sent (r # rs)"
  using assms by simp

text \<open>
  C7. Let the iterator have a free mutex, no error, a non-zero cursor id, an empty queue,
  no reply outstanding and a timeout that is not negative (a tailable cursor with a
  finite timeout, having reached the end of the data). The deadline is the clock read in
  the first turn of the waiting loop plus the timeout. Let the loop go on waiting for
  any number of turns \<open>qs\<close> (each brings a reply, none finds the deadline passed) and
  reach, with no error, a non-zero cursor id, an empty queue and no reply outstanding, a
  turn whose clock is after that deadline: then \<^verbatim>\<open>Next\<close> returns false and leaves the
  iterator as it was at that turn but for the timed-out flag, so \<^verbatim>\<open>Timeout()\<close> is true,
  the error is nil and the cursor id is non-zero. With no turn before it, the iterator is
  the one \<^verbatim>\<open>Next\<close> was called on, only its flag set. Whenever \<^verbatim>\<open>Next\<close> returns with the
  flag set, it returned false, the error is nil and the cursor id is non-zero. A
  following \<^verbatim>\<open>Next\<close> clears the flag on entry (it runs as on the iterator with the flag
  false), and when the deadline has not passed at its first check it first sends a
  get-more request for the same cursor id.
\<close>

theorem Next_tailable_timeout:
  assumes free: "\<not> locked it" and alive: "err it = None" "op_cursorId it \<noteq> 0"
    and drained: "docData it = []" "docsToReceive it = 0"
    and finite: "0 \<le> timeout it"
  shows "(\<forall>it1.
            Next_waiting pf (it\<lparr>locked := True, timedout := False\<rparr>)
              (now_set (hd (qs @ [r])) + timeout it) qs = Some it1 \<and>
            err it1 = None \<and> op_cursorId it1 \<noteq> 0 \<and> docData it1 = [] \<and>
            docsToReceive it1 = 0 \<and>
            now_set (hd (qs @ [r])) + timeout it < now_check r \<longrightarrow>
            (\<exists>sent. Next pf um unm (qs @ r # rs) kn mn it =
                      Some (Ret (False, None, it1\<lparr>timedout := True, locked := False\<rparr>, sent))) \<and>
            Timeout (it1\<lparr>timedout := True, locked := False\<rparr>) = Some True) \<and>
         (now_set r + timeout it < now_check r \<longrightarrow>
            Next pf um unm (r # rs) kn mn it =
              Some (Ret (False, None, it\<lparr>timedout := True\<rparr>, [])) \<and>
            Timeout (it\<lparr>timedout := True\<rparr>) = Some True) \<and>
         (\<forall>b doc it' sent.
            Next pf um unm rounds kn mn it = Some (Ret (b, doc, it', sent)) \<and> timedout it' \<longrightarrow>
            \<not> b \<and> doc = None \<and> err it' = None \<and> op_cursorId it' \<noteq> 0 \<and>
            Timeout it' = Some True) \<and>
         Next pf um unm rounds kn mn (it\<lparr>timedout := True\<rparr>) =
           Next pf um unm rounds kn mn (it\<lparr>timedout := False\<rparr>) \<and>
         (\<forall>sock b doc it' sent.
            \<not> now_set r + timeout it < now_check r \<and> net_acquire (more_net r) = Inr sock \<and>
            Next pf um unm (r # rs) kn mn (it\<lparr>timedout := True\<rparr>) =
              Some (Ret (b, doc, it', sent)) \<longrightarrow>
            (\<exists>l tl. sent = (sock, GetMore (op_collection it) l (op_cursorId it)) # tl))"
proof -
  let ?it0 = "it\<lparr>locked := True, timedout := False\<rparr>"
  have w0: "err ?it0 = None" "op_cursorId ?it0 \<noteq> 0" "docData ?it0 = []"
    "docsToReceive ?it0 = 0" "0 \<le> timeout ?it0"
    using alive drained finite by simp_all
  have G: "\<forall>it1.
            Next_waiting pf ?it0 (now_set (hd (qs @ [r])) + timeout it) qs = Some it1 \<and>
            err it1 = None \<and> op_cursorId it1 \<noteq> 0 \<and> docData it1 = [] \<and>
            docsToReceive it1 = 0 \<and>
            now_set (hd (qs @ [r])) + timeout it < now_check r \<longrightarrow>
            (\<exists>sent. Next pf um unm (qs @ r # rs) kn mn it =
                      Some (Ret (False, None, it1\<lparr>timedout := True, locked := False\<rparr>, sent))) \<and>
            Timeout (it1\<lparr>timedout := True, locked := False\<rparr>) = Some True"
  proof (intro allI impI)
    fix it1
    let ?d = "now_set (hd (qs @ [r])) + timeout it"
    assume a: "Next_waiting pf ?it0 ?d qs = Some it1 \<and>
            err it1 = None \<and> op_cursorId it1 \<noteq> 0 \<and> docData it1 = [] \<and>
            docsToReceive it1 = 0 \<and> ?d < now_check r"
    then have nw: "Next_waiting pf ?it0 ?d qs = Some it1"
      and w1: "err it1 = None" "op_cursorId it1 \<noteq> 0" "docData it1 = []" "docsToReceive it1 = 0"
      and ex: "?d < now_check r"
      by blast+
    from Next_waiting_wait [OF nw w0(5), of "[]" "r # rs"] obtain s
      where st: "Next_wait pf ?it0 (Some ?d) [] (qs @ r # rs) =
                  Next_wait pf it1 (Some ?d) ([] @ s) (r # rs)"
        and t1: "timeout it1 = timeout ?it0"
      by blast
    from t1 finite have f1: "0 \<le> timeout it1" by simp
    have first: "Next_wait pf ?it0 None [] (qs @ r # rs) =
                 Next_wait pf ?it0 (Some ?d) [] (qs @ r # rs)"
    proof (cases qs)
      case Nil
      with Next_wait_first_turn [OF w0, of pf "[]" r rs] show ?thesis by simp
    next
      case (Cons r1 qs')
      with Next_wait_first_turn [OF w0, of pf "[]" r1 "qs' @ r # rs"] show ?thesis by simp
    qed
    have "Next_wait pf ?it0 None [] (qs @ r # rs) = Some (TimedOut (it1\<lparr>timedout := True\<rparr>) s)"
      unfolding first st using Next_wait_expired [OF w1 f1 ex, of pf s rs] by simp
    with free have "Next pf um unm (qs @ r # rs) kn mn it =
        Some (Ret (False, None, it1\<lparr>timedout := True, locked := False\<rparr>, s))"
      by (simp add: Next_def del: Next_wait.simps)
    then show "(\<exists>sent. Next pf um unm (qs @ r # rs) kn mn it =
                      Some (Ret (False, None, it1\<lparr>timedout := True, locked := False\<rparr>, sent))) \<and>
            Timeout (it1\<lparr>timedout := True, locked := False\<rparr>) = Some True"
      by (auto simp: Timeout_def)
  qed
  have A: "now_set r + timeout it < now_check r \<longrightarrow>
            Next pf um unm (r # rs) kn mn it =
              Some (Ret (False, None, it\<lparr>timedout := True\<rparr>, [])) \<and>
            Timeout (it\<lparr>timedout := True\<rparr>) = Some True"
  proof
    assume ex: "now_set r + timeout it < now_check r"
    have "it\<lparr>locked := True, timedout := True, locked := False\<rparr> = it\<lparr>timedout := True\<rparr>"
      using free by simp
    with ex free alive drained finite
    show "Next pf um unm (r # rs) kn mn it =
              Some (Ret (False, None, it\<lparr>timedout := True\<rparr>, [])) \<and>
            Timeout (it\<lparr>timedout := True\<rparr>) = Some True"
      by (simp add: Next_def Timeout_def)
  qed
  have B: "\<forall>b doc it' sent.
            Next pf um unm rounds kn mn it = Some (Ret (b, doc, it', sent)) \<and> timedout it' \<longrightarrow>
            \<not> b \<and> doc = None \<and> err it' = None \<and> op_cursorId it' \<noteq> 0 \<and>
            Timeout it' = Some True"
  proof (intro allI impI, elim conjE)
    fix b doc it' sent
    assume n: "Next pf um unm rounds kn mn it = Some (Ret (b, doc, it', sent))"
      and t: "timedout it'"
    show "\<not> b \<and> doc = None \<and> err it' = None \<and> op_cursorId it' \<noteq> 0 \<and> Timeout it' = Some True"
    proof (cases "Next_wait pf ?it0 None [] rounds")
      case None
      with n free show ?thesis by (simp add: Next_def)
    next
      case (Some w)
      show ?thesis
      proof (cases w)
        case (TimedOut it1 s1)
        with Some n free have eq: "b = False" "doc = None" "it' = it1\<lparr>locked := False\<rparr>"
          by (simp_all add: Next_def)
        from Some TimedOut Next_wait_TimedOut [of pf ?it0 None "[]" rounds it1 s1]
        have "err it1 = None" "op_cursorId it1 \<noteq> 0" by simp_all
        with eq t show ?thesis by (simp add: Timeout_def)
      next
        case (Ready it1 s1)
        with Some n free have y: "Next_yield um unm kn mn it1 s1 = Ret (b, doc, it', sent)"
          by (simp add: Next_def)
        from Some Ready Next_wait_Ready [of pf ?it0 None "[]" rounds it1 s1]
        have "\<not> timedout it1" by simp
        with Next_yield_timedout [OF y] t show ?thesis by simp
      qed
    qed
  qed
  have C: "Next pf um unm rounds kn mn (it\<lparr>timedout := True\<rparr>) =
           Next pf um unm rounds kn mn (it\<lparr>timedout := False\<rparr>)"
    by (simp add: Next_def)
  have D: "\<forall>sock b doc it' sent.
            \<not> now_set r + timeout it < now_check r \<and> net_acquire (more_net r) = Inr sock \<and>
            Next pf um unm (r # rs) kn mn (it\<lparr>timedout := True\<rparr>) =
              Some (Ret (b, doc, it', sent)) \<longrightarrow>
            (\<exists>l tl. sent = (sock, GetMore (op_collection it) l (op_cursorId it)) # tl)"
  proof (intro allI impI, elim conjE)
    fix sock b doc it' sent
    assume ne: "\<not> now_set r + timeout it < now_check r"
      and acq: "net_acquire (more_net r) = Inr sock"
      and n: "Next pf um unm (r # rs) kn mn (it\<lparr>timedout := True\<rparr>) =
              Some (Ret (b, doc, it', sent))"
    obtain it1 s1 where g: "getMore (more_net r) ?it0 = (it1, s1)"
      by (cases "getMore (more_net r) ?it0") auto
    from g acq obtain l where s1: "s1 = [(sock, GetMore (op_collection it) l (op_cursorId it))]"
      by (auto simp: getMore_def Let_def split: if_splits option.splits)
    let ?it2 = "foldl (replyFunc pf) it1 (replies r)"
    have w: "Next_wait pf ?it0 None [] (r # rs) =
        (if replies r = [] \<or> docsToReceive it1 \<le> 0 then None
         else Next_wait pf ?it2 (Some (now_set r + timeout it)) s1 rs)"
      using ne alive drained finite g by simp
    show "\<exists>l tl. sent = (sock, GetMore (op_collection it) l (op_cursorId it)) # tl"
    proof (cases "if replies r = [] \<or> docsToReceive it1 \<le> 0 then None
         else Next_wait pf ?it2 (Some (now_set r + timeout it)) s1 rs")
      case None
      with w have "Next_wait pf ?it0 None [] (r # rs) = None" by (simp only:)
      with n free show ?thesis by (simp add: Next_def del: Next_wait.simps)
    next
      case (Some wr)
      then have sw: "Next_wait pf ?it2 (Some (now_set r + timeout it)) s1 rs = Some wr"
        by (simp split: if_splits)
      from Next_wait_prefix [OF sw] obtain tl
        where p: "(case wr of TimedOut _ s \<Rightarrow> s | Ready _ s \<Rightarrow> s) = s1 @ tl" by blast
      from w Some have nw: "Next_wait pf ?it0 None [] (r # rs) = Some wr" by (simp only:)
      show ?thesis
      proof (cases wr)
        case (TimedOut it3 s3)
        with nw n free p s1 show ?thesis by (auto simp add: Next_def simp del: Next_wait.simps)
      next
        case (Ready it3 s3)
        with nw n free have "Next_yield um unm kn mn it3 s3 = Ret (b, doc, it', sent)"
          by (simp add: Next_def del: Next_wait.simps)
        from Next_yield_timedout [OF this] obtain tl' where "sent = s3 @ tl'" by blast
        with Ready p s1 show ?thesis by simp
      qed
    qed
  qed
  from G A B C D show ?thesis by blast
qed

text \<open>
  The theorem on a tailable iterator with cursor 42 and a timeout of 5. The first turn
  sets the deadline at 0 + 5, asks for more and gets a reply without documents; the
  second turn reads the clock at 10, after the deadline. The next call, started at 10,
  asks for more and hands out the document that the reply brings.
\<close>

theorem Next_tailable_timeout_witness:
  "Next (\<lambda>_. 0) (\<lambda>_. None)
     (\<lambda>_. \<lparr>dq_Err = [], dq_ErrMsg = [], dq_Assertion = [], dq_Code = 0,
            dq_AssertionCode = 0, dq_LastError = None\<rparr>)
     [\<lparr>now_set = 0, now_check = 1,
        more_net = \<lparr>net_acquire = Inr \<lparr>sock_id = 3, sock_master = True\<rparr>, net_query = None\<rparr>,
        replies = [\<lparr>r_err = None, r_cursorId = 42, r_replyDocs = 0, r_docNum = - 1,
                    r_docData = []\<rparr>]\<rparr>,
      \<lparr>now_set = 9, now_check = 10,
        more_net = \<lparr>net_acquire = Inr \<lparr>sock_id = 3, sock_master = True\<rparr>, net_query = None\<rparr>,
        replies = []\<rparr>]
     \<lparr>net_acquire = Inr \<lparr>sock_id = 3, sock_master = True\<rparr>, net_query = None\<rparr>
     \<lparr>net_acquire = Inr \<lparr>sock_id = 3, sock_master = True\<rparr>, net_query = None\<rparr>
     \<lparr>locked = False, docData = [], err = None, op_collection = ''db.c'', op_limit = 0,
      op_cursorId = 42, limit = 0, docsToReceive = 0, docsBeforeMore = 0, timeout = 5,
      timedout = False\<rparr>
   = Some (Ret (False, None,
       \<lparr>locked = False, docData = [], err = None, op_collection = ''db.c'', op_limit = 0,
        op_cursorId = 42, limit = 0, docsToReceive = 0, docsBeforeMore = 0, timeout = 5,
        timedout = True\<rparr>,
       [(\<lparr>sock_id = 3, sock_master = True\<rparr>, GetMore ''db.c'' 0 42)])) \<and>
   (\<exists>it'. Next (\<lambda>_. 0) (\<lambda>_. None)
     (\<lambda>_. \<lparr>dq_Err = [], dq_ErrMsg = [], dq_Assertion = [], dq_Code = 0,
            dq_AssertionCode = 0, dq_LastError = None\<rparr>)
     [\<lparr>now_set = 10, now_check = 11,
        more_net = \<lparr>net_acquire = Inr \<lparr>sock_id = 3, sock_master = True\<rparr>, net_query = None\<rparr>,
        replies = [\<lparr>r_err = None, r_cursorId = 42, r_replyDocs = 1, r_docNum = 0,
                    r_docData = ''doc''\<rparr>]\<rparr>]
     \<lparr>net_acquire = Inr \<lparr>sock_id = 3, sock_master = True\<rparr>, net_query = None\<rparr>
     \<lparr>net_acquire = Inr \<lparr>sock_id = 3, sock_master = True\<rparr>, net_query = None\<rparr>
     \<lparr>locked = False, docData = [], err = None, op_collection = ''db.c'', op_limit = 0,
      op_cursorId = 42, limit = 0, docsToReceive = 0, docsBeforeMore = 0, timeout = 5,
      timedout = True\<rparr>
   = Some (Ret (True, Some ''doc'', it',
                [(\<lparr>sock_id = 3, sock_master = True\<rparr>, GetMore ''db.c'' 0 42)])) \<and>
     \<not> timedout it' \<and> op_cursorId it' = 42)"
proof -
  let ?it = "\<lparr>locked = False, docData = [], err = None, op_collection = ''db.c'', op_limit = 0,
      op_cursorId = 42, limit = 0, docsToReceive = 0, docsBeforeMore = 0, timeout = 5,
      timedout = False\<rparr>"
  let ?n = "\<lparr>net_acquire = Inr \<lparr>sock_id = 3, sock_master = True\<rparr>, net_query = None\<rparr>"
  let ?unm = "\<lambda>_ :: string. \<lparr>dq_Err = [], dq_ErrMsg = [], dq_Assertion = [], dq_Code = 0,
              dq_AssertionCode = 0, dq_LastError = None\<rparr>"
  let ?um = "\<lambda>_ :: string. None :: error option"
  let ?r1 = "\<lparr>now_set = 0, now_check = 1, more_net = ?n,
        replies = [\<lparr>r_err = None, r_cursorId = 42, r_replyDocs = 0, r_docNum = - 1,
                    r_docData = []\<rparr>]\<rparr>"
  let ?r2 = "\<lparr>now_set = 9, now_check = 10, more_net = ?n, replies = []\<rparr>"
  have h: "\<not> locked ?it" "err ?it = None" "op_cursorId ?it \<noteq> 0" "docData ?it = []"
    "docsToReceive ?it = 0" "0 \<le> timeout ?it"
    by simp_all
  have q: "Next_waiting (\<lambda>_. 0) (?it\<lparr>locked := True, timedout := False\<rparr>)
      (now_set (hd ([?r1] @ [?r2])) + timeout ?it) [?r1] =
      Some (?it\<lparr>locked := True\<rparr>)"
    by (simp add: getMore_def replyFunc_def word_sless_alt Let_def)
  note t = Next_tailable_timeout [OF h, where qs = "[?r1]" and r = ?r2 and rs = "[]"
      and pf = "\<lambda>_. 0" and um = ?um and unm = ?unm and kn = ?n and mn = ?n,
      THEN conjunct1, THEN spec, where x = "?it\<lparr>locked := True\<rparr>"]
  have "\<exists>sent. Next (\<lambda>_. 0) ?um ?unm ([?r1] @ ?r2 # []) ?n ?n ?it =
      Some (Ret (False, None, ?it\<lparr>locked := True, timedout := True, locked := False\<rparr>, sent))"
    using t q by simp
  then obtain sent where 1: "Next (\<lambda>_. 0) ?um ?unm [?r1, ?r2] ?n ?n ?it =
      Some (Ret (False, None, ?it\<lparr>timedout := True\<rparr>, sent))"
    by auto
  have "Next (\<lambda>_. 0) ?um ?unm [?r1, ?r2] ?n ?n ?it =
      Some (Ret (False, None, ?it\<lparr>timedout := True\<rparr>,
        [(\<lparr>sock_id = 3, sock_master = True\<rparr>, GetMore ''db.c'' 0 42)]))"
    by (simp add: Next_def getMore_def replyFunc_def word_sless_alt Let_def)
  with 1 have 1: "Next (\<lambda>_. 0) ?um ?unm [?r1, ?r2] ?n ?n ?it =
      Some (Ret (False, None, ?it\<lparr>timedout := True\<rparr>,
        [(\<lparr>sock_id = 3, sock_master = True\<rparr>, GetMore ''db.c'' 0 42)]))"
    by simp
  have 2: "Next (\<lambda>_. 0) ?um ?unm
     [\<lparr>now_set = 10, now_check = 11, more_net = ?n,
        replies = [\<lparr>r_err = None, r_cursorId = 42, r_replyDocs = 1, r_docNum = 0,
                    r_docData = ''doc''\<rparr>]\<rparr>] ?n ?n (?it\<lparr>timedout := True\<rparr>)
     = Some (Ret (True, Some ''doc'',
         ?it\<lparr>docsBeforeMore := 0\<rparr>,
         [(\<lparr>sock_id = 3, sock_master = True\<rparr>, GetMore ''db.c'' 0 42)]))"
    by (simp add: Next_def Next_yield_def Next_deliver_def getMore_def replyFunc_def
        checkQueryError_def word_sless_alt Let_def)
  from 1 2 show ?thesis by simp
qed

subsection \<open>Connection options\<close>

lemma dialOptions_supported:
  "(\<forall>k v. (k, v) \<in> set xs \<longrightarrow> k = ''connect'' \<and> (v = ''direct'' \<or> v = ''replicaSet'')) \<Longrightarrow>
   dialOptions xs d = Inr (d \<or> (''connect'', ''direct'') \<in> set xs)"
proof (induction xs arbitrary: d)
  case Nil
  then show ?case by simp
next
  case (Cons x xs)
  obtain k v where x: "x = (k, v)" by (cases x)
  from Cons.prems x have kv: "k = ''connect''" "v = ''direct'' \<or> v = ''replicaSet''" by auto
  from Cons.prems have "\<forall>k v. (k, v) \<in> set xs \<longrightarrow> k = ''connect'' \<and> (v = ''direct'' \<or> v = ''replicaSet'')"
    by auto
  note IH = Cons.IH [OF this]
  from kv show ?case unfolding x by (auto simp: IH)
qed

lemma dialOptions_unsupported:
  "(k, v) \<in> set xs \<Longrightarrow> \<not> (k = ''connect'' \<and> (v = ''direct'' \<or> v = ''replicaSet'')) \<Longrightarrow>
   \<exists>k' v'. (k', v') \<in> set xs \<and> \<not> (k' = ''connect'' \<and> (v' = ''direct'' \<or> v' = ''replicaSet'')) \<and>
     dialOptions xs d = Inl (ErrMsg (''Unsupported connection URL option: '' @ k' @ ''='' @ v'))"
proof (induction xs arbitrary: d)
  case Nil
  then show ?case by simp
next
  case (Cons x xs)
  obtain a b where x: "x = (a, b)" by (cases x)
  show ?case
  proof (cases "a = ''connect'' \<and> (b = ''direct'' \<or> b = ''replicaSet'')")
    case True
    with Cons.prems x have "(k, v) \<in> set xs" by auto
    from Cons.IH [OF this Cons.prems(2)] True show ?thesis
      unfolding x by (cases "b = ''direct''") (simp, blast, simp, blast)
  next
    case False
    then have "dialOptions (x # xs) d =
        Inl (ErrMsg (''Unsupported connection URL option: '' @ a @ ''='' @ b))"
      unfolding x by auto
    with False x show ?thesis by (intro exI [of _ a] exI [of _ b]) simp
  qed
qed

lemma parseOptions_malformed:
  "pair \<in> set pairs \<Longrightarrow>
   \<not> (\<exists>k v. strings_SplitN2 pair CHR ''='' = [k, v] \<and> k \<noteq> [] \<and> v \<noteq> []) \<Longrightarrow>
   \<exists>e. parseOptions pairs opts = Inl e"
proof (induction pairs arbitrary: opts)
  case Nil
  then show ?case by simp
next
  case (Cons p ps)
  show ?case
  proof (cases "\<exists>k v. strings_SplitN2 p CHR ''='' = [k, v] \<and> k \<noteq> [] \<and> v \<noteq> []")
    case True
    then obtain k v where kv: "strings_SplitN2 p CHR ''='' = [k, v]" "k \<noteq> []" "v \<noteq> []" by blast
    with Cons.prems have "pair \<in> set ps" by auto
    from Cons.IH [OF this Cons.prems(2)] kv show ?thesis by simp
  next
    case False
    then show ?thesis
      by (auto split: list.splits)
  qed
qed

text \<open>
  C9 (as amended). Whatever the order in which the option map is visited:
  \<^verbatim>\<open>DialWithTimeout\<close> returns the error of \<^verbatim>\<open>parseURL\<close> when the string does not parse;
  when the parsed options (one value for each key, the last one written) hold a pair
  other than \<^verbatim>\<open>connect=direct\<close> and \<^verbatim>\<open>connect=replicaSet\<close>, it returns the error
  "Unsupported connection URL option" for such a pair and no session; otherwise it is
  \<^verbatim>\<open>DialWithInfo\<close> on the parsed addresses and credentials, with \<^verbatim>\<open>Direct\<close> true exactly
  when the options hold \<^verbatim>\<open>connect=direct\<close>. A pair of the query section that is not of
  the form key=value, with both parts non-empty, makes \<^verbatim>\<open>parseURL\<close> fail.
\<close>

theorem DialWithTimeout_options:
  assumes visit: "\<And>xs. set (visit xs) = set xs"
  shows "(\<forall>e. parseURL url = Inl e \<longrightarrow> DialWithTimeout visit dwi url tmo = Inl e) \<and>
         (\<forall>uinfo. parseURL url = Inr uinfo \<longrightarrow>
            ((\<exists>k v. (k, v) \<in> set (options uinfo) \<and>
                    \<not> (k = ''connect'' \<and> (v = ''direct'' \<or> v = ''replicaSet''))) \<longrightarrow>
             (\<exists>k v. (k, v) \<in> set (options uinfo) \<and>
                    \<not> (k = ''connect'' \<and> (v = ''direct'' \<or> v = ''replicaSet'')) \<and>
                    DialWithTimeout visit dwi url tmo =
                      Inl (ErrMsg (''Unsupported connection URL option: '' @ k @ ''='' @ v)))) \<and>
            ((\<forall>k v. (k, v) \<in> set (options uinfo) \<longrightarrow>
                    k = ''connect'' \<and> (v = ''direct'' \<or> v = ''replicaSet'')) \<longrightarrow>
             DialWithTimeout visit dwi url tmo =
               dwi \<lparr>Addrs = addrs uinfo,
                    Direct = ((''connect'', ''direct'') \<in> set (options uinfo)),
                    Timeout_d = tmo, Username = user uinfo, Password = pass uinfo,
                    Database = db uinfo\<rparr>)) \<and>
         (\<forall>c pair.
            strings_Index (if take 10 url = ''mongodb://'' then drop 10 url else url) CHR ''?''
              = Some c \<and>
            pair \<in> set (strings_FieldsFunc
                          (drop (c + 1) (if take 10 url = ''mongodb://'' then drop 10 url else url))
                          isOptSep) \<and>
            \<not> (\<exists>k v. strings_SplitN2 pair CHR ''='' = [k, v] \<and> k \<noteq> [] \<and> v \<noteq> []) \<longrightarrow>
            (\<exists>e. parseURL url = Inl e \<and> DialWithTimeout visit dwi url tmo = Inl e))"
proof (intro conjI allI impI)
  fix e assume "parseURL url = Inl e"
  then show "DialWithTimeout visit dwi url tmo = Inl e" by (simp add: DialWithTimeout_def)
next
  fix uinfo
  assume p: "parseURL url = Inr uinfo"
    and "\<exists>k v. (k, v) \<in> set (options uinfo) \<and>
               \<not> (k = ''connect'' \<and> (v = ''direct'' \<or> v = ''replicaSet''))"
  then obtain k v where "(k, v) \<in> set (visit (options uinfo))"
    "\<not> (k = ''connect'' \<and> (v = ''direct'' \<or> v = ''replicaSet''))"
    using visit by blast
  from dialOptions_unsupported [OF this, of False] obtain k' v'
    where m: "(k', v') \<in> set (visit (options uinfo))"
      and u: "\<not> (k' = ''connect'' \<and> (v' = ''direct'' \<or> v' = ''replicaSet''))"
      and d: "dialOptions (visit (options uinfo)) False =
          Inl (ErrMsg (''Unsupported connection URL option: '' @ k' @ ''='' @ v'))"
    by blast
  from p d have "DialWithTimeout visit dwi url tmo =
      Inl (ErrMsg (''Unsupported connection URL option: '' @ k' @ ''='' @ v'))"
    by (simp add: DialWithTimeout_def)
  with m u show "\<exists>k v. (k, v) \<in> set (options uinfo) \<and>
               \<not> (k = ''connect'' \<and> (v = ''direct'' \<or> v = ''replicaSet'')) \<and>
               DialWithTimeout visit dwi url tmo =
                 Inl (ErrMsg (''Unsupported connection URL option: '' @ k @ ''='' @ v))"
    unfolding visit by blast
next
  fix uinfo
  assume p: "parseURL url = Inr uinfo"
    and "\<forall>k v. (k, v) \<in> set (options uinfo) \<longrightarrow>
               k = ''connect'' \<and> (v = ''direct'' \<or> v = ''replicaSet'')"
  then have "\<forall>k v. (k, v) \<in> set (visit (options uinfo)) \<longrightarrow>
               k = ''connect'' \<and> (v = ''direct'' \<or> v = ''replicaSet'')"
    using visit by simp
  from dialOptions_supported [OF this, of False] p
  show "DialWithTimeout visit dwi url tmo =
               dwi \<lparr>Addrs = addrs uinfo,
                    Direct = ((''connect'', ''direct'') \<in> set (options uinfo)),
                    Timeout_d = tmo, Username = user uinfo, Password = pass uinfo,
                    Database = db uinfo\<rparr>"
    by (simp add: DialWithTimeout_def visit)
next
  fix c pair
  let ?u = "if take 10 url = ''mongodb://'' then drop 10 url else url"
  assume "strings_Index ?u CHR ''?'' = Some c \<and>
     pair \<in> set (strings_FieldsFunc (drop (c + 1) ?u) isOptSep) \<and>
     \<not> (\<exists>k v. strings_SplitN2 pair CHR ''='' = [k, v] \<and> k \<noteq> [] \<and> v \<noteq> [])"
  then have i: "strings_Index ?u CHR ''?'' = Some c"
    and m: "pair \<in> set (strings_FieldsFunc (drop (c + 1) ?u) isOptSep)"
    and b: "\<not> (\<exists>k v. strings_SplitN2 pair CHR ''='' = [k, v] \<and> k \<noteq> [] \<and> v \<noteq> [])"
    by blast+
  from parseOptions_malformed [OF m b, of "[]"] obtain e
    where "parseOptions (strings_FieldsFunc (drop (c + 1) ?u) isOptSep) [] = Inl e" by blast
  with i have "parseURL url = Inl e" by (simp add: parseURL_def Let_def)
  then show "\<exists>e. parseURL url = Inl e \<and> DialWithTimeout visit dwi url tmo = Inl e"
    by (simp add: DialWithTimeout_def)
qed

lemma parseURL_direct:
  "parseURL ''mongodb://u:p@h1:1,h2/mydb?connect=direct'' =
     Inr \<lparr>addrs = [''h1:1'', ''h2''], user = ''u'', pass = ''p'', db = ''mydb'',
          options = [(''connect'', ''direct'')]\<rparr>"
  by code_simp

lemma parseURL_safe:
  "parseURL ''localhost?safe=true'' =
     Inr \<lparr>addrs = [''localhost''], user = [], pass = [], db = [],
          options = [(''safe'', ''true'')]\<rparr>"
  by code_simp

text \<open>The theorem for a map visited in reverse, with \<^verbatim>\<open>connect=direct\<close> and with
  \<^verbatim>\<open>safe=true\<close>; \<^verbatim>\<open>DialWithInfo\<close> stands as the function that returns its argument.\<close>

theorem DialWithTimeout_options_witness:
  "DialWithTimeout rev Inr ''mongodb://u:p@h1:1,h2/mydb?connect=direct'' 10 =
     Inr \<lparr>Addrs = [''h1:1'', ''h2''], Direct = True, Timeout_d = 10, Username = ''u'',
          Password = ''p'', Database = ''mydb''\<rparr> \<and>
   DialWithTimeout rev (Inr :: DialInfo \<Rightarrow> error + DialInfo) ''localhost?safe=true'' 10 =
     Inl (ErrMsg ''Unsupported connection URL option: safe=true'')"
proof -
  have v: "\<And>xs :: (string \<times> string) list. set (rev xs) = set xs" by simp
  note T = DialWithTimeout_options [of rev, OF v]
  from T [of "''mongodb://u:p@h1:1,h2/mydb?connect=direct''" "Inr :: DialInfo \<Rightarrow> error + DialInfo" 10]
    parseURL_direct
  have 1: "DialWithTimeout rev Inr ''mongodb://u:p@h1:1,h2/mydb?connect=direct'' 10 =
     Inr \<lparr>Addrs = [''h1:1'', ''h2''], Direct = True, Timeout_d = 10, Username = ''u'',
          Password = ''p'', Database = ''mydb''\<rparr>"
    by simp
  from T [of "''localhost?safe=true''" "Inr :: DialInfo \<Rightarrow> error + DialInfo" 10] parseURL_safe
  have 2: "DialWithTimeout rev (Inr :: DialInfo \<Rightarrow> error + DialInfo) ''localhost?safe=true'' 10 =
     Inl (ErrMsg ''Unsupported connection URL option: safe=true'')"
    by simp
  from 1 2 show ?thesis by simp
qed

text \<open>
  The claim as stated fails: \<^verbatim>\<open>connect=replicaSet\<close> is a pair other than
  \<^verbatim>\<open>connect=direct\<close> and is accepted (with \<^verbatim>\<open>Direct\<close> false), and an unsupported pair
  that a later pair of the same key overwrites is accepted too.
\<close>

theorem DialWithTimeout_replicaSet_counterexample:
  "DialWithTimeout id Inr ''localhost?connect=replicaSet'' 10 =
     Inr \<lparr>Addrs = [''localhost''], Direct = False, Timeout_d = 10, Username = [],
          Password = [], Database = []\<rparr> \<and>
   DialWithTimeout id Inr ''localhost?connect=bogus&connect=direct'' 10 =
     Inr \<lparr>Addrs = [''localhost''], Direct = True, Timeout_d = 10, Username = [],
          Password = [], Database = []\<rparr>"
  by code_simp

subsection \<open>The index cache\<close>

text \<open>
  C8. Let the key of the index parse, with the canonical name \<open>name\<close>; the cache key is
  the collection's full name, a zero byte and \<open>name\<close>. \<^verbatim>\<open>EnsureIndex\<close> on a cache that
  holds the key returns nil and sends nothing. After an \<^verbatim>\<open>EnsureIndex\<close> that returned nil
  the cache holds the key, and a second \<^verbatim>\<open>EnsureIndex\<close> with the same key (whatever its
  other options and whatever the server would answer) returns nil and sends nothing. An
  \<^verbatim>\<open>EnsureIndex\<close> that returned an error left the cache as it was. \<^verbatim>\<open>DropIndex\<close> with
  the same key runs one \<^verbatim>\<open>dropIndexes\<close> command and, whatever that command returns,
  leaves a cache without the key, on which \<^verbatim>\<open>EnsureIndex\<close> sends one creation request
  for \<open>name\<close> and caches the key again exactly when the request succeeds.
\<close>

theorem EnsureIndex_cache:
  assumes key: "parseIndexKey (idx_Key index) = Inr (name, realKey)"
  shows "(HasCachedIndex cache (cacheKey c name) \<longrightarrow>
            EnsureIndex ins c cache index = (None, cache, [])) \<and>
         (\<forall>cache1 sent index2.
            EnsureIndex ins c cache index = (None, cache1, sent) \<and>
            idx_Key index2 = idx_Key index \<longrightarrow>
            HasCachedIndex cache1 (cacheKey c name) \<and>
            EnsureIndex ins' c cache1 index2 = (None, cache1, [])) \<and>
         (\<forall>e cache1 sent.
            EnsureIndex ins c cache index = (Some e, cache1, sent) \<longrightarrow> cache1 = cache) \<and>
         (\<forall>e cache2 cmds.
            DropIndex run c cache (idx_Key index) = (e, cache2, cmds) \<longrightarrow>
            cmds = [(c_Name c, name)] \<and>
            \<not> HasCachedIndex cache2 (cacheKey c name) \<and>
            (\<exists>spec. EnsureIndex ins c cache2 index =
                      (ins spec, if ins spec = None then CacheIndex cache2 (cacheKey c name) True
                                 else cache2, [spec]) \<and>
                    is_Name spec = name \<and> is_NS spec = c_FullName c \<and> is_Key spec = realKey))"
proof -
  have hit: "HasCachedIndex cache (cacheKey c name) \<longrightarrow>
            EnsureIndex ins c cache index = (None, cache, [])"
    using key by (simp add: EnsureIndex_def)
  have twice: "\<forall>cache1 sent index2.
            EnsureIndex ins c cache index = (None, cache1, sent) \<and>
            idx_Key index2 = idx_Key index \<longrightarrow>
            HasCachedIndex cache1 (cacheKey c name) \<and>
            EnsureIndex ins' c cache1 index2 = (None, cache1, [])"
  proof (intro allI impI)
    fix cache1 sent and index2 :: Index
    assume a: "EnsureIndex ins c cache index = (None, cache1, sent) \<and>
               idx_Key index2 = idx_Key index"
    with key have h: "HasCachedIndex cache1 (cacheKey c name)"
      by (auto simp: EnsureIndex_def Let_def HasCachedIndex_def CacheIndex_def split: if_splits)
    from a key have "parseIndexKey (idx_Key index2) = Inr (name, realKey)" by simp
    with h have "EnsureIndex ins' c cache1 index2 = (None, cache1, [])"
      by (simp add: EnsureIndex_def)
    with h show "HasCachedIndex cache1 (cacheKey c name) \<and>
              EnsureIndex ins' c cache1 index2 = (None, cache1, [])" by simp
  qed
  have failed: "\<forall>e cache1 sent.
            EnsureIndex ins c cache index = (Some e, cache1, sent) \<longrightarrow> cache1 = cache"
    using key by (auto simp: EnsureIndex_def Let_def split: if_splits)
  have dropped: "\<forall>e cache2 cmds.
            DropIndex run c cache (idx_Key index) = (e, cache2, cmds) \<longrightarrow>
            cmds = [(c_Name c, name)] \<and>
            \<not> HasCachedIndex cache2 (cacheKey c name) \<and>
            (\<exists>spec. EnsureIndex ins c cache2 index =
                      (ins spec, if ins spec = None then CacheIndex cache2 (cacheKey c name) True
                                 else cache2, [spec]) \<and>
                    is_Name spec = name \<and> is_NS spec = c_FullName c \<and> is_Key spec = realKey)"
  proof (intro allI impI)
    fix e cache2 cmds
    assume d: "DropIndex run c cache (idx_Key index) = (e, cache2, cmds)"
    with key have c2: "cache2 = CacheIndex cache (cacheKey c name) False"
      and cm: "cmds = [(c_Name c, name)]"
      by (auto simp: DropIndex_def Let_def)
    from c2 have n: "\<not> HasCachedIndex cache2 (cacheKey c name)"
      by (simp add: HasCachedIndex_def CacheIndex_def)
    with key have "\<exists>spec. EnsureIndex ins c cache2 index =
                      (ins spec, if ins spec = None then CacheIndex cache2 (cacheKey c name) True
                                 else cache2, [spec]) \<and>
                    is_Name spec = name \<and> is_NS spec = c_FullName c \<and> is_Key spec = realKey"
      by (simp add: EnsureIndex_def Let_def)
    with cm n show "cmds = [(c_Name c, name)] \<and>
            \<not> HasCachedIndex cache2 (cacheKey c name) \<and>
            (\<exists>spec. EnsureIndex ins c cache2 index =
                      (ins spec, if ins spec = None then CacheIndex cache2 (cacheKey c name) True
                                 else cache2, [spec]) \<and>
                    is_Name spec = name \<and> is_NS spec = c_FullName c \<and> is_Key spec = realKey)"
      by simp
  qed
  from hit twice failed dropped show ?thesis by blast
qed


text \<open>The canonical name of the key \<^verbatim>\<open>a, -b\<close>.\<close>

lemma parseIndexKey_a_b:
  "parseIndexKey [''a'', ''-b''] = Inr (''a_1_b_-1'', [(''a'', OInt 1), (''b'', OInt (- 1))])"
  by code_simp

text \<open>
  The theorem for the key \<^verbatim>\<open>a, -b\<close> on the collection \<^verbatim>\<open>db.people\<close>: a first call on an
  empty cache, a second call (with a server that would fail), and a failing drop.
\<close>

theorem EnsureIndex_cache_witness:
  "EnsureIndex (\<lambda>_. None) (C ''db'' ''people'') {}
     \<lparr>idx_Key = [''a'', ''-b''], idx_Unique = True, idx_DropDups = False,
      idx_Background = False, idx_Sparse = False, idx_ExpireAfter = 0, idx_Name = [],
      idx_Bits = 0, idx_Min = 0, idx_Max = 0\<rparr>
   = (None, {''db.people'' @ [CHR 0x00] @ ''a_1_b_-1''},
      [\<lparr>is_Name = ''a_1_b_-1'', is_NS = ''db.people'',
        is_Key = [(''a'', OInt 1), (''b'', OInt (- 1))], is_Unique = True,
        is_DropDups = False, is_Background = False, is_Sparse = False, is_Bits = 0,
        is_Min = 0, is_Max = 0, is_ExpireAfter = 0\<rparr>]) \<and>
   EnsureIndex (\<lambda>_. Some (ErrMsg ''unreachable'')) (C ''db'' ''people'')
     {''db.people'' @ [CHR 0x00] @ ''a_1_b_-1''}
     \<lparr>idx_Key = [''a'', ''-b''], idx_Unique = True, idx_DropDups = False,
      idx_Background = False, idx_Sparse = False, idx_ExpireAfter = 0, idx_Name = [],
      idx_Bits = 0, idx_Min = 0, idx_Max = 0\<rparr>
   = (None, {''db.people'' @ [CHR 0x00] @ ''a_1_b_-1''}, []) \<and>
   DropIndex (\<lambda>_ _. Inl (ErrMsg ''no reachable servers'')) (C ''db'' ''people'')
     {''db.people'' @ [CHR 0x00] @ ''a_1_b_-1''} [''a'', ''-b'']
   = (Some (ErrMsg ''no reachable servers''), {}, [(''people'', ''a_1_b_-1'')]) \<and>
   snd (snd (EnsureIndex (\<lambda>_. None) (C ''db'' ''people'') {}
     \<lparr>idx_Key = [''a'', ''-b''], idx_Unique = True, idx_DropDups = False,
      idx_Background = False, idx_Sparse = False, idx_ExpireAfter = 0, idx_Name = [],
      idx_Bits = 0, idx_Min = 0, idx_Max = 0\<rparr>)) \<noteq> []"
proof -
  let ?ix = "\<lparr>idx_Key = [''a'', ''-b''], idx_Unique = True, idx_DropDups = False,
      idx_Background = False, idx_Sparse = False, idx_ExpireAfter = 0, idx_Name = [],
      idx_Bits = 0, idx_Min = 0, idx_Max = 0\<rparr>"
  let ?c = "C ''db'' ''people''"
  let ?k = "''db.people'' @ [CHR 0x00] @ ''a_1_b_-1''"
  have key: "parseIndexKey (idx_Key ?ix) =
      Inr (''a_1_b_-1'', [(''a'', OInt 1), (''b'', OInt (- 1))])"
    using parseIndexKey_a_b by simp
  have ck: "cacheKey ?c ''a_1_b_-1'' = ?k" by (simp add: cacheKey_def C_def)
  have e1: "EnsureIndex (\<lambda>_. None) ?c {} ?ix = (None, {?k},
      [\<lparr>is_Name = ''a_1_b_-1'', is_NS = ''db.people'',
        is_Key = [(''a'', OInt 1), (''b'', OInt (- 1))], is_Unique = True,
        is_DropDups = False, is_Background = False, is_Sparse = False, is_Bits = 0,
        is_Min = 0, is_Max = 0, is_ExpireAfter = 0\<rparr>])"
    using key by (simp add: EnsureIndex_def HasCachedIndex_def CacheIndex_def cacheKey_def C_def)
  have d1: "DropIndex (\<lambda>_ _. Inl (ErrMsg ''no reachable servers'')) ?c {?k} [''a'', ''-b'']
      = (Some (ErrMsg ''no reachable servers''), {}, [(''people'', ''a_1_b_-1'')])"
    using parseIndexKey_a_b by (simp add: DropIndex_def CacheIndex_def cacheKey_def C_def)
  note T = EnsureIndex_cache [OF key, where c = ?c and cache = "{}" and ins = "\<lambda>_. None"
      and ins' = "\<lambda>_. Some (ErrMsg ''unreachable'')"]
  from T e1 have e2: "EnsureIndex (\<lambda>_. Some (ErrMsg ''unreachable'')) ?c {?k} ?ix = (None, {?k}, [])"
    by blast
  from e1 e2 d1 show ?thesis by simp
qed

end
